theory Spec2Isabelle
  imports Complex_Main
begin

section \<open>Data model: the tables of the transcription feature\<close>

text \<open>
  The tables are those of the migration \<^verbatim>\<open>20260111120000_ai_transcription_feature.sql\<close>.
  A uuid and a text column are strings, a \<^verbatim>\<open>timestamptz\<close> is a number of seconds, a
  nullable column is an \<open>option\<close>. An SQL \<^verbatim>\<open>integer\<close> is an \<open>int\<close>: PostgreSQL raises on
  overflow and never wraps, and the minute counts handled here stay far inside the 32-bit
  range, so no overflow branch is written. Referential integrity (the job of a row exists,
  and its user exists in \<^verbatim>\<open>auth.users\<close>) is taken for granted; a user need not have a row
  in \<open>profiles\<close>, a case for which the consume procedure has a branch of its own.
\<close>

type_synonym uuid = string
type_synonym timestamptz = int

datatype job_status = pending | downloading | transcribing | completed | failed | cancelled

record transcript_segment =
  seg_text :: string
  seg_start :: rat
  seg_duration :: rat

record transcription_job =
  job_user_id :: uuid
  youtube_id :: string
  status :: job_status
  error_message :: "string option"
  progress :: int
  current_stage :: "string option"
  transcript_data :: "transcript_segment list option"
  started_at :: "timestamptz option"
  completed_at :: "timestamptz option"

record profile =
  subscription_tier :: string
  transcription_minutes_topup :: int

datatype usage_source = subscription | topup

record transcription_usage_row =
  usage_user_id :: uuid
  usage_job_id :: uuid
  minutes_used :: int
  source :: usage_source
  period_start :: "timestamptz option"
  period_end :: "timestamptz option"

record topup_purchase =
  purchase_user_id :: uuid
  stripe_payment_intent_id :: string
  minutes_purchased :: int
  amount_paid :: int

record database =
  profiles :: "uuid \<rightharpoonup> profile"
  transcription_jobs :: "uuid \<rightharpoonup> transcription_job"
  transcription_usage :: "transcription_usage_row list"
  transcription_topup_purchases :: "topup_purchase list"

section \<open>The credit ledger: the stored procedures\<close>

text \<open>
  SQL equality on nullable values: a comparison with NULL is not true, so a row whose
  period bound is NULL, or a call whose period argument is NULL, never matches.
\<close>

definition sql_eq :: "'a option \<Rightarrow> 'a option \<Rightarrow> bool" where
  "sql_eq a b = (case (a, b) of (Some x, Some y) \<Rightarrow> x = y | _ \<Rightarrow> False)"

text \<open>\<^verbatim>\<open>get_transcription_usage_in_period\<close>: the minutes of the user's subscription rows of
  the given period, 0 when there are none.\<close>

definition get_transcription_usage_in_period ::
  "database \<Rightarrow> uuid \<Rightarrow> timestamptz option \<Rightarrow> timestamptz option \<Rightarrow> int" where
  "get_transcription_usage_in_period db p_user_id p_period_start p_period_end =
     sum_list (map minutes_used
       (filter (\<lambda>r. usage_user_id r = p_user_id \<and> source r = subscription
                   \<and> sql_eq (period_start r) p_period_start
                   \<and> sql_eq (period_end r) p_period_end)
          (transcription_usage db)))"

text \<open>The jsonb object returned by \<^verbatim>\<open>consume_transcription_minutes_atomically\<close>; a key
  that a branch does not build is \<open>None\<close>.\<close>

record consume_result =
  allowed :: bool
  reason :: string
  minutes_from_subscription :: "int option"
  minutes_from_topup :: "int option"
  subscription_remaining :: "int option"
  topup_remaining :: "int option"
  total_remaining :: "int option"
  minutes_needed :: "int option"

definition denied :: "string \<Rightarrow> consume_result" where
  "denied r = \<lparr> allowed = False, reason = r, minutes_from_subscription = None,
      minutes_from_topup = None, subscription_remaining = None, topup_remaining = None,
      total_remaining = None, minutes_needed = None \<rparr>"

definition insert_usage :: "transcription_usage_row \<Rightarrow> database \<Rightarrow> database" where
  "insert_usage r db = db\<lparr> transcription_usage := transcription_usage db @ [r] \<rparr>"

text \<open>\<^verbatim>\<open>UPDATE profiles SET transcription_minutes_topup = transcription_minutes_topup + d
  WHERE id = u\<close>: no row, no change.\<close>

definition add_to_topup :: "uuid \<Rightarrow> int \<Rightarrow> database \<Rightarrow> database" where
  "add_to_topup u d db =
     (case profiles db u of
        None \<Rightarrow> db
      | Some p \<Rightarrow> db\<lparr> profiles := (profiles db)(u \<mapsto>
                    p\<lparr> transcription_minutes_topup := transcription_minutes_topup p + d \<rparr>) \<rparr>)"

text \<open>The part of \<^verbatim>\<open>consume_transcription_minutes_atomically\<close> after the split is
  decided (lines 321 to 346): the two conditional inserts, the decrement, the result.\<close>

definition record_consumption ::
  "uuid \<Rightarrow> uuid \<Rightarrow> timestamptz option \<Rightarrow> timestamptz option \<Rightarrow> int \<Rightarrow> int \<Rightarrow> int \<Rightarrow> int
     \<Rightarrow> database \<Rightarrow> consume_result \<times> database" where
  "record_consumption p_user_id p_job_id p_period_start p_period_end
       v_subscription_remaining v_topup_minutes v_minutes_from_subscription v_minutes_from_topup db =
     (let db1 = (if v_minutes_from_subscription > 0
                 then insert_usage \<lparr> usage_user_id = p_user_id, usage_job_id = p_job_id,
                        minutes_used = v_minutes_from_subscription, source = subscription,
                        period_start = p_period_start, period_end = p_period_end \<rparr> db
                 else db);
          db2 = (if v_minutes_from_topup > 0
                 then add_to_topup p_user_id (- v_minutes_from_topup)
                        (insert_usage \<lparr> usage_user_id = p_user_id, usage_job_id = p_job_id,
                           minutes_used = v_minutes_from_topup, source = topup,
                           period_start = p_period_start, period_end = p_period_end \<rparr> db1)
                 else db1);
          v_topup_minutes' = (if v_minutes_from_topup > 0
                              then v_topup_minutes - v_minutes_from_topup else v_topup_minutes)
      in (\<lparr> allowed = True, reason = ''OK'',
            minutes_from_subscription = Some v_minutes_from_subscription,
            minutes_from_topup = Some v_minutes_from_topup,
            subscription_remaining = Some (v_subscription_remaining - v_minutes_from_subscription),
            topup_remaining = Some v_topup_minutes',
            total_remaining = None, minutes_needed = None \<rparr>, db2))"

definition consume_transcription_minutes_atomically ::
  "uuid \<Rightarrow> uuid \<Rightarrow> int \<Rightarrow> int \<Rightarrow> timestamptz option \<Rightarrow> timestamptz option
     \<Rightarrow> database \<Rightarrow> consume_result \<times> database" where
  "consume_transcription_minutes_atomically p_user_id p_job_id p_minutes p_subscription_limit
       p_period_start p_period_end db =
     (case profiles db p_user_id of
        None \<Rightarrow> (denied ''NO_PROFILE'', db)
      | Some prof \<Rightarrow>
          if subscription_tier prof \<noteq> ''pro'' then (denied ''NOT_PRO'', db)
          else
            let v_topup_minutes = transcription_minutes_topup prof;
                v_used_subscription =
                  get_transcription_usage_in_period db p_user_id p_period_start p_period_end;
                v_subscription_remaining = max 0 (p_subscription_limit - v_used_subscription)
            in if v_subscription_remaining \<ge> p_minutes then
                 record_consumption p_user_id p_job_id p_period_start p_period_end
                   v_subscription_remaining v_topup_minutes p_minutes 0 db
               else if v_subscription_remaining + v_topup_minutes \<ge> p_minutes then
                 record_consumption p_user_id p_job_id p_period_start p_period_end
                   v_subscription_remaining v_topup_minutes
                   v_subscription_remaining (p_minutes - v_subscription_remaining) db
               else
                 ((denied ''INSUFFICIENT_CREDITS'')\<lparr>
                     subscription_remaining := Some v_subscription_remaining,
                     topup_remaining := Some v_topup_minutes,
                     total_remaining := Some (v_subscription_remaining + v_topup_minutes),
                     minutes_needed := Some p_minutes \<rparr>, db))"

text \<open>\<^verbatim>\<open>refund_transcription_minutes\<close>: the loop over the job's usage rows credits each
  top-up row back to its user's balance and adds every row to the total; then the rows
  are deleted.\<close>

record refund_result =
  refund_success :: bool
  minutes_refunded :: int

definition refund_row :: "transcription_usage_row \<Rightarrow> database \<Rightarrow> database" where
  "refund_row v_usage db =
     (if source v_usage = topup
      then add_to_topup (usage_user_id v_usage) (minutes_used v_usage) db
      else db)"

definition rows_of_job :: "uuid \<Rightarrow> database \<Rightarrow> transcription_usage_row list" where
  "rows_of_job p_job_id db = filter (\<lambda>r. usage_job_id r = p_job_id) (transcription_usage db)"

definition refund_transcription_minutes :: "uuid \<Rightarrow> database \<Rightarrow> refund_result \<times> database" where
  "refund_transcription_minutes p_job_id db =
     (let rows = rows_of_job p_job_id db;
          db1 = fold refund_row rows db;
          v_total_refunded = fold (\<lambda>r acc. acc + minutes_used r) rows 0
      in (\<lparr> refund_success = True, minutes_refunded = v_total_refunded \<rparr>,
          db1\<lparr> transcription_usage :=
                 filter (\<lambda>r. usage_job_id r \<noteq> p_job_id) (transcription_usage db1) \<rparr>))"

text \<open>\<^verbatim>\<open>add_transcription_topup_credits\<close>. The insert into the purchases table is subject
  to the table's CHECK constraints; a violation raises and the call changes nothing.
  PostgreSQL tests the CHECK constraints of a row in the order of their names, so that of
  \<open>amount_paid\<close> is reported when both are violated. The purchase refers to the user of
  \<^verbatim>\<open>auth.users\<close>, not to a profile: the insert does not need the profile row, and the
  \<^verbatim>\<open>UPDATE\<close> of the balance changes nothing when there is none.\<close>

datatype sql_error = check_violation string

record topup_result =
  topup_success :: bool
  already_processed :: bool
  minutes_added :: "int option"
  new_balance :: "int option"

definition add_transcription_topup_credits ::
  "uuid \<Rightarrow> string \<Rightarrow> int \<Rightarrow> int \<Rightarrow> database \<Rightarrow> sql_error + (topup_result \<times> database)" where
  "add_transcription_topup_credits p_user_id p_stripe_payment_intent_id p_minutes p_amount_paid db =
     (if \<exists>x \<in> set (transcription_topup_purchases db).
            stripe_payment_intent_id x = p_stripe_payment_intent_id
      then Inr (\<lparr> topup_success = True, already_processed = True, minutes_added = None,
                  new_balance = map_option transcription_minutes_topup (profiles db p_user_id) \<rparr>,
                db)
      else if \<not> p_amount_paid \<ge> 0
        then Inl (check_violation ''transcription_topup_purchases_amount_paid_check'')
      else if \<not> p_minutes > 0
        then Inl (check_violation ''transcription_topup_purchases_minutes_purchased_check'')
      else
        let db1 = db\<lparr> transcription_topup_purchases := transcription_topup_purchases db @
                     [\<lparr> purchase_user_id = p_user_id,
                        stripe_payment_intent_id = p_stripe_payment_intent_id,
                        minutes_purchased = p_minutes, amount_paid = p_amount_paid \<rparr>] \<rparr>;
            db2 = add_to_topup p_user_id p_minutes db1
        in Inr (\<lparr> topup_success = True, already_processed = False,
                   minutes_added = Some p_minutes,
                   new_balance = map_option transcription_minutes_topup (profiles db2 p_user_id) \<rparr>,
                db2))"


text \<open>Names used in the statements: what is left of the subscription allowance, a usage
  row, the rows a call appended, the top-up minutes among some rows, a credit to a profile.\<close>

definition subscription_remaining_of ::
  "database \<Rightarrow> uuid \<Rightarrow> int \<Rightarrow> timestamptz option \<Rightarrow> timestamptz option \<Rightarrow> int" where
  "subscription_remaining_of db u slimit ps pe =
     max 0 (slimit - get_transcription_usage_in_period db u ps pe)"

definition usage_row ::
  "uuid \<Rightarrow> uuid \<Rightarrow> int \<Rightarrow> usage_source \<Rightarrow> timestamptz option \<Rightarrow> timestamptz option
     \<Rightarrow> transcription_usage_row" where
  "usage_row u j n src ps pe = \<lparr> usage_user_id = u, usage_job_id = j, minutes_used = n,
     source = src, period_start = ps, period_end = pe \<rparr>"

definition created_rows :: "database \<Rightarrow> database \<Rightarrow> transcription_usage_row list" where
  "created_rows db db' = drop (length (transcription_usage db)) (transcription_usage db')"

definition db_spec_scenario :: database where
  "db_spec_scenario = \<lparr> profiles = [''u1'' \<mapsto> \<lparr> subscription_tier = ''pro'',
       transcription_minutes_topup = 20 \<rparr>],
     transcription_jobs = Map.empty, transcription_usage = [],
     transcription_topup_purchases = [] \<rparr>"

definition db_free_user :: database where
  "db_free_user = \<lparr> profiles = [''u1'' \<mapsto> \<lparr> subscription_tier = ''free'',
       transcription_minutes_topup = 0 \<rparr>],
     transcription_jobs = Map.empty, transcription_usage = [],
     transcription_topup_purchases = [] \<rparr>"


definition db_after_consume :: database where
  "db_after_consume = \<lparr> profiles = [''u1'' \<mapsto> \<lparr> subscription_tier = ''pro'',
       transcription_minutes_topup = 15 \<rparr>],
     transcription_jobs = Map.empty,
     transcription_usage =
       [\<lparr> usage_user_id = ''u1'', usage_job_id = ''j1'', minutes_used = 10,
           source = subscription, period_start = Some 0, period_end = Some 100 \<rparr>,
        \<lparr> usage_user_id = ''u1'', usage_job_id = ''j1'', minutes_used = 5,
           source = topup, period_start = Some 0, period_end = Some 100 \<rparr>],
     transcription_topup_purchases = [] \<rparr>"

definition topup_minutes_of :: "uuid \<Rightarrow> transcription_usage_row list \<Rightarrow> int" where
  "topup_minutes_of u rows =
     sum_list (map minutes_used (filter (\<lambda>r. source r = topup \<and> usage_user_id r = u) rows))"

definition credit :: "int \<Rightarrow> profile \<Rightarrow> profile" where
  "credit d p = p\<lparr> transcription_minutes_topup := transcription_minutes_topup p + d \<rparr>"

definition job_minutes :: "uuid \<Rightarrow> database \<Rightarrow> int" where
  "job_minutes j db = sum_list (map minutes_used (rows_of_job j db))"

section \<open>The speech-to-text client\<close>

text \<open>
  The client is \<^verbatim>\<open>lib/gemini-transcription-client.ts\<close>. Its calls to the provider
  (\<^verbatim>\<open>uploadViaFilesApi\<close>, \<^verbatim>\<open>executeTranscription\<close>) are answered by an environment:
  a call returns the progress reports it made and either the value thrown or its result.
  The answer to \<^verbatim>\<open>executeTranscription\<close> may depend on the model and on the number of
  the attempt.
\<close>

definition TRANSCRIPTION_MODELS :: "string list" where
  "TRANSCRIPTION_MODELS =
     [''gemini-3-flash-preview'', ''gemini-2.5-flash-lite'', ''gemini-3-pro-preview'']"

definition MAX_INLINE_SIZE_BYTES :: nat where
  "MAX_INLINE_SIZE_BYTES = 20 * 1024 * 1024"

definition MAX_RETRIES :: nat where
  "MAX_RETRIES = 3"

definition INITIAL_RETRY_DELAY_MS :: nat where
  "INITIAL_RETRY_DELAY_MS = 1000"

definition SUPPORTED_FORMATS :: "string list" where
  "SUPPORTED_FORMATS = [''mp3'', ''wav'', ''aiff'', ''aac'', ''ogg'', ''flac'', ''m4a'',
     ''webm'', ''mpeg'', ''mpga'', ''oga'']"

definition MAX_FILE_SIZE :: nat where
  "MAX_FILE_SIZE = 520 * 1024 * 1024"

subsection \<open>Strings\<close>

text \<open>\<^verbatim>\<open>toLowerCase\<close> on the ASCII letters, \<^verbatim>\<open>includes\<close>, and the last piece of
  \<^verbatim>\<open>split('.')\<close>.\<close>

definition to_lower_char :: "char \<Rightarrow> char" where
  "to_lower_char c =
     (if 65 \<le> (of_char c :: nat) \<and> (of_char c :: nat) \<le> 90
      then char_of (of_char c + (32 :: nat)) else c)"

definition toLowerCase :: "string \<Rightarrow> string" where
  "toLowerCase s = map to_lower_char s"

fun startsWith :: "string \<Rightarrow> string \<Rightarrow> bool" where
  "startsWith s [] = True"
| "startsWith [] (p # ps) = False"
| "startsWith (c # cs) (p # ps) = (c = p \<and> startsWith cs ps)"

fun str_includes :: "string \<Rightarrow> string \<Rightarrow> bool" where
  "str_includes [] p = (p = [])"
| "str_includes (c # cs) p = (startsWith (c # cs) p \<or> str_includes cs p)"

definition split_dot_pop :: "string \<Rightarrow> string" where
  "split_dot_pop s = rev (takeWhile (\<lambda>c. c \<noteq> CHR ''.'') (rev s))"

subsection \<open>Thrown values and their classification\<close>

text \<open>A value caught by \<^verbatim>\<open>catch (error)\<close>: whether it is falsy, whether it is an
  \<^verbatim>\<open>Error\<close>, its \<^verbatim>\<open>status\<close> and \<^verbatim>\<open>code\<close> properties when it has them, and its text
  (\<^verbatim>\<open>error.message\<close> for an \<^verbatim>\<open>Error\<close>, \<^verbatim>\<open>String(error)\<close> otherwise).\<close>

record thrown =
  is_falsy :: bool
  is_Error :: bool
  err_status :: "int option"
  err_code :: "int option"
  err_text :: string

definition new_Error :: "string \<Rightarrow> thrown" where
  "new_Error msg = \<lparr> is_falsy = False, is_Error = True, err_status = None, err_code = None,
     err_text = msg \<rparr>"

definition isRetryableError :: "thrown \<Rightarrow> bool" where
  "isRetryableError error =
     (if is_falsy error then False
      else
        let message = err_text error;
            status = (case err_status error of Some s \<Rightarrow> Some s | None \<Rightarrow> err_code error)
        in status = Some 503 \<or> status = Some 429 \<or> status = Some 500
           \<or> str_includes message ''503''
           \<or> str_includes message ''429''
           \<or> str_includes (toLowerCase message) ''overload''
           \<or> str_includes (toLowerCase message) ''rate limit''
           \<or> str_includes (toLowerCase message) ''quota'')"

subsection \<open>Files and validation\<close>

text \<open>A \<^verbatim>\<open>File\<close> has a name, a plain \<^verbatim>\<open>Blob\<close> has none.\<close>

record audio_file =
  file_name :: "string option"
  file_type :: string
  file_size :: nat

definition isSupportedFormat :: "string \<Rightarrow> bool" where
  "isSupportedFormat filename = (toLowerCase (split_dot_pop filename) \<in> set SUPPORTED_FORMATS)"

datatype validation_error = file_is_empty | file_too_large nat | unsupported_format

definition validateAudioFile :: "audio_file \<Rightarrow> validation_error option" where
  "validateAudioFile file =
     (if file_size file = 0 then Some file_is_empty
      else if file_size file > MAX_FILE_SIZE then Some (file_too_large (file_size file))
      else case file_name file of
             Some name \<Rightarrow> if \<not> isSupportedFormat name then Some unsupported_format else None
           | None \<Rightarrow> None)"

subsection \<open>Transfer strategy and model cascade\<close>

datatype stage = stage_preparing | stage_uploading | stage_transcribing | stage_processing

datatype client_event =
    on_progress stage nat
  | model_attempt string nat
  | slept nat

datatype audio_part = inlineData audio_file | fileData string

record transcription_result =
  segments :: "transcript_segment list"
  language :: string
  duration :: rat

datatype client_error =
    missing_api_key
  | invalid_audio validation_error
  | upload_failed thrown
  | provider_failed thrown

record gemini_env =
  GEMINI_API_KEY :: "string option"
  uploadViaFilesApi :: "audio_file \<Rightarrow> (stage \<times> nat) list \<times> (thrown + string)"
  executeTranscription ::
    "string \<Rightarrow> nat \<Rightarrow> audio_part \<Rightarrow> (stage \<times> nat) list \<times> (thrown + transcription_result)"

definition useFilesApi :: "audio_file \<Rightarrow> bool" where
  "useFilesApi audioFile = (file_size audioFile > MAX_INLINE_SIZE_BYTES)"

text \<open>\<^verbatim>\<open>lastError = error instanceof Error ? error : new Error(String(error))\<close>\<close>

definition as_Error :: "thrown \<Rightarrow> thrown" where
  "as_Error error = (if is_Error error then error else new_Error (err_text error))"

definition progress_events :: "(stage \<times> nat) list \<Rightarrow> client_event list" where
  "progress_events ps = map (\<lambda>(s, p). on_progress s p) ps"

text \<open>The inner loop \<^verbatim>\<open>for (let attempt = 0; attempt < MAX_RETRIES; attempt++)\<close> for one
  model: the events, and either the result returned or the value of \<^verbatim>\<open>lastError\<close> with
  which the loop is left.\<close>

function attempt_loop ::
  "gemini_env \<Rightarrow> audio_part \<Rightarrow> string \<Rightarrow> nat \<Rightarrow> thrown option
     \<Rightarrow> client_event list \<times> (thrown option + transcription_result)" where
  "attempt_loop env audioPart modelName attempt lastError =
     (if attempt < MAX_RETRIES then
        (case executeTranscription env modelName attempt audioPart of
           (ps, Inr result) \<Rightarrow>
             (model_attempt modelName attempt # progress_events ps, Inr result)
         | (ps, Inl error) \<Rightarrow>
             if isRetryableError error then
               (let delay = INITIAL_RETRY_DELAY_MS * 2 ^ attempt;
                    (evs, r) = attempt_loop env audioPart modelName (attempt + 1)
                                 (Some (as_Error error))
                in (model_attempt modelName attempt # progress_events ps @ slept delay # evs, r))
             else (model_attempt modelName attempt # progress_events ps,
                   Inl (Some (as_Error error))))
      else ([], Inl lastError))"
  by pat_completeness auto
termination
  by (relation "measure (\<lambda>(env, audioPart, modelName, attempt, lastError). MAX_RETRIES - attempt)")
     auto

text \<open>The outer loop \<^verbatim>\<open>for (const modelName of models)\<close> and the final \<^verbatim>\<open>throw\<close>.\<close>

fun model_cascade ::
  "gemini_env \<Rightarrow> audio_part \<Rightarrow> string list \<Rightarrow> thrown option
     \<Rightarrow> client_event list \<times> (thrown + transcription_result)" where
  "model_cascade env audioPart [] lastError =
     ([], Inl (case lastError of
                 Some e \<Rightarrow> e
               | None \<Rightarrow> new_Error ''Gemini transcription failed after all retries''))"
| "model_cascade env audioPart (modelName # models) lastError =
     (case attempt_loop env audioPart modelName 0 lastError of
        (evs, Inr result) \<Rightarrow> (evs, Inr result)
      | (evs, Inl lastError') \<Rightarrow>
          (let (evs', r) = model_cascade env audioPart models lastError' in (evs @ evs', r)))"

text \<open>\<^verbatim>\<open>options.model ? [options.model, ...] : [...TRANSCRIPTION_MODELS]\<close>\<close>

definition model_list :: "string option \<Rightarrow> string list" where
  "model_list preferred =
     (case preferred of
        Some m \<Rightarrow> if m = [] then TRANSCRIPTION_MODELS
                  else m # filter (\<lambda>m'. m' \<noteq> m) TRANSCRIPTION_MODELS
      | None \<Rightarrow> TRANSCRIPTION_MODELS)"

text \<open>\<^verbatim>\<open>transcribeAudio\<close>: the API key, the validation, the choice of the transfer,
  the cascade. The handle of an uploaded file is its URI.\<close>

definition transcribeAudio ::
  "gemini_env \<Rightarrow> audio_file \<Rightarrow> string option
     \<Rightarrow> client_event list \<times> (client_error + transcription_result)" where
  "transcribeAudio env audioFile preferred =
     (case GEMINI_API_KEY env of
        None \<Rightarrow> ([], Inl missing_api_key)
      | Some apiKey \<Rightarrow>
          if apiKey = [] then ([], Inl missing_api_key)
          else
            let evs0 = [on_progress stage_preparing 0] in
            case validateAudioFile audioFile of
              Some err \<Rightarrow> (evs0, Inl (invalid_audio err))
            | None \<Rightarrow>
                let (evs1, part) =
                      (if useFilesApi audioFile
                       then (case uploadViaFilesApi env audioFile of
                               (ps, Inl e) \<Rightarrow> (progress_events ps, Inl (upload_failed e))
                             | (ps, Inr uri) \<Rightarrow> (progress_events ps, Inr (fileData uri)))
                       else ([on_progress stage_preparing 10], Inr (inlineData audioFile)))
                in case part of
                     Inl e \<Rightarrow> (evs0 @ evs1, Inl e)
                   | Inr audioPart \<Rightarrow>
                       let evs2 = [on_progress stage_transcribing 30];
                           (evs3, r) = model_cascade env audioPart (model_list preferred) None
                       in (evs0 @ evs1 @ evs2 @ evs3,
                           case r of Inl e \<Rightarrow> Inl (provider_failed e) | Inr result \<Rightarrow> Inr result))"

text \<open>Names used in the statements about the cascade: the events of one attempt, its
  outcome, whether it failed with a retryable error, the error it leaves in
  \<^verbatim>\<open>lastError\<close>, the delay slept after it, the events of the attempts \<open>a\<close> up to
  \<open>b - 1\<close> when each of them is followed by a retry, and the attempts and the delays
  among some events.\<close>

definition attempt_events :: "gemini_env \<Rightarrow> audio_part \<Rightarrow> string \<Rightarrow> nat \<Rightarrow> client_event list" where
  "attempt_events env part m i =
     model_attempt m i # progress_events (fst (executeTranscription env m i part))"

definition outcome :: "gemini_env \<Rightarrow> audio_part \<Rightarrow> string \<Rightarrow> nat \<Rightarrow> thrown + transcription_result" where
  "outcome env part m i = snd (executeTranscription env m i part)"

definition retryable_failure :: "gemini_env \<Rightarrow> audio_part \<Rightarrow> string \<Rightarrow> nat \<Rightarrow> bool" where
  "retryable_failure env part m i =
     (case outcome env part m i of Inl e \<Rightarrow> isRetryableError e | Inr r \<Rightarrow> False)"

definition error_left :: "gemini_env \<Rightarrow> audio_part \<Rightarrow> string \<Rightarrow> nat \<Rightarrow> thrown option" where
  "error_left env part m i =
     (case outcome env part m i of Inl e \<Rightarrow> Some (as_Error e) | Inr r \<Rightarrow> None)"

definition backoff :: "nat \<Rightarrow> nat" where
  "backoff attempt = INITIAL_RETRY_DELAY_MS * 2 ^ attempt"

definition retry_trace ::
  "gemini_env \<Rightarrow> audio_part \<Rightarrow> string \<Rightarrow> nat \<Rightarrow> nat \<Rightarrow> client_event list" where
  "retry_trace env part m a b =
     concat (map (\<lambda>i. attempt_events env part m i @ [slept (backoff i)]) [a..<b])"

definition attempts :: "client_event list \<Rightarrow> (string \<times> nat) list" where
  "attempts evs = concat (map (\<lambda>e. case e of model_attempt m i \<Rightarrow> [(m, i)] | _ \<Rightarrow> []) evs)"

definition delays :: "client_event list \<Rightarrow> nat list" where
  "delays evs = concat (map (\<lambda>e. case e of slept d \<Rightarrow> [d] | _ \<Rightarrow> []) evs)"

text \<open>Examples: errors a provider call may throw, a result, a file of exactly 20 MB, and
  environments in which the first model of the cascade always fails.\<close>

definition error_503 :: thrown where
  "error_503 = \<lparr> is_falsy = False, is_Error = True, err_status = Some 503, err_code = None,
     err_text = ''The model is overloaded'' \<rparr>"

definition error_502 :: thrown where
  "error_502 = \<lparr> is_falsy = False, is_Error = True, err_status = Some 502, err_code = None,
     err_text = ''Bad Gateway'' \<rparr>"

definition error_400 :: thrown where
  "error_400 = \<lparr> is_falsy = False, is_Error = True, err_status = Some 400, err_code = None,
     err_text = ''Invalid argument'' \<rparr>"

definition result_ok :: transcription_result where
  "result_ok = \<lparr> segments = [\<lparr> seg_text = ''hello'', seg_start = 0, seg_duration = 2 \<rparr>],
     language = ''en'', duration = 900 \<rparr>"

definition file_20mb :: audio_file where
  "file_20mb = \<lparr> file_name = Some ''audio.mp3'', file_type = ''audio/mpeg'',
     file_size = 20971520 \<rparr>"

definition file_above_20mb :: audio_file where
  "file_above_20mb = \<lparr> file_name = Some ''audio.mp3'', file_type = ''audio/mpeg'',
     file_size = 20971521 \<rparr>"

definition env_first_fails :: "thrown \<Rightarrow> gemini_env" where
  "env_first_fails e = \<lparr> GEMINI_API_KEY = Some ''key'',
     uploadViaFilesApi = (\<lambda>f. ([(stage_uploading, 10), (stage_uploading, 20),
        (stage_uploading, 25)], Inr ''files/1'')),
     executeTranscription = (\<lambda>m i part.
        if m = ''gemini-3-flash-preview'' then ([(stage_transcribing, 40)], Inl e)
        else ([(stage_transcribing, 40), (stage_processing, 80), (stage_processing, 100)],
              Inr result_ok)) \<rparr>"

definition env_all_fail :: "thrown \<Rightarrow> gemini_env" where
  "env_all_fail e = \<lparr> GEMINI_API_KEY = Some ''key'',
     uploadViaFilesApi = (\<lambda>f. ([(stage_uploading, 10), (stage_uploading, 20),
        (stage_uploading, 25)], Inr ''files/1'')),
     executeTranscription = (\<lambda>m i part. ([(stage_transcribing, 40)], Inl e)) \<rparr>"

section \<open>The job orchestrator\<close>

text \<open>
  The orchestrator is \<^verbatim>\<open>app/api/transcribe/process/route.ts\<close>. It reaches the database
  through helpers of \<^verbatim>\<open>lib/transcription-manager\<close>, a module that is not among the
  sources at hand; the helpers are modelled below from what the specification and the
  callers say about them. Every database call of the route is one operation, and so is
  every call of the audio extraction and of the speech-to-text client, which leave the
  database as it is; a run of the route is the list of its operations in the order in
  which the route issues them, each with the database it leaves behind.

  The route awaits every database call but one: the progress write of the callback that it
  passes to the client (lines 107 to 118) is issued and left alone, a failure being logged
  only. When such a write reaches the database is not up to the route: at once, after any
  later operation of the run, or never. The environment of a run decides it, so that a
  statement about every environment is a statement about every schedule. The database that
  an operation leaves behind is the one after the operation itself, if it is awaited, and
  after the unawaited writes that arrive before the next operation is issued. The awaited
  database calls are taken to succeed.
\<close>

record job_update =
  upd_status :: "job_status option"
  upd_progress :: "int option"
  upd_currentStage :: "string option"
  upd_transcriptData :: "transcript_segment list option"
  upd_errorMessage :: "string option"
  upd_startedAt :: "timestamptz option"
  upd_completedAt :: "timestamptz option"

definition no_update :: job_update where
  "no_update = \<lparr> upd_status = None, upd_progress = None, upd_currentStage = None,
     upd_transcriptData = None, upd_errorMessage = None, upd_startedAt = None,
     upd_completedAt = None \<rparr>"

definition apply_update :: "job_update \<Rightarrow> transcription_job \<Rightarrow> transcription_job" where
  "apply_update u j = j\<lparr>
     status := (case upd_status u of Some s \<Rightarrow> s | None \<Rightarrow> status j),
     progress := (case upd_progress u of Some p \<Rightarrow> p | None \<Rightarrow> progress j),
     current_stage := (case upd_currentStage u of Some s \<Rightarrow> Some s | None \<Rightarrow> current_stage j),
     transcript_data :=
       (case upd_transcriptData u of Some t \<Rightarrow> Some t | None \<Rightarrow> transcript_data j),
     error_message := (case upd_errorMessage u of Some e \<Rightarrow> Some e | None \<Rightarrow> error_message j),
     started_at := (case upd_startedAt u of Some t \<Rightarrow> Some t | None \<Rightarrow> started_at j),
     completed_at := (case upd_completedAt u of Some t \<Rightarrow> Some t | None \<Rightarrow> completed_at j) \<rparr>"

text \<open>Modelled from the spec: \<^verbatim>\<open>getTranscriptionJob\<close> of lib/transcription-manager is
  missing; it returns the job row with the given id, or null.\<close>

definition getTranscriptionJob :: "uuid \<Rightarrow> database \<Rightarrow> transcription_job option" where
  "getTranscriptionJob jobId db = transcription_jobs db jobId"

text \<open>Modelled from the spec: \<^verbatim>\<open>updateTranscriptionJobStatus\<close> of lib/transcription-manager
  is missing; it is a partial update of the job row that overwrites exactly the fields
  given. The table's CHECK on \<open>progress\<close> (0 to 100) rejects the statement otherwise.\<close>

definition updateTranscriptionJobStatus :: "uuid \<Rightarrow> job_update \<Rightarrow> database \<Rightarrow> database" where
  "updateTranscriptionJobStatus jobId u db =
     (case transcription_jobs db jobId of
        None \<Rightarrow> db
      | Some j \<Rightarrow>
          let j' = apply_update u j
          in if 0 \<le> progress j' \<and> progress j' \<le> 100
             then db\<lparr> transcription_jobs := (transcription_jobs db)(jobId \<mapsto> j') \<rparr>
             else db)"

text \<open>Modelled from the spec: \<^verbatim>\<open>consumeTranscriptionMinutes\<close> of lib/transcription-manager
  is missing; it calls the atomic consume procedure with the subscription limit and the
  billing period of the user, and succeeds when the procedure allows.\<close>

definition consumeTranscriptionMinutes ::
  "uuid \<Rightarrow> uuid \<Rightarrow> int \<Rightarrow> int \<Rightarrow> timestamptz option \<Rightarrow> timestamptz option \<Rightarrow> database
     \<Rightarrow> consume_result \<times> database" where
  "consumeTranscriptionMinutes userId jobId minutes subscriptionLimit periodStart periodEnd db =
     consume_transcription_minutes_atomically userId jobId minutes subscriptionLimit
       periodStart periodEnd db"

text \<open>Modelled from the spec: \<^verbatim>\<open>refundTranscriptionMinutes\<close> of lib/transcription-manager
  is missing; it calls the refund procedure for the job.\<close>

definition refundTranscriptionMinutes :: "uuid \<Rightarrow> database \<Rightarrow> database" where
  "refundTranscriptionMinutes jobId db = snd (refund_transcription_minutes jobId db)"

subsection \<open>Operations\<close>

datatype operation =
    update_job uuid job_update
  | update_job_unawaited uuid job_update
  | consume_minutes uuid uuid int int "timestamptz option" "timestamptz option"
  | refund_minutes uuid
  | console_error string
  | download_audio string
  | transcribe_audio audio_file

text \<open>What an operation does to the database when it reaches it.\<close>

fun apply_op :: "operation \<Rightarrow> database \<Rightarrow> database" where
  "apply_op (update_job jobId u) db = updateTranscriptionJobStatus jobId u db"
| "apply_op (update_job_unawaited jobId u) db = updateTranscriptionJobStatus jobId u db"
| "apply_op (consume_minutes userId jobId m l ps pe) db =
     snd (consumeTranscriptionMinutes userId jobId m l ps pe db)"
| "apply_op (refund_minutes jobId) db = refundTranscriptionMinutes jobId db"
| "apply_op (console_error msg) db = db"
| "apply_op (download_audio youtubeId) db = db"
| "apply_op (transcribe_audio audioFile) db = db"

fun awaited :: "operation \<Rightarrow> bool" where
  "awaited (update_job_unawaited jobId u) = False"
| "awaited op = True"

definition replay :: "operation list \<Rightarrow> database \<Rightarrow> database" where
  "replay ops db = fold apply_op ops db"

subsection \<open>The environment of a run\<close>

text \<open>The answers of the external services, the clock, the billing data of the user, and
  the schedule of the unawaited writes: for the write issued as operation number \<open>k\<close> of
  the run, \<open>arrival env k\<close> is \<open>None\<close> when the write never reaches the database, and
  \<open>Some (n, rank)\<close> when it reaches it after operation number \<open>n\<close> of the run (after its
  own issue, if \<open>n < k\<close>) and before the next one; the writes that arrive in the same gap
  arrive in the order of their ranks.\<close>

record audio_extraction_result =
  audioBuffer_byteLength :: nat
  filename :: string
  contentType :: string
  size :: nat

record process_env =
  gemini :: gemini_env
  extractYouTubeAudio :: "string \<Rightarrow> thrown + audio_extraction_result"
  new_Date :: "nat \<Rightarrow> timestamptz"
  subscription_limit :: int
  billing_period_start :: "timestamptz option"
  billing_period_end :: "timestamptz option"
  arrival :: "nat \<Rightarrow> (nat \<times> nat) option"

subsection \<open>Runs\<close>

type_synonym run = "database \<times> (operation \<times> database) list"

text \<open>The unawaited writes among the operations issued so far that arrive right after
  the latest of them.\<close>

definition due :: "process_env \<Rightarrow> operation list \<Rightarrow> nat \<Rightarrow> bool" where
  "due env ops k =
     (\<not> awaited (ops ! k) \<and>
      (case arrival env k of None \<Rightarrow> False | Some (n, rank) \<Rightarrow> max n k = length ops - 1))"

definition arrivals :: "process_env \<Rightarrow> operation list \<Rightarrow> operation list" where
  "arrivals env ops =
     map (\<lambda>k. ops ! k)
       (sort_key (\<lambda>k. case arrival env k of None \<Rightarrow> 0 | Some (n, rank) \<Rightarrow> rank)
          (filter (due env ops) [0..<length ops]))"

definition perform :: "process_env \<Rightarrow> operation \<Rightarrow> run \<Rightarrow> run" where
  "perform env op r =
     (let ops = map fst (snd r) @ [op];
          db1 = (if awaited op then apply_op op (fst r) else fst r);
          db2 = replay (arrivals env ops) db1
      in (db2, snd r @ [(op, db2)]))"

definition createAudioFile :: "audio_extraction_result \<Rightarrow> audio_file" where
  "createAudioFile result = \<lparr> file_name = Some (filename result),
     file_type = contentType result, file_size = audioBuffer_byteLength result \<rparr>"

subsection \<open>The route\<close>

record response =
  http_status :: nat
  resp_success :: bool
  resp_status :: "job_status option"
  resp_error :: "string option"
  resp_message :: "string option"
  resp_segmentCount :: "nat option"
  resp_duration :: "rat option"
  resp_language :: "string option"

definition error_response :: "nat \<Rightarrow> string \<Rightarrow> response" where
  "error_response code msg = \<lparr> http_status = code, resp_success = False, resp_status = None,
     resp_error = Some msg, resp_message = None, resp_segmentCount = None,
     resp_duration = None, resp_language = None \<rparr>"

fun status_name :: "job_status \<Rightarrow> string" where
  "status_name pending = ''pending''"
| "status_name downloading = ''downloading''"
| "status_name transcribing = ''transcribing''"
| "status_name completed = ''completed''"
| "status_name failed = ''failed''"
| "status_name cancelled = ''cancelled''"

text \<open>\<^verbatim>\<open>handleJobFailure\<close>: the status write, then the refund. The clock is read once per
  \<^verbatim>\<open>new Date()\<close>; its argument here is the number of operations made so far.\<close>

definition mark_failed :: "string \<Rightarrow> timestamptz \<Rightarrow> job_update" where
  "mark_failed errorMessage date = no_update\<lparr> upd_status := Some failed,
     upd_errorMessage := Some errorMessage, upd_completedAt := Some date \<rparr>"

definition handleJobFailure :: "process_env \<Rightarrow> uuid \<Rightarrow> string \<Rightarrow> run \<Rightarrow> run" where
  "handleJobFailure env jobId errorMessage r =
     perform env (refund_minutes jobId)
       (perform env
          (update_job jobId (mark_failed errorMessage (new_Date env (length (snd r))))) r)"

text \<open>The other objects the route passes to \<^verbatim>\<open>updateTranscriptionJobStatus\<close>.\<close>

definition mark_downloading :: "timestamptz \<Rightarrow> job_update" where
  "mark_downloading date = no_update\<lparr> upd_status := Some downloading, upd_progress := Some 10,
     upd_currentStage := Some ''Downloading audio from YouTube'', upd_startedAt := Some date \<rparr>"

definition mark_transcribing :: job_update where
  "mark_transcribing = no_update\<lparr> upd_status := Some transcribing, upd_progress := Some 30,
     upd_currentStage := Some ''Transcribing audio with AI'' \<rparr>"

definition mark_finalizing :: job_update where
  "mark_finalizing = no_update\<lparr> upd_progress := Some 90,
     upd_currentStage := Some ''Finalizing transcript'' \<rparr>"

definition mark_completed :: "transcript_segment list \<Rightarrow> timestamptz \<Rightarrow> job_update" where
  "mark_completed segs date = no_update\<lparr> upd_status := Some completed, upd_progress := Some 100,
     upd_currentStage := Some ''Complete'', upd_transcriptData := Some segs,
     upd_completedAt := Some date \<rparr>"

text \<open>The progress callback passed to \<^verbatim>\<open>transcribeAudio\<close>. The source computes
  \<^verbatim>\<open>30 + Math.floor(progress.progress * 0.6)\<close> in floating point; on the natural numbers
  a progress report carries this is \<open>30 + 6 * p div 10\<close>.\<close>

definition callback_update :: "stage \<Rightarrow> nat \<Rightarrow> job_update" where
  "callback_update st p = no_update\<lparr>
     upd_progress := Some (30 + (6 * int p) div 10),
     upd_currentStage := Some (if st = stage_uploading then ''Uploading audio to AI''
                               else if st = stage_transcribing then ''Transcribing audio with AI''
                               else ''Processing transcript'') \<rparr>"

text \<open>What the run makes of an event of the client: a progress report calls the callback,
  which issues its write and does not wait for it.\<close>

fun on_client_event :: "process_env \<Rightarrow> uuid \<Rightarrow> client_event \<Rightarrow> run \<Rightarrow> run" where
  "on_client_event env jobId (on_progress st p) r =
     perform env (update_job_unawaited jobId (callback_update st p)) r"
| "on_client_event env jobId (model_attempt m i) r = r"
| "on_client_event env jobId (slept d) r = r"

definition POST :: "process_env \<Rightarrow> string option \<Rightarrow> database \<Rightarrow> response \<times> run" where
  "POST env body_jobId db0 =
     (case body_jobId of
        None \<Rightarrow> (error_response 400 ''Missing or invalid jobId'', (db0, []))
      | Some jobId \<Rightarrow>
        if jobId = [] then (error_response 400 ''Missing or invalid jobId'', (db0, []))
        else
        case getTranscriptionJob jobId db0 of
          None \<Rightarrow> (error_response 404 ''Job not found'', (db0, []))
        | Some job \<Rightarrow>
          if status job = completed \<or> status job = cancelled \<or> status job = failed
          then (\<lparr> http_status = 200, resp_success = True, resp_status = Some (status job),
                   resp_error = None,
                   resp_message = Some (''Job already '' @ status_name (status job)),
                   resp_segmentCount = None, resp_duration = None, resp_language = None \<rparr>,
                (db0, []))
          else
          let r1 = perform env (download_audio (youtube_id job))
                     (perform env (update_job jobId (mark_downloading (new_Date env 0)))
                        (db0, []))
          in case extractYouTubeAudio env (youtube_id job) of
               Inl downloadError \<Rightarrow>
                 (error_response 500 ''Failed to download audio'',
                  handleJobFailure env jobId ''Failed to download audio from YouTube'' r1)
             | Inr audioResult \<Rightarrow>
                 let audioFile = createAudioFile audioResult;
                     r2 = perform env (transcribe_audio audioFile)
                            (perform env (update_job jobId mark_transcribing) r1);
                     (events, outcome) = transcribeAudio (gemini env) audioFile None;
                     r3 = fold (on_client_event env jobId) events r2
                 in case outcome of
                      Inl geminiError \<Rightarrow>
                        (error_response 500 ''Transcription failed'',
                         handleJobFailure env jobId ''AI transcription failed'' r3)
                    | Inr transcriptionResult \<Rightarrow>
                        let r4 = perform env (update_job jobId mark_finalizing) r3;
                            durationMinutes = \<lceil>duration transcriptionResult / 60\<rceil>;
                            consumeResult = fst (consumeTranscriptionMinutes (job_user_id job)
                                jobId durationMinutes (subscription_limit env)
                                (billing_period_start env) (billing_period_end env) (fst r4));
                            r5 = perform env (consume_minutes (job_user_id job) jobId
                                   durationMinutes (subscription_limit env)
                                   (billing_period_start env) (billing_period_end env)) r4;
                            r5' = (if \<not> allowed consumeResult
                                   then perform env (console_error
                                          ''[Transcription] Failed to consume credits:'') r5
                                   else r5);
                            r6 = perform env (update_job jobId
                                   (mark_completed (segments transcriptionResult)
                                      (new_Date env (length (snd r5'))))) r5'
                        in (\<lparr> http_status = 200, resp_success = True,
                              resp_status = Some completed, resp_error = None,
                              resp_message = None,
                              resp_segmentCount = Some (length (segments transcriptionResult)),
                              resp_duration = Some (duration transcriptionResult),
                              resp_language = Some (language transcriptionResult) \<rparr>, r6))"

subsection \<open>Cancellation and job creation\<close>

text \<open>Modelled from the spec: \<^verbatim>\<open>cancelTranscriptionJob\<close> of lib/transcription-manager is
  missing; the specification has cancellation flip the status to \<open>cancelled\<close> and refund
  the minutes already consumed by the path used for failure.\<close>

definition cancel_operations :: "uuid \<Rightarrow> operation list" where
  "cancel_operations jobId =
     [update_job jobId (no_update\<lparr> upd_status := Some cancelled \<rparr>), refund_minutes jobId]"

definition cancelTranscriptionJob :: "uuid \<Rightarrow> database \<Rightarrow> database" where
  "cancelTranscriptionJob jobId db = replay (cancel_operations jobId) db"

text \<open>The cancel route \<^verbatim>\<open>app/api/transcribe/cancel/route.ts\<close> for an authenticated
  user: the job must exist, belong to the user and be in a cancellable status. The route
  reads the job, checks it and then cancels; the database given here is the one it leaves
  when nothing else writes in between.\<close>

definition cancel_route :: "uuid \<Rightarrow> string option \<Rightarrow> database \<Rightarrow> response \<times> database" where
  "cancel_route user_id body_jobId db =
     (case body_jobId of
        None \<Rightarrow> (error_response 400 ''Missing or invalid jobId'', db)
      | Some jobId \<Rightarrow>
        if jobId = [] then (error_response 400 ''Missing or invalid jobId'', db)
        else
        case transcription_jobs db jobId of
          None \<Rightarrow> (error_response 404 ''Job not found'', db)
        | Some job \<Rightarrow>
            if job_user_id job \<noteq> user_id then (error_response 403 ''Unauthorized'', db)
            else if status job \<notin> {pending, downloading, transcribing}
            then (error_response 400
                    (''Cannot cancel job with status: '' @ status_name (status job)), db)
            else (\<lparr> http_status = 200, resp_success = True, resp_status = None,
                     resp_error = None, resp_message = Some ''Job cancelled successfully'',
                     resp_segmentCount = None, resp_duration = None, resp_language = None \<rparr>,
                  cancelTranscriptionJob jobId db))"

text \<open>Modelled from the spec: the submission endpoint is missing; it creates the job in
  \<open>pending\<close>, and the other columns take the defaults of the table.\<close>

definition created_job :: "uuid \<Rightarrow> string \<Rightarrow> transcription_job" where
  "created_job userId youtubeId = \<lparr> job_user_id = userId, youtube_id = youtubeId,
     status = pending, error_message = None, progress = 0, current_stage = None,
     transcript_data = None, started_at = None, completed_at = None \<rparr>"

subsection \<open>The states a job row can reach\<close>

text \<open>
  Nothing in the route keeps a second invocation for the same job away, the cancel route
  checks the status and writes afterwards, and the progress writes are not awaited. A
  configuration is therefore the database, the invocations in flight for the job, each
  with the operations it has still to issue, and the unawaited writes that are issued and
  have not arrived. An invocation reads the job once and never again; what it issues
  depends on that read and on the answers of the external services only (but for the log
  line after a denied consumption, which changes nothing), so its operations are those of
  \<open>POST\<close> on the database it read. A cancel request that passes its check has the
  operations of the cancellation to issue. The steps: an invocation or a cancel request
  starts; one of them has its next operation take effect, or issues its next unawaited
  write; a write in flight arrives, or is lost; an invocation dies; another request
  changes anything but this job row.
\<close>

type_synonym configuration = "database \<times> operation list list \<times> operation list"

inductive reachable :: "uuid \<Rightarrow> configuration \<Rightarrow> bool" for jobId :: uuid where
  created: "transcription_jobs db jobId = Some (created_job userId youtubeId)
      \<Longrightarrow> reachable jobId (db, [], [])"
| invoked: "reachable jobId (db, runs, flight) \<Longrightarrow> POST env (Some jobId) db = (resp, r)
      \<Longrightarrow> reachable jobId (db, runs @ [map fst (snd r)], flight)"
| cancel_requested: "reachable jobId (db, runs, flight)
      \<Longrightarrow> http_status (fst (cancel_route user_id (Some jobId) db)) = 200
      \<Longrightarrow> reachable jobId (db, runs @ [cancel_operations jobId], flight)"
| effected: "reachable jobId (db, runs @ (op # ops) # runs', flight) \<Longrightarrow> awaited op
      \<Longrightarrow> reachable jobId (apply_op op db, runs @ ops # runs', flight)"
| issued: "reachable jobId (db, runs @ (op # ops) # runs', flight) \<Longrightarrow> \<not> awaited op
      \<Longrightarrow> reachable jobId (db, runs @ ops # runs', flight @ [op])"
| arrived: "reachable jobId (db, runs, flight @ op # flight')
      \<Longrightarrow> reachable jobId (apply_op op db, runs, flight @ flight')"
| lost: "reachable jobId (db, runs, flight @ op # flight')
      \<Longrightarrow> reachable jobId (db, runs, flight @ flight')"
| abandoned: "reachable jobId (db, runs @ ops # runs', flight)
      \<Longrightarrow> reachable jobId (db, runs @ runs', flight)"
| elsewhere: "reachable jobId (db, runs, flight)
      \<Longrightarrow> transcription_jobs db' jobId = transcription_jobs db jobId
      \<Longrightarrow> reachable jobId (db', runs, flight)"

text \<open>Names used in the statements: the progress writes a list of client events gives
  rise to, terminal statuses, the range of the progress column, the operations on the
  ledger.\<close>

definition progress_ops :: "uuid \<Rightarrow> client_event list \<Rightarrow> operation list" where
  "progress_ops jobId events =
     concat (map (\<lambda>ev. case ev of
                          on_progress st p \<Rightarrow> [update_job_unawaited jobId (callback_update st p)]
                        | _ \<Rightarrow> []) events)"

definition is_terminal :: "job_status \<Rightarrow> bool" where
  "is_terminal s = (s = completed \<or> s = cancelled \<or> s = failed)"

definition progress_in_range :: "transcription_job \<Rightarrow> bool" where
  "progress_in_range j = (0 \<le> progress j \<and> progress j \<le> 100)"

definition touches_ledger :: "operation \<Rightarrow> bool" where
  "touches_ledger op =
     (case op of consume_minutes u j m l ps pe \<Rightarrow> True | refund_minutes j \<Rightarrow> True | _ \<Rightarrow> False)"

text \<open>The run up to the call of the audio extraction, and up to the return of the
  speech-to-text client.\<close>

definition run_to_download :: "process_env \<Rightarrow> uuid \<Rightarrow> transcription_job \<Rightarrow> database \<Rightarrow> run" where
  "run_to_download env jobId job db =
     perform env (download_audio (youtube_id job))
       (perform env (update_job jobId (mark_downloading (new_Date env 0))) (db, []))"

definition run_to_transcript ::
  "process_env \<Rightarrow> uuid \<Rightarrow> transcription_job \<Rightarrow> audio_extraction_result \<Rightarrow> client_event list
     \<Rightarrow> database \<Rightarrow> run" where
  "run_to_transcript env jobId job audio events db =
     fold (on_client_event env jobId) events
       (perform env (transcribe_audio (createAudioFile audio))
          (perform env (update_job jobId mark_transcribing) (run_to_download env jobId job db)))"

definition ops_to_transcript ::
  "process_env \<Rightarrow> uuid \<Rightarrow> transcription_job \<Rightarrow> audio_extraction_result \<Rightarrow> client_event list
     \<Rightarrow> operation list" where
  "ops_to_transcript env jobId job audio events =
     [update_job jobId (mark_downloading (new_Date env 0)), download_audio (youtube_id job),
      update_job jobId mark_transcribing, transcribe_audio (createAudioFile audio)]
     @ progress_ops jobId events"

text \<open>The progress values that the callback writes of a run carry, and what the unawaited
  writes of a run of the route are.\<close>

definition reported_progress :: "client_event list \<Rightarrow> int list" where
  "reported_progress events =
     concat (map (\<lambda>ev. case ev of on_progress st p \<Rightarrow> [30 + (6 * int p) div 10] | _ \<Rightarrow> [])
               events)"

definition unawaited_are_callbacks :: "uuid \<Rightarrow> client_event list \<Rightarrow> operation list \<Rightarrow> bool" where
  "unawaited_are_callbacks jobId events ops =
     list_all (\<lambda>op. awaited op \<or> op \<in> set (progress_ops jobId events)) ops"

text \<open>The job row has the given status, transcript and error message, and its progress
  is in range.\<close>

definition row_is ::
  "uuid \<Rightarrow> database \<Rightarrow> job_status \<Rightarrow> transcript_segment list option \<Rightarrow> string option \<Rightarrow> bool"
  where
  "row_is jobId db st td em =
     (case transcription_jobs db jobId of
        None \<Rightarrow> False
      | Some j \<Rightarrow> status j = st \<and> transcript_data j = td \<and> error_message j = em
                  \<and> progress_in_range j)"

text \<open>A write to the job row that sets the status \<open>completed\<close> sets the transcript and the
  progress 100 with it, and no other write sets the transcript.\<close>

definition completes_with_transcript :: "job_update \<Rightarrow> bool" where
  "completes_with_transcript u =
     ((upd_status u = Some completed \<longrightarrow> upd_transcriptData u \<noteq> None \<and> upd_progress u = Some 100)
      \<and> (upd_transcriptData u \<noteq> None \<longrightarrow> upd_status u = Some completed))"

definition well_behaved :: "operation \<Rightarrow> bool" where
  "well_behaved op =
     (case op of
        update_job j u \<Rightarrow> completes_with_transcript u
      | update_job_unawaited j u \<Rightarrow> completes_with_transcript u
      | _ \<Rightarrow> True)"

text \<open>The invariant of a job row, and that of a configuration: the row is there and
  sound, and every operation still to be issued or to arrive is well behaved.\<close>

definition row_sound :: "transcription_job \<Rightarrow> bool" where
  "row_sound j = ((status j = completed \<longrightarrow> transcript_data j \<noteq> None) \<and> progress_in_range j)"

definition sound :: "uuid \<Rightarrow> configuration \<Rightarrow> bool" where
  "sound jobId c =
     (case c of (db, runs, flight) \<Rightarrow>
        (case transcription_jobs db jobId of None \<Rightarrow> False | Some j \<Rightarrow> row_sound j)
        \<and> list_all well_behaved (concat runs @ flight))"

text \<open>The unawaited writes of a run that have been issued and have not arrived when the
  operations \<open>ops\<close> have been made: those that never arrive, and those that arrive after an
  operation still to come.\<close>

definition later :: "process_env \<Rightarrow> nat \<Rightarrow> nat \<Rightarrow> bool" where
  "later env n k = (case arrival env k of None \<Rightarrow> True | Some (a, rank) \<Rightarrow> n \<le> max a k)"

definition in_flight :: "process_env \<Rightarrow> operation list \<Rightarrow> operation list" where
  "in_flight env ops =
     map (\<lambda>k. ops ! k)
       (filter (\<lambda>k. \<not> awaited (ops ! k) \<and> later env (length ops) k) [0..<length ops])"

text \<open>The database after an invocation whose unawaited writes all arrive after its last
  operation, in the order of issue.\<close>

definition settle_late :: "operation list \<Rightarrow> database \<Rightarrow> database" where
  "settle_late ops db = replay (filter (\<lambda>op. \<not> awaited op) ops) (replay (filter awaited ops) db)"

text \<open>Examples: a download of exactly 20 MB, an environment in which the download and the
  transcription succeed (the second model answers, with 900 seconds of audio, that is 15
  minutes) and one in which the download fails, every unawaited write arriving at once in
  both; the first environment again with every unawaited write arriving after operation
  number 14 of the run, the completing write; a database with a freshly created job of a
  user who has 10 subscription minutes and no top-up, and a database in which an
  invocation died after consuming 15 minutes for the job.\<close>

definition audio_20mb :: audio_extraction_result where
  "audio_20mb = \<lparr> audioBuffer_byteLength = 20971520, filename = ''audio.mp3'',
     contentType = ''audio/mpeg'', size = 20971520 \<rparr>"

definition env_demo :: process_env where
  "env_demo = \<lparr> gemini = env_first_fails error_502,
     extractYouTubeAudio = (\<lambda>youtubeId. Inr audio_20mb),
     new_Date = (\<lambda>n. 1000 + int n),
     subscription_limit = 10, billing_period_start = Some 0, billing_period_end = Some 100,
     arrival = (\<lambda>k. Some (k, 0)) \<rparr>"

definition env_late :: process_env where
  "env_late = env_demo\<lparr> arrival := (\<lambda>k. Some (14, 0)) \<rparr>"

definition env_download_fails :: process_env where
  "env_download_fails = \<lparr> gemini = env_first_fails error_502,
     extractYouTubeAudio = (\<lambda>youtubeId. Inl (new_Error ''Failed to download audio: 403'')),
     new_Date = (\<lambda>n. 1000 + int n),
     subscription_limit = 10, billing_period_start = Some 0, billing_period_end = Some 100,
     arrival = (\<lambda>k. Some (k, 0)) \<rparr>"

definition db_pending :: database where
  "db_pending = \<lparr> profiles = [''u1'' \<mapsto> \<lparr> subscription_tier = ''pro'',
       transcription_minutes_topup = 0 \<rparr>],
     transcription_jobs = [''j1'' \<mapsto> created_job ''u1'' ''video'' ],
     transcription_usage = [], transcription_topup_purchases = [] \<rparr>"

definition db_abandoned :: database where
  "db_abandoned = \<lparr> profiles = [''u1'' \<mapsto> \<lparr> subscription_tier = ''pro'',
       transcription_minutes_topup = 15 \<rparr>],
     transcription_jobs = [''j1'' \<mapsto> (created_job ''u1'' ''video'')
       \<lparr> status := transcribing, progress := 90 \<rparr>],
     transcription_usage =
       [\<lparr> usage_user_id = ''u1'', usage_job_id = ''j1'', minutes_used = 10,
           source = subscription, period_start = Some 0, period_end = Some 100 \<rparr>,
        \<lparr> usage_user_id = ''u1'', usage_job_id = ''j1'', minutes_used = 5,
           source = topup, period_start = Some 0, period_end = Some 100 \<rparr>],
     transcription_topup_purchases = [] \<rparr>"

definition db_completed :: database where
  "db_completed = \<lparr> profiles = [''u1'' \<mapsto> \<lparr> subscription_tier = ''pro'',
       transcription_minutes_topup = 0 \<rparr>],
     transcription_jobs = [''j1'' \<mapsto> (created_job ''u1'' ''video'')
       \<lparr> status := completed, progress := 100,
         transcript_data := Some [\<lparr> seg_text = ''hello'', seg_start = 0, seg_duration = 2 \<rparr>] \<rparr>],
     transcription_usage = [], transcription_topup_purchases = [] \<rparr>"

text \<open>The operations of an invocation for the freshly created job, and the database when
  its progress writes all arrive after the completing write. The operations of a second
  invocation that reads the job at the same time and cannot download the audio, and the
  database when the second invocation has made its first two operations, the first
  invocation has then run to its end, every progress write arriving at once, and the
  second invocation's write of the status \<open>failed\<close> takes effect after that.\<close>

definition demo_operations :: "operation list" where
  "demo_operations = map fst (snd (snd (POST env_demo (Some ''j1'') db_pending)))"

definition db_late_progress :: database where
  "db_late_progress = settle_late demo_operations db_pending"

definition second_operations :: "operation list" where
  "second_operations = map fst (snd (snd (POST env_download_fails (Some ''j1'') db_pending)))"

definition db_failed_after_completion :: database where
  "db_failed_after_completion =
     apply_op (second_operations ! 2)
       (replay demo_operations (replay (take 2 second_operations) db_pending))"

section \<open>Properties of the credit ledger\<close>

subsection \<open>Atomic consumption\<close>

lemma usage_add_to_topup [simp]:
  "transcription_usage (add_to_topup u d db) = transcription_usage db"
  by (simp add: add_to_topup_def split: option.splits)

lemma consume_pro:
  assumes "profiles db u = Some prof" and "subscription_tier prof = ''pro''"
  shows "consume_transcription_minutes_atomically u j m slimit ps pe db =
    (let s = subscription_remaining_of db u slimit ps pe; t = transcription_minutes_topup prof
     in if s \<ge> m then record_consumption u j ps pe s t m 0 db
        else if s + t \<ge> m then record_consumption u j ps pe s t s (m - s) db
        else ((denied ''INSUFFICIENT_CREDITS'')\<lparr>
                 subscription_remaining := Some s, topup_remaining := Some t,
                 total_remaining := Some (s + t), minutes_needed := Some m \<rparr>, db))"
  using assms
  by (simp add: consume_transcription_minutes_atomically_def subscription_remaining_of_def Let_def)


lemma consume_no_profile:
  "profiles db u = None \<Longrightarrow>
   consume_transcription_minutes_atomically u j m slimit ps pe db = (denied ''NO_PROFILE'', db)"
  by (simp add: consume_transcription_minutes_atomically_def)

lemma consume_not_pro:
  "profiles db u = Some prof \<Longrightarrow> subscription_tier prof \<noteq> ''pro'' \<Longrightarrow>
   consume_transcription_minutes_atomically u j m slimit ps pe db = (denied ''NOT_PRO'', db)"
  by (simp add: consume_transcription_minutes_atomically_def)

text \<open>
  C3 (as amended). A call of the atomic consume operation for a user without a profile
  row is refused with reason \<open>NO_PROFILE\<close>, and one for a user whose tier is not \<open>pro\<close>
  with reason \<open>NOT_PRO\<close>; both charge nothing and leave the state as it is. For every
  call by a user whose profile exists with tier \<open>pro\<close> and a top-up balance \<open>t \<ge> 0\<close> (the
  column's CHECK), with \<open>s = max 0 (subscriptionLimit - periodUsage)\<close> and \<open>m\<close> minutes
  needed: if \<open>s \<ge> m\<close> it charges \<open>m\<close> to the subscription bucket and 0 to top-up; if
  \<open>s < m \<le> s + t\<close> it charges \<open>s\<close> to subscription and \<open>m - s\<close> to top-up, which leaves
  \<open>t - (m - s)\<close>; if \<open>m > s + t\<close> it inserts no usage row, leaves the balance unchanged
  and returns \<open>allowed = false\<close> with reason \<open>INSUFFICIENT_CREDITS\<close>. A usage row is
  written for a bucket only when the amount charged to it is positive.
\<close>

theorem consume_split:
  assumes "(res, db') = consume_transcription_minutes_atomically u j m slimit ps pe db"
    and "s = subscription_remaining_of db u slimit ps pe"
  shows "(profiles db u = None \<longrightarrow>
            \<not> allowed res \<and> reason res = ''NO_PROFILE'' \<and> db' = db)
       \<and> (\<forall>prof. profiles db u = Some prof \<and> subscription_tier prof \<noteq> ''pro'' \<longrightarrow>
            \<not> allowed res \<and> reason res = ''NOT_PRO'' \<and> db' = db)
       \<and> (\<forall>prof t. profiles db u = Some prof \<and> subscription_tier prof = ''pro''
              \<and> t = transcription_minutes_topup prof \<and> 0 \<le> t \<longrightarrow>
            (s \<ge> m \<longrightarrow>
               allowed res \<and> minutes_from_subscription res = Some m
             \<and> minutes_from_topup res = Some 0
             \<and> transcription_usage db' = transcription_usage db @
                  (if m > 0 then [usage_row u j m subscription ps pe] else [])
             \<and> profiles db' = profiles db)
          \<and> (s < m \<and> m \<le> s + t \<longrightarrow>
               allowed res \<and> minutes_from_subscription res = Some s
             \<and> minutes_from_topup res = Some (m - s)
             \<and> transcription_usage db' = transcription_usage db @
                  (if s > 0 then [usage_row u j s subscription ps pe] else []) @
                  [usage_row u j (m - s) topup ps pe]
             \<and> profiles db' =
                  (profiles db)(u \<mapsto> prof\<lparr> transcription_minutes_topup := t - (m - s) \<rparr>))
          \<and> (m > s + t \<longrightarrow>
               \<not> allowed res \<and> reason res = ''INSUFFICIENT_CREDITS'' \<and> db' = db))"
proof (intro conjI allI impI)
  assume "profiles db u = None"
  from assms(1) [unfolded consume_no_profile [OF this]]
  show "\<not> allowed res" and "reason res = ''NO_PROFILE''" and "db' = db"
    by (simp_all add: denied_def)
next
  fix prof
  assume "profiles db u = Some prof \<and> subscription_tier prof \<noteq> ''pro''"
  then have "consume_transcription_minutes_atomically u j m slimit ps pe db =
      (denied ''NOT_PRO'', db)"
    by (simp add: consume_not_pro)
  with assms(1) show "\<not> allowed res" and "reason res = ''NOT_PRO''" and "db' = db"
    by (simp_all add: denied_def)
next
  fix prof t
  assume pro: "profiles db u = Some prof \<and> subscription_tier prof = ''pro''
      \<and> t = transcription_minutes_topup prof \<and> 0 \<le> t"
  then have p: "profiles db u = Some prof" and tier: "subscription_tier prof = ''pro''"
    and t: "transcription_minutes_topup prof = t" and t0: "0 \<le> t"
    by simp_all
  have s0: "0 \<le> s" using assms(2) by (simp add: subscription_remaining_of_def)
  have c: "(res, db') =
    (if s \<ge> m then record_consumption u j ps pe s t m 0 db
        else if s + t \<ge> m then record_consumption u j ps pe s t s (m - s) db
        else ((denied ''INSUFFICIENT_CREDITS'')\<lparr>
                 subscription_remaining := Some s, topup_remaining := Some t,
                 total_remaining := Some (s + t), minutes_needed := Some m \<rparr>, db))"
    using assms(1) unfolding consume_pro [OF p tier] assms(2) t by (simp add: Let_def)
  {
    assume "s \<ge> m"
    with c s0 t0
    show "allowed res" and "minutes_from_subscription res = Some m"
      and "minutes_from_topup res = Some 0"
      and "transcription_usage db' = transcription_usage db @
             (if m > 0 then [usage_row u j m subscription ps pe] else [])"
      and "profiles db' = profiles db"
      by (auto simp add: Let_def record_consumption_def insert_usage_def usage_row_def
          split: if_splits)
  }
  {
    assume "s < m \<and> m \<le> s + t"
    with c s0 t0
    show "allowed res" and "minutes_from_subscription res = Some s"
      and "minutes_from_topup res = Some (m - s)"
      and "transcription_usage db' = transcription_usage db @
             (if s > 0 then [usage_row u j s subscription ps pe] else []) @
             [usage_row u j (m - s) topup ps pe]"
      and "profiles db' =
             (profiles db)(u \<mapsto> prof\<lparr> transcription_minutes_topup := t - (m - s) \<rparr>)"
      by (auto simp add: Let_def record_consumption_def insert_usage_def add_to_topup_def
          usage_row_def p t split: if_splits)
  }
  {
    assume "m > s + t"
    with c s0 t0
    show "\<not> allowed res" and "reason res = ''INSUFFICIENT_CREDITS''" and "db' = db"
      by (auto simp add: denied_def split: if_splits)
  }
qed


lemma eval_scenario_remaining:
  "subscription_remaining_of db_spec_scenario ''u1'' 10 (Some 0) (Some 100) = 10"
  by (simp add: subscription_remaining_of_def get_transcription_usage_in_period_def
      db_spec_scenario_def)

lemma eval_scenario_consume:
  "consume_transcription_minutes_atomically ''u1'' ''j1'' 15 10 (Some 0) (Some 100) db_spec_scenario =
     (\<lparr> allowed = True, reason = ''OK'', minutes_from_subscription = Some 10,
        minutes_from_topup = Some 5, subscription_remaining = Some 0,
        topup_remaining = Some 15, total_remaining = None, minutes_needed = None \<rparr>,
      \<lparr> profiles = [''u1'' \<mapsto> \<lparr> subscription_tier = ''pro'',
           transcription_minutes_topup = 15 \<rparr>],
        transcription_jobs = Map.empty,
        transcription_usage =
          [\<lparr> usage_user_id = ''u1'', usage_job_id = ''j1'', minutes_used = 10,
              source = subscription, period_start = Some 0, period_end = Some 100 \<rparr>,
           \<lparr> usage_user_id = ''u1'', usage_job_id = ''j1'', minutes_used = 5,
              source = topup, period_start = Some 0, period_end = Some 100 \<rparr>],
        transcription_topup_purchases = [] \<rparr>)"
  by (simp add: consume_transcription_minutes_atomically_def record_consumption_def
      get_transcription_usage_in_period_def insert_usage_def add_to_topup_def
      db_spec_scenario_def Let_def)

theorem consume_split_witness:
  "profiles db_spec_scenario ''u1'' =
       Some \<lparr> subscription_tier = ''pro'', transcription_minutes_topup = 20 \<rparr>
   \<and> subscription_remaining_of db_spec_scenario ''u1'' 10 (Some 0) (Some 100) = 10
   \<and> minutes_from_subscription (fst (consume_transcription_minutes_atomically
         ''u1'' ''j1'' 15 10 (Some 0) (Some 100) db_spec_scenario)) = Some 10
   \<and> minutes_from_topup (fst (consume_transcription_minutes_atomically
         ''u1'' ''j1'' 15 10 (Some 0) (Some 100) db_spec_scenario)) = Some 5
   \<and> profiles (snd (consume_transcription_minutes_atomically
         ''u1'' ''j1'' 15 10 (Some 0) (Some 100) db_spec_scenario)) ''u1'' =
       Some \<lparr> subscription_tier = ''pro'', transcription_minutes_topup = 15 \<rparr>
   \<and> profiles db_spec_scenario ''u2'' = None
   \<and> reason (fst (consume_transcription_minutes_atomically
         ''u2'' ''j1'' 15 10 (Some 0) (Some 100) db_spec_scenario)) = ''NO_PROFILE''
   \<and> snd (consume_transcription_minutes_atomically
         ''u2'' ''j1'' 15 10 (Some 0) (Some 100) db_spec_scenario) = db_spec_scenario
   \<and> map_option subscription_tier (profiles db_free_user ''u1'') = Some ''free''
   \<and> reason (fst (consume_transcription_minutes_atomically
         ''u1'' ''j1'' 5 10 (Some 0) (Some 100) db_free_user)) = ''NOT_PRO''
   \<and> snd (consume_transcription_minutes_atomically
         ''u1'' ''j1'' 5 10 (Some 0) (Some 100) db_free_user) = db_free_user"
proof -
  have pro: "profiles db_spec_scenario ''u1'' =
      Some \<lparr> subscription_tier = ''pro'', transcription_minutes_topup = 20 \<rparr>"
    and none: "profiles db_spec_scenario ''u2'' = None"
    by (simp_all add: db_spec_scenario_def)
  have free: "profiles db_free_user ''u1'' =
      Some \<lparr> subscription_tier = ''free'', transcription_minutes_topup = 0 \<rparr>"
    by (simp add: db_free_user_def)
  from consume_split [where j = "''j1''" and m = 15, OF prod.collapse
      eval_scenario_remaining [symmetric]] pro
  have 1: "minutes_from_subscription (fst (consume_transcription_minutes_atomically
         ''u1'' ''j1'' 15 10 (Some 0) (Some 100) db_spec_scenario)) = Some 10
     \<and> minutes_from_topup (fst (consume_transcription_minutes_atomically
         ''u1'' ''j1'' 15 10 (Some 0) (Some 100) db_spec_scenario)) = Some 5
     \<and> profiles (snd (consume_transcription_minutes_atomically
         ''u1'' ''j1'' 15 10 (Some 0) (Some 100) db_spec_scenario)) ''u1'' =
       Some \<lparr> subscription_tier = ''pro'', transcription_minutes_topup = 15 \<rparr>"
    by simp
  from consume_split [where u = "''u2''" and j = "''j1''" and m = 15 and slimit = 10
      and ps = "Some 0" and pe = "Some 100" and db = db_spec_scenario, OF prod.collapse refl]
    none
  have 2: "reason (fst (consume_transcription_minutes_atomically
         ''u2'' ''j1'' 15 10 (Some 0) (Some 100) db_spec_scenario)) = ''NO_PROFILE''
     \<and> snd (consume_transcription_minutes_atomically
         ''u2'' ''j1'' 15 10 (Some 0) (Some 100) db_spec_scenario) = db_spec_scenario"
    by simp
  from consume_split [where u = "''u1''" and j = "''j1''" and m = 5 and slimit = 10
      and ps = "Some 0" and pe = "Some 100" and db = db_free_user, OF prod.collapse refl]
    free
  have 3: "reason (fst (consume_transcription_minutes_atomically
         ''u1'' ''j1'' 5 10 (Some 0) (Some 100) db_free_user)) = ''NOT_PRO''
     \<and> snd (consume_transcription_minutes_atomically
         ''u1'' ''j1'' 5 10 (Some 0) (Some 100) db_free_user) = db_free_user"
    by simp
  show ?thesis
    using 1 2 3 pro none free eval_scenario_remaining by simp
qed


text \<open>
  C3 as stated fails for a call on behalf of a profile that is not \<open>pro\<close>: with 10
  subscription minutes remaining and 5 needed, nothing is charged and the reason is
  \<open>NOT_PRO\<close>.
\<close>

theorem consume_not_pro_counterexample:
  "5 \<le> subscription_remaining_of db_free_user ''u1'' 10 (Some 0) (Some 100)
   \<and> consume_transcription_minutes_atomically ''u1'' ''j1'' 5 10 (Some 0) (Some 100) db_free_user
       = (denied ''NOT_PRO'', db_free_user)"
  by (simp add: consume_transcription_minutes_atomically_def subscription_remaining_of_def
      get_transcription_usage_in_period_def db_free_user_def)

lemma created_rows_record_consumption:
  "r \<in> set (created_rows db (snd (record_consumption u j ps pe s t fs ft db))) \<Longrightarrow>
     period_start r = ps \<and> period_end r = pe \<and> usage_user_id r = u \<and> usage_job_id r = j"
  by (auto simp add: created_rows_def record_consumption_def insert_usage_def Let_def
      split: if_splits)

lemma usage_record_consumption:
  "transcription_usage (snd (record_consumption u j ps pe s t fs ft db)) =
     transcription_usage db @ created_rows db (snd (record_consumption u j ps pe s t fs ft db))"
  by (auto simp add: created_rows_def record_consumption_def insert_usage_def Let_def)

lemma consume_cases:
  "snd (consume_transcription_minutes_atomically u j m slimit ps pe db) = db \<or>
   (\<exists>s t fs ft. snd (consume_transcription_minutes_atomically u j m slimit ps pe db) =
      snd (record_consumption u j ps pe s t fs ft db))"
  by (auto simp add: consume_transcription_minutes_atomically_def Let_def split: option.splits)


text \<open>
  C9 (as amended). Every usage row created by the atomic consume operation, the
  top-up-sourced ones included, carries the period bounds the caller passed
  (\<open>p_period_start\<close>, \<open>p_period_end\<close>); the existing rows are kept in front of them.
\<close>

theorem consume_rows_carry_period:
  "transcription_usage (snd (consume_transcription_minutes_atomically u j m slimit ps pe db)) =
     transcription_usage db @
     created_rows db (snd (consume_transcription_minutes_atomically u j m slimit ps pe db))
   \<and> (\<forall>r \<in> set (created_rows db
                   (snd (consume_transcription_minutes_atomically u j m slimit ps pe db))).
         period_start r = ps \<and> period_end r = pe)"
proof -
  let ?db' = "snd (consume_transcription_minutes_atomically u j m slimit ps pe db)"
  from consume_cases [of u j m slimit ps pe db]
  consider "?db' = db" | s t fs ft where "?db' = snd (record_consumption u j ps pe s t fs ft db)"
    by blast
  then show ?thesis
  proof cases
    case 1
    then show ?thesis by (simp add: created_rows_def)
  next
    case 2
    show ?thesis
      unfolding 2 using usage_record_consumption created_rows_record_consumption by blast
  qed
qed

theorem consume_rows_carry_period_witness:
  "created_rows db_spec_scenario (snd (consume_transcription_minutes_atomically
       ''u1'' ''j1'' 15 10 (Some 0) (Some 100) db_spec_scenario)) \<noteq> []
   \<and> list_all (\<lambda>r. period_start r = Some 0 \<and> period_end r = Some 100)
       (created_rows db_spec_scenario (snd (consume_transcription_minutes_atomically
          ''u1'' ''j1'' 15 10 (Some 0) (Some 100) db_spec_scenario)))"
  using consume_rows_carry_period [of "''u1''" "''j1''" 15 10 "Some 0" "Some 100" db_spec_scenario]
  unfolding eval_scenario_consume by (simp add: created_rows_def db_spec_scenario_def)


text \<open>
  C9 as stated fails: in the scenario of the specification (10 subscription minutes left,
  a top-up of 20, 15 minutes needed, period 0 to 100) the second row written is
  top-up-sourced and its period bounds are not null.
\<close>

theorem topup_row_period_counterexample:
  "transcription_usage (snd (consume_transcription_minutes_atomically
       ''u1'' ''j1'' 15 10 (Some 0) (Some 100) db_spec_scenario)) ! 1 =
     \<lparr> usage_user_id = ''u1'', usage_job_id = ''j1'', minutes_used = 5,
        source = topup, period_start = Some 0, period_end = Some 100 \<rparr>"
  by (simp add: eval_scenario_consume)


subsection \<open>Refund\<close>

lemma usage_refund_row [simp]:
  "transcription_usage (refund_row r db) = transcription_usage db"
  by (simp add: refund_row_def)

lemma usage_fold_refund_row [simp]:
  "transcription_usage (fold refund_row rows db) = transcription_usage db"
  by (induction rows arbitrary: db) simp_all

lemma profiles_add_to_topup:
  "profiles (add_to_topup u d db) u' =
     (if u' = u then map_option (credit d) (profiles db u) else profiles db u')"
  by (simp add: add_to_topup_def credit_def split: option.splits)

lemma credit_0 [simp]: "credit 0 p = p"
  by (simp add: credit_def)

lemma credit_credit [simp]: "credit a (credit b p) = credit (b + a) p"
  by (simp add: credit_def)

lemma profiles_refund_row:
  "profiles (refund_row r db) u =
     (if source r = topup \<and> usage_user_id r = u
      then map_option (credit (minutes_used r)) (profiles db u) else profiles db u)"
  by (simp add: refund_row_def profiles_add_to_topup)

lemma profiles_fold_refund_row:
  "profiles (fold refund_row rows db) u =
     map_option (credit (topup_minutes_of u rows)) (profiles db u)"
proof (induction rows arbitrary: db)
  case Nil
  show ?case by (simp add: topup_minutes_of_def option.map_ident)
next
  case (Cons r rows)
  show ?case
    by (cases "profiles db u")
       (simp_all add: Cons.IH profiles_refund_row topup_minutes_of_def)
qed

lemma refund_no_rows:
  "rows_of_job j db = [] \<Longrightarrow> refund_transcription_minutes j db =
     (\<lparr> refund_success = True, minutes_refunded = 0 \<rparr>, db)"
  by (simp add: refund_transcription_minutes_def rows_of_job_def filter_empty_conv filter_id_conv)

lemma usage_after_refund:
  "transcription_usage (snd (refund_transcription_minutes j db)) =
     filter (\<lambda>r. usage_job_id r \<noteq> j) (transcription_usage db)"
  by (simp add: refund_transcription_minutes_def Let_def)

lemma rows_of_job_after_refund:
  "rows_of_job j' (snd (refund_transcription_minutes j db)) =
     (if j' = j then [] else rows_of_job j' db)"
  by (auto simp add: usage_after_refund rows_of_job_def filter_empty_conv intro: filter_cong)

lemma profiles_after_refund:
  "profiles (snd (refund_transcription_minutes j db)) u =
     map_option (credit (topup_minutes_of u (rows_of_job j db))) (profiles db u)"
  by (simp add: refund_transcription_minutes_def Let_def profiles_fold_refund_row)

lemma topup_minutes_of_subscription_rows:
  "\<forall>r \<in> set rows. source r = subscription \<Longrightarrow> topup_minutes_of u rows = 0"
  by (induction rows) (simp_all add: topup_minutes_of_def)

text \<open>
  C4. For every job id, the refund deletes all usage rows of the job (the rows of other
  jobs stay), credits to each user's top-up balance exactly the minutes of the job's
  top-up-sourced rows of that user and nothing for subscription-sourced rows, so that
  afterwards the minutes recorded for the job sum to 0; a refund of a job without usage
  rows changes no state, and so does a second refund of any job.
\<close>

theorem refund_reverses_job_usage:
  "rows_of_job j (snd (refund_transcription_minutes j db)) = []
   \<and> job_minutes j (snd (refund_transcription_minutes j db)) = 0
   \<and> transcription_usage (snd (refund_transcription_minutes j db)) =
       filter (\<lambda>r. usage_job_id r \<noteq> j) (transcription_usage db)
   \<and> profiles (snd (refund_transcription_minutes j db)) u =
       map_option (credit (topup_minutes_of u (rows_of_job j db))) (profiles db u)
   \<and> ((\<forall>r \<in> set (rows_of_job j db). source r = subscription) \<longrightarrow>
        profiles (snd (refund_transcription_minutes j db)) u = profiles db u)
   \<and> (rows_of_job j db = [] \<longrightarrow> snd (refund_transcription_minutes j db) = db)
   \<and> refund_transcription_minutes j (snd (refund_transcription_minutes j db)) =
       (\<lparr> refund_success = True, minutes_refunded = 0 \<rparr>,
        snd (refund_transcription_minutes j db))"
proof -
  have gone: "rows_of_job j (snd (refund_transcription_minutes j db)) = []"
    by (simp add: rows_of_job_after_refund)
  have sub: "profiles (snd (refund_transcription_minutes j db)) u = profiles db u"
    if "\<forall>r \<in> set (rows_of_job j db). source r = subscription"
    using topup_minutes_of_subscription_rows [OF that, of u]
    by (cases "profiles db u") (simp_all add: profiles_after_refund)
  show ?thesis
    using gone sub
    by (simp add: job_minutes_def usage_after_refund profiles_after_refund refund_no_rows)
qed

theorem refund_reverses_job_usage_witness:
  "rows_of_job ''j1'' db_after_consume \<noteq> []
   \<and> job_minutes ''j1'' db_after_consume = 15
   \<and> job_minutes ''j1'' (snd (refund_transcription_minutes ''j1'' db_after_consume)) = 0
   \<and> profiles (snd (refund_transcription_minutes ''j1'' db_after_consume)) ''u1'' =
       Some \<lparr> subscription_tier = ''pro'', transcription_minutes_topup = 20 \<rparr>
   \<and> rows_of_job ''j2'' db_after_consume = []
   \<and> snd (refund_transcription_minutes ''j2'' db_after_consume) = db_after_consume"
  using refund_reverses_job_usage [of "''j1''" db_after_consume "''u1''"]
    refund_reverses_job_usage [of "''j2''" db_after_consume "''u1''"]
  by (simp add: rows_of_job_def job_minutes_def topup_minutes_of_def credit_def
      db_after_consume_def)

subsection \<open>Top-up credit\<close>

lemma purchases_add_to_topup [simp]:
  "transcription_topup_purchases (add_to_topup u d db) = transcription_topup_purchases db"
  by (simp add: add_to_topup_def split: option.splits)

lemma add_topup_duplicate:
  "\<exists>x \<in> set (transcription_topup_purchases db). stripe_payment_intent_id x = pid \<Longrightarrow>
   add_transcription_topup_credits u pid m a db =
     Inr (\<lparr> topup_success = True, already_processed = True, minutes_added = None,
            new_balance = map_option transcription_minutes_topup (profiles db u) \<rparr>, db)"
  by (simp add: add_transcription_topup_credits_def)

lemma add_topup_records_purchase:
  "add_transcription_topup_credits u pid m a db = Inr (res, db') \<Longrightarrow>
   \<exists>x \<in> set (transcription_topup_purchases db'). stripe_payment_intent_id x = pid"
  by (auto simp add: add_transcription_topup_credits_def Let_def split: if_splits)

lemma add_topup_fresh:
  assumes "\<not> (\<exists>x \<in> set (transcription_topup_purchases db). stripe_payment_intent_id x = pid)"
    and "add_transcription_topup_credits u pid m a db = Inr (res, db')"
  shows "already_processed res = False \<and> minutes_added res = Some m \<and> 0 < m \<and> 0 \<le> a
       \<and> transcription_topup_purchases db' = transcription_topup_purchases db @
            [\<lparr> purchase_user_id = u, stripe_payment_intent_id = pid,
               minutes_purchased = m, amount_paid = a \<rparr>]
       \<and> profiles db' = (profiles db)(u := map_option (credit m) (profiles db u))
       \<and> transcription_usage db' = transcription_usage db
       \<and> transcription_jobs db' = transcription_jobs db
       \<and> new_balance res = map_option transcription_minutes_topup (profiles db' u)"
  using assms
  by (auto simp add: add_transcription_topup_credits_def Let_def add_to_topup_def credit_def
      split: if_splits option.splits)

lemma eval_topup_first:
  "add_transcription_topup_credits ''u1'' ''pi_1'' 20 500 db_spec_scenario =
     Inr (\<lparr> topup_success = True, already_processed = False, minutes_added = Some 20,
            new_balance = Some 40 \<rparr>,
          db_spec_scenario\<lparr>
            profiles := [''u1'' \<mapsto> \<lparr> subscription_tier = ''pro'',
               transcription_minutes_topup = 40 \<rparr>],
            transcription_topup_purchases :=
              [\<lparr> purchase_user_id = ''u1'', stripe_payment_intent_id = ''pi_1'',
                 minutes_purchased = 20, amount_paid = 500 \<rparr>] \<rparr>)"
  by (simp add: add_transcription_topup_credits_def add_to_topup_def db_spec_scenario_def Let_def)

lemma eval_topup_no_profile:
  "add_transcription_topup_credits ''u2'' ''pi_2'' 20 500 db_spec_scenario =
     Inr (\<lparr> topup_success = True, already_processed = False, minutes_added = Some 20,
            new_balance = None \<rparr>,
          db_spec_scenario\<lparr>
            transcription_topup_purchases :=
              [\<lparr> purchase_user_id = ''u2'', stripe_payment_intent_id = ''pi_2'',
                 minutes_purchased = 20, amount_paid = 500 \<rparr>] \<rparr>)"
  by (simp add: add_transcription_topup_credits_def add_to_topup_def db_spec_scenario_def Let_def)

text \<open>
  The top-up credit operation is idempotent in the payment-intent id. Once a call with an
  id has returned, every further call with that id, whatever its user, minutes and amount,
  returns \<open>already_processed\<close> with the current balance of its user and leaves the whole
  state as it is: no second purchase record, no second credit. The first call itself,
  when the id had a purchase record already, has done the same; when it had none, the call
  has inserted one purchase record and added the minutes to the balance of its user if
  that user has a profile row, so that for such a user the two calls together increase the
  balance exactly once. The \<open>UPDATE\<close> of the procedure is followed by no test of
  \<open>NOT FOUND\<close>: for a user without a profile row the purchase is recorded all the same
  and no balance is increased.
\<close>

theorem topup_credit_idempotent:
  assumes "add_transcription_topup_credits u pid m a db = Inr (res1, db1)"
  shows "add_transcription_topup_credits u' pid m' a' db1 =
            Inr (\<lparr> topup_success = True, already_processed = True, minutes_added = None,
                   new_balance = map_option transcription_minutes_topup (profiles db1 u') \<rparr>,
                 db1)
       \<and> ((\<exists>x \<in> set (transcription_topup_purchases db). stripe_payment_intent_id x = pid) \<longrightarrow>
            already_processed res1 \<and> db1 = db)
       \<and> (\<not> (\<exists>x \<in> set (transcription_topup_purchases db). stripe_payment_intent_id x = pid) \<longrightarrow>
            \<not> already_processed res1 \<and> minutes_added res1 = Some m
          \<and> transcription_topup_purchases db1 = transcription_topup_purchases db @
               [\<lparr> purchase_user_id = u, stripe_payment_intent_id = pid,
                  minutes_purchased = m, amount_paid = a \<rparr>]
          \<and> profiles db1 = (profiles db)(u := map_option (credit m) (profiles db u))
          \<and> (\<forall>prof. profiles db u = Some prof \<longrightarrow>
                profiles db1 u = Some (credit m prof)
              \<and> new_balance res1 = Some (transcription_minutes_topup prof + m))
          \<and> (profiles db u = None \<longrightarrow> profiles db1 = profiles db \<and> new_balance res1 = None)
          \<and> transcription_usage db1 = transcription_usage db
          \<and> transcription_jobs db1 = transcription_jobs db)"
proof (intro conjI impI)
  show "add_transcription_topup_credits u' pid m' a' db1 =
     Inr (\<lparr> topup_success = True, already_processed = True, minutes_added = None,
            new_balance = map_option transcription_minutes_topup (profiles db1 u') \<rparr>, db1)"
    by (rule add_topup_duplicate) (rule add_topup_records_purchase [OF assms])
next
  assume "\<exists>x \<in> set (transcription_topup_purchases db). stripe_payment_intent_id x = pid"
  from assms [unfolded add_topup_duplicate [OF this]]
  show "already_processed res1" and "db1 = db"
    by auto
next
  assume fresh: "\<not> (\<exists>x \<in> set (transcription_topup_purchases db).
      stripe_payment_intent_id x = pid)"
  note first = add_topup_fresh [OF fresh assms]
  from first show "\<not> already_processed res1" and "minutes_added res1 = Some m"
    and "transcription_topup_purchases db1 = transcription_topup_purchases db @
           [\<lparr> purchase_user_id = u, stripe_payment_intent_id = pid,
              minutes_purchased = m, amount_paid = a \<rparr>]"
    and "profiles db1 = (profiles db)(u := map_option (credit m) (profiles db u))"
    and "transcription_usage db1 = transcription_usage db"
    and "transcription_jobs db1 = transcription_jobs db"
    by simp_all
  from first show "\<forall>prof. profiles db u = Some prof \<longrightarrow>
      profiles db1 u = Some (credit m prof)
    \<and> new_balance res1 = Some (transcription_minutes_topup prof + m)"
    by (simp add: credit_def)
  {
    assume none: "profiles db u = None"
    with first show "profiles db1 = profiles db" and "new_balance res1 = None"
      by (simp_all add: fun_upd_idem)
  }
qed

theorem topup_credit_idempotent_witness:
  "add_transcription_topup_credits ''u1'' ''pi_1'' 20 500 db_spec_scenario =
     Inr (\<lparr> topup_success = True, already_processed = False, minutes_added = Some 20,
            new_balance = Some 40 \<rparr>,
          db_spec_scenario\<lparr>
            profiles := [''u1'' \<mapsto> \<lparr> subscription_tier = ''pro'',
               transcription_minutes_topup = 40 \<rparr>],
            transcription_topup_purchases :=
              [\<lparr> purchase_user_id = ''u1'', stripe_payment_intent_id = ''pi_1'',
                 minutes_purchased = 20, amount_paid = 500 \<rparr>] \<rparr>)
   \<and> add_transcription_topup_credits ''u1'' ''pi_1'' 35 900
       (db_spec_scenario\<lparr>
            profiles := [''u1'' \<mapsto> \<lparr> subscription_tier = ''pro'',
               transcription_minutes_topup = 40 \<rparr>],
            transcription_topup_purchases :=
              [\<lparr> purchase_user_id = ''u1'', stripe_payment_intent_id = ''pi_1'',
                 minutes_purchased = 20, amount_paid = 500 \<rparr>] \<rparr>) =
     Inr (\<lparr> topup_success = True, already_processed = True, minutes_added = None,
            new_balance = Some 40 \<rparr>,
          db_spec_scenario\<lparr>
            profiles := [''u1'' \<mapsto> \<lparr> subscription_tier = ''pro'',
               transcription_minutes_topup = 40 \<rparr>],
            transcription_topup_purchases :=
              [\<lparr> purchase_user_id = ''u1'', stripe_payment_intent_id = ''pi_1'',
                 minutes_purchased = 20, amount_paid = 500 \<rparr>] \<rparr>)
   \<and> profiles db_spec_scenario ''u2'' = None
   \<and> profiles (snd (projr (add_transcription_topup_credits ''u2'' ''pi_2'' 20 500
         db_spec_scenario))) = profiles db_spec_scenario
   \<and> already_processed (fst (projr (add_transcription_topup_credits ''u2'' ''pi_2'' 20 500
         (snd (projr (add_transcription_topup_credits ''u2'' ''pi_2'' 20 500
            db_spec_scenario))))))"
proof -
  note second = conjunct1 [OF topup_credit_idempotent [OF eval_topup_first, of "''u1''" 35 900]]
  have fresh1: "\<not> (\<exists>x \<in> set (transcription_topup_purchases db_spec_scenario).
      stripe_payment_intent_id x = ''pi_1'')"
    and fresh2: "\<not> (\<exists>x \<in> set (transcription_topup_purchases db_spec_scenario).
      stripe_payment_intent_id x = ''pi_2'')"
    and prof: "profiles db_spec_scenario ''u1'' =
      Some \<lparr> subscription_tier = ''pro'', transcription_minutes_topup = 20 \<rparr>"
    and none: "profiles db_spec_scenario ''u2'' = None"
    by (simp_all add: db_spec_scenario_def)
  from topup_credit_idempotent [OF eval_topup_first, of "''u1''" 35 900] fresh1 prof
  have once: "profiles (db_spec_scenario\<lparr>
            profiles := [''u1'' \<mapsto> \<lparr> subscription_tier = ''pro'',
               transcription_minutes_topup = 40 \<rparr>],
            transcription_topup_purchases :=
              [\<lparr> purchase_user_id = ''u1'', stripe_payment_intent_id = ''pi_1'',
                 minutes_purchased = 20, amount_paid = 500 \<rparr>] \<rparr>) ''u1'' =
      Some (credit 20 \<lparr> subscription_tier = ''pro'', transcription_minutes_topup = 20 \<rparr>)"
    by blast
  let ?first = "add_transcription_topup_credits ''u2'' ''pi_2'' 20 500 db_spec_scenario"
  have r: "?first = Inr (fst (projr ?first), snd (projr ?first))"
    by (simp add: eval_topup_no_profile)
  from topup_credit_idempotent [OF r, of "''u2''" 20 500] fresh2 none
  have no_credit: "profiles (snd (projr ?first)) = profiles db_spec_scenario"
    and again: "add_transcription_topup_credits ''u2'' ''pi_2'' 20 500 (snd (projr ?first)) =
      Inr (\<lparr> topup_success = True, already_processed = True, minutes_added = None,
             new_balance = map_option transcription_minutes_topup
               (profiles (snd (projr ?first)) ''u2'') \<rparr>, snd (projr ?first))"
    by blast+
  show ?thesis
    unfolding second again using eval_topup_first none no_credit by simp
qed


section \<open>Properties of the speech-to-text client\<close>

declare attempt_loop.simps [simp del]

lemma attempt_loop_done:
  "\<not> attempt < MAX_RETRIES \<Longrightarrow> attempt_loop env part m attempt lastError = ([], Inl lastError)"
  by (simp add: attempt_loop.simps)

lemma attempt_loop_success:
  "attempt < MAX_RETRIES \<Longrightarrow> outcome env part m attempt = Inr result \<Longrightarrow>
     attempt_loop env part m attempt lastError = (attempt_events env part m attempt, Inr result)"
  by (subst attempt_loop.simps)
     (auto simp add: outcome_def attempt_events_def split: prod.splits sum.splits)

lemma attempt_loop_fatal:
  "attempt < MAX_RETRIES \<Longrightarrow> outcome env part m attempt = Inl e \<Longrightarrow> \<not> isRetryableError e \<Longrightarrow>
     attempt_loop env part m attempt lastError =
       (attempt_events env part m attempt, Inl (Some (as_Error e)))"
  by (subst attempt_loop.simps)
     (auto simp add: outcome_def attempt_events_def split: prod.splits sum.splits)

lemma attempt_loop_retry:
  "attempt < MAX_RETRIES \<Longrightarrow> retryable_failure env part m attempt \<Longrightarrow>
     attempt_loop env part m attempt lastError =
       (let (evs, r) = attempt_loop env part m (Suc attempt) (error_left env part m attempt)
        in (attempt_events env part m attempt @ slept (backoff attempt) # evs, r))"
  by (subst attempt_loop.simps)
     (auto simp add: outcome_def attempt_events_def retryable_failure_def error_left_def
        backoff_def Let_def split: prod.splits sum.splits)

lemma retry_trace_step:
  "a < b \<Longrightarrow> retry_trace env part m a b =
     attempt_events env part m a @ slept (backoff a) # retry_trace env part m (Suc a) b"
  by (simp add: retry_trace_def upt_conv_Cons)

lemma retry_trace_empty [simp]: "retry_trace env part m a a = []"
  by (simp add: retry_trace_def)

lemma attempt_loop_retries:
  assumes "\<forall>i. a \<le> i \<and> i < a + k \<longrightarrow> retryable_failure env part m i"
    and "a + k \<le> MAX_RETRIES"
  shows "attempt_loop env part m a lastError =
       (let (evs, r) = attempt_loop env part m (a + k)
                         (if k = 0 then lastError else error_left env part m (a + k - 1))
        in (retry_trace env part m a (a + k) @ evs, r))"
  using assms
proof (induction k arbitrary: a lastError)
  case 0
  show ?case by (simp split: prod.splits)
next
  case (Suc k)
  have a: "a < MAX_RETRIES" and r: "retryable_failure env part m a"
    using Suc.prems by auto
  have ih: "attempt_loop env part m (Suc a) (error_left env part m a) =
       (let (evs, r) = attempt_loop env part m (Suc a + k)
                         (if k = 0 then error_left env part m a
                          else error_left env part m (Suc a + k - 1))
        in (retry_trace env part m (Suc a) (Suc a + k) @ evs, r))"
    using Suc.prems by (intro Suc.IH) auto
  show ?case
    unfolding attempt_loop_retry [OF a r] ih
    by (cases k) (simp_all add: retry_trace_step [of a] split: prod.splits)
qed


lemma attempts_simps [simp]:
  "attempts [] = []"
  "attempts (model_attempt m i # evs) = (m, i) # attempts evs"
  "attempts (on_progress st p # evs) = attempts evs"
  "attempts (slept d # evs) = attempts evs"
  "attempts (xs @ ys) = attempts xs @ attempts ys"
  by (simp_all add: attempts_def)

lemma delays_simps [simp]:
  "delays [] = []"
  "delays (model_attempt m i # evs) = delays evs"
  "delays (on_progress st p # evs) = delays evs"
  "delays (slept d # evs) = d # delays evs"
  "delays (xs @ ys) = delays xs @ delays ys"
  by (simp_all add: delays_def)

lemma attempts_progress_events [simp]: "attempts (progress_events ps) = []"
  by (induction ps) (auto simp add: progress_events_def)

lemma delays_progress_events [simp]: "delays (progress_events ps) = []"
  by (induction ps) (auto simp add: progress_events_def)

lemma attempts_attempt_events [simp]: "attempts (attempt_events env part m i) = [(m, i)]"
  by (simp add: attempt_events_def)

lemma delays_attempt_events [simp]: "delays (attempt_events env part m i) = []"
  by (simp add: attempt_events_def)

lemma retry_trace_Suc:
  "retry_trace env part m a (a + Suc k) =
     attempt_events env part m a @ slept (backoff a) # retry_trace env part m (Suc a) (Suc a + k)"
  by (simp add: retry_trace_step)

lemma upt_add_Suc: "[a..<a + Suc k] = a # [Suc a..<Suc a + k]"
  by (simp add: upt_conv_Cons)

lemma attempts_retry_trace: "attempts (retry_trace env part m a (a + k)) = map (Pair m) [a..<a + k]"
proof (induction k arbitrary: a)
  case 0
  show ?case by simp
next
  case (Suc k)
  show ?case
    unfolding retry_trace_Suc upt_add_Suc using Suc.IH [of "Suc a"] by simp
qed

lemma delays_retry_trace: "delays (retry_trace env part m a (a + k)) = map backoff [a..<a + k]"
proof (induction k arbitrary: a)
  case 0
  show ?case by simp
next
  case (Suc k)
  show ?case
    unfolding retry_trace_Suc upt_add_Suc using Suc.IH [of "Suc a"] by simp
qed

lemma error_left_retryable:
  "retryable_failure env part m i \<Longrightarrow> \<exists>e. outcome env part m i = Inl e \<and> isRetryableError e
     \<and> error_left env part m i = Some (as_Error e)"
  by (auto simp add: retryable_failure_def error_left_def split: sum.splits)

lemma attempt_loop_failure:
  "attempt_loop env part m a lastError = (evs, Inl le) \<Longrightarrow> a < MAX_RETRIES \<Longrightarrow>
     attempts evs \<noteq> [] \<and> fst (last (attempts evs)) = m
     \<and> le = error_left env part m (snd (last (attempts evs))) \<and> le \<noteq> None
     \<and> (\<forall>(m', i) \<in> set (attempts evs). m' = m \<and> (\<exists>e. outcome env part m i = Inl e))"
proof (induction "MAX_RETRIES - a" arbitrary: a lastError evs le)
  case 0
  then show ?case by simp
next
  case (Suc n)
  note a = \<open>a < MAX_RETRIES\<close>
  show ?case
  proof (cases "outcome env part m a")
    case (Inr result)
    with Suc.prems show ?thesis
      by (simp add: attempt_loop_success)
  next
    case (Inl e)
    then have el: "error_left env part m a = Some (as_Error e)"
      by (simp add: error_left_def)
    show ?thesis
    proof (cases "isRetryableError e")
      case False
      from Suc.prems(1) have "evs = attempt_events env part m a" and "le = Some (as_Error e)"
        unfolding attempt_loop_fatal [OF a Inl False] by simp_all
      then show ?thesis
        using Inl el by simp
    next
      case True
      then have r: "retryable_failure env part m a"
        using Inl by (simp add: retryable_failure_def)
      obtain evs' r' where rest:
        "attempt_loop env part m (Suc a) (error_left env part m a) = (evs', r')"
        by (cases "attempt_loop env part m (Suc a) (error_left env part m a)")
      from Suc.prems(1) have evs: "evs = attempt_events env part m a @ slept (backoff a) # evs'"
        and r': "r' = Inl le"
        unfolding attempt_loop_retry [OF a r] rest by simp_all
      show ?thesis
      proof (cases "Suc a < MAX_RETRIES")
        case True
        have "n = MAX_RETRIES - Suc a" using Suc.hyps(2) by simp
        from Suc.hyps(1) [OF this rest [unfolded r'] True]
        show ?thesis
          using evs Inl by auto
      next
        case False
        then have "evs' = []" and "le = Some (as_Error e)"
          using rest r' el by (simp_all add: attempt_loop_done)
        then show ?thesis
          using evs Inl el by simp
      qed
    qed
  qed
qed

lemma model_cascade_failure:
  "model_cascade env part ms lastError = (evs, Inl e) \<Longrightarrow> ms \<noteq> [] \<Longrightarrow>
     attempts evs \<noteq> []
     \<and> error_left env part (fst (last (attempts evs))) (snd (last (attempts evs))) = Some e
     \<and> set ms \<subseteq> fst ` set (attempts evs)
     \<and> (\<forall>(m, i) \<in> set (attempts evs). \<exists>e'. outcome env part m i = Inl e')"
proof (induction ms arbitrary: lastError evs)
  case Nil
  then show ?case by simp
next
  case (Cons m ms)
  have pos: "0 < MAX_RETRIES" by (simp add: MAX_RETRIES_def)
  obtain evs1 r1 where l: "attempt_loop env part m 0 lastError = (evs1, r1)"
    by (cases "attempt_loop env part m 0 lastError")
  show ?case
  proof (cases r1)
    case (Inr result)
    with Cons.prems l show ?thesis by simp
  next
    case (Inl le)
    note f = attempt_loop_failure [OF l [unfolded Inl] pos]
    obtain evs2 r2 where c: "model_cascade env part ms le = (evs2, r2)"
      by (cases "model_cascade env part ms le")
    from Cons.prems(1) l Inl c have evs: "evs = evs1 @ evs2" and r2: "r2 = Inl e"
      by simp_all
    have m_in: "m \<in> fst ` set (attempts evs1)"
      using f by (metis last_in_set image_eqI)
    show ?thesis
    proof (cases "ms = []")
      case True
      with c r2 f have "evs2 = []" and "le = Some e"
        by (auto split: option.splits)
      then show ?thesis
        using f evs True m_in by auto
    next
      case False
      from Cons.IH [OF c [unfolded r2] False] f m_in
      show ?thesis
        unfolding evs by (auto simp add: last_append)
    qed
  qed
qed




lemma attempt_loop_from_0:
  assumes "\<forall>i<k. retryable_failure env part m i" and "k \<le> MAX_RETRIES"
  shows "attempt_loop env part m 0 lastError =
       (let (evs, r) = attempt_loop env part m k
                         (if k = 0 then lastError else error_left env part m (k - 1))
        in (retry_trace env part m 0 k @ evs, r))"
proof -
  have 1: "\<forall>i. 0 \<le> i \<and> i < 0 + k \<longrightarrow> retryable_failure env part m i"
    using assms(1) by simp
  have 2: "0 + k \<le> MAX_RETRIES" using assms(2) by simp
  show ?thesis
    using attempt_loop_retries [OF 1 2, of lastError] by (simp only: add_0)
qed

lemma cascade_head_success:
  assumes "\<forall>i<k. retryable_failure env part m i" and "k < MAX_RETRIES"
    and "outcome env part m k = Inr result"
  shows "model_cascade env part (m # ms) lastError =
       (retry_trace env part m 0 k @ attempt_events env part m k, Inr result)"
proof -
  have "attempt_loop env part m 0 lastError =
      (retry_trace env part m 0 k @ attempt_events env part m k, Inr result)"
    unfolding attempt_loop_from_0 [OF assms(1) less_imp_le [OF assms(2)]]
      attempt_loop_success [OF assms(2,3)]
    by simp
  then show ?thesis by simp
qed

lemma cascade_head_fatal:
  assumes "\<forall>i<k. retryable_failure env part m i" and "k < MAX_RETRIES"
    and "outcome env part m k = Inl e" and "\<not> isRetryableError e"
  shows "model_cascade env part (m # ms) lastError =
       (let (evs, r) = model_cascade env part ms (Some (as_Error e))
        in (retry_trace env part m 0 k @ attempt_events env part m k @ evs, r))"
proof -
  have "attempt_loop env part m 0 lastError =
      (retry_trace env part m 0 k @ attempt_events env part m k, Inl (Some (as_Error e)))"
    unfolding attempt_loop_from_0 [OF assms(1) less_imp_le [OF assms(2)]]
      attempt_loop_fatal [OF assms(2,3,4)]
    by simp
  then show ?thesis by (simp split: prod.splits)
qed

lemma cascade_head_exhausted:
  assumes "\<forall>i<MAX_RETRIES. retryable_failure env part m i"
  shows "model_cascade env part (m # ms) lastError =
       (let (evs, r) = model_cascade env part ms (error_left env part m (MAX_RETRIES - 1))
        in (retry_trace env part m 0 MAX_RETRIES @ evs, r))"
proof -
  have pos: "MAX_RETRIES \<noteq> 0" by (simp add: MAX_RETRIES_def)
  have "attempt_loop env part m 0 lastError =
      (retry_trace env part m 0 MAX_RETRIES, Inl (error_left env part m (MAX_RETRIES - 1)))"
    unfolding attempt_loop_from_0 [OF assms order_refl]
    using pos by (simp add: attempt_loop_done)
  then show ?thesis by (simp split: prod.splits)
qed

lemma attempts_retry_trace_0:
  "attempts (retry_trace env part m 0 k) = map (Pair m) [0..<k]"
  using attempts_retry_trace [of env part m 0 k] by simp

lemma delays_retry_trace_0:
  "delays (retry_trace env part m 0 k) = map (\<lambda>i. 1000 * 2 ^ i) [0..<k]"
  using delays_retry_trace [of env part m 0 k]
  by (simp add: backoff_def INITIAL_RETRY_DELAY_MS_def)

lemma cascade_fallback_scenario:
  assumes "\<forall>i<MAX_RETRIES. retryable_failure env part A i"
    and "outcome env part B 0 = Inr result"
  shows "model_cascade env part (A # B # ms) lastError =
       (retry_trace env part A 0 MAX_RETRIES @ attempt_events env part B 0, Inr result)"
proof -
  have "model_cascade env part (B # ms) (error_left env part A (MAX_RETRIES - 1)) =
      (retry_trace env part B 0 0 @ attempt_events env part B 0, Inr result)"
    by (rule cascade_head_success) (simp_all add: assms(2) MAX_RETRIES_def)
  then show ?thesis
    unfolding cascade_head_exhausted [OF assms(1)] by simp
qed



text \<open>
  C6 (as amended). The cascade tries the models in order. An error that
  \<open>isRetryableError\<close> accepts (status or code 503, 429 or 500, or a message containing
  \<open>503\<close>, \<open>429\<close>, \<open>overload\<close>, \<open>rate limit\<close> or \<open>quota\<close>; another 5xx status alone is not
  accepted) is retried on the same model after a delay of \<open>1000 * 2 ^ attempt\<close> ms, up
  to \<open>MAX_RETRIES\<close> attempts, before the next model is tried; any other error moves on to
  the next model at once; the cascade throws only when every model has been attempted and
  no attempt succeeded, and it throws the error of the last attempt made. If model \<open>A\<close>
  fails with such a retryable error on every attempt and model \<open>B\<close> succeeds on its first
  attempt, the result is \<open>B\<close>'s and \<open>A\<close> has been attempted exactly \<open>MAX_RETRIES\<close> times.
\<close>

theorem cascade_retries_then_falls_back:
  "((\<forall>i<k. retryable_failure env part m i) \<and> k < MAX_RETRIES
      \<and> outcome env part m k = Inr result \<longrightarrow>
    model_cascade env part (m # ms) lastError =
      (retry_trace env part m 0 k @ attempt_events env part m k, Inr result))
   \<and> ((\<forall>i<k. retryable_failure env part m i) \<and> k < MAX_RETRIES
        \<and> outcome env part m k = Inl e \<and> \<not> isRetryableError e \<longrightarrow>
      model_cascade env part (m # ms) lastError =
        (let (evs, r) = model_cascade env part ms (Some (as_Error e))
         in (retry_trace env part m 0 k @ attempt_events env part m k @ evs, r)))
   \<and> ((\<forall>i<MAX_RETRIES. retryable_failure env part m i) \<longrightarrow>
      model_cascade env part (m # ms) lastError =
        (let (evs, r) = model_cascade env part ms (error_left env part m (MAX_RETRIES - 1))
         in (retry_trace env part m 0 MAX_RETRIES @ evs, r)))
   \<and> attempts (retry_trace env part m 0 k) = map (Pair m) [0..<k]
   \<and> delays (retry_trace env part m 0 k) = map (\<lambda>i. 1000 * 2 ^ i) [0..<k]
   \<and> (model_cascade env part ms' lastError = (evs', Inl e') \<and> ms' \<noteq> [] \<longrightarrow>
        set ms' \<subseteq> fst ` set (attempts evs')
      \<and> (\<forall>(m', i) \<in> set (attempts evs'). \<exists>x. outcome env part m' i = Inl x)
      \<and> error_left env part (fst (last (attempts evs'))) (snd (last (attempts evs'))) = Some e')
   \<and> ((\<forall>i<MAX_RETRIES. retryable_failure env part A i) \<and> outcome env part B 0 = Inr result' \<longrightarrow>
        model_cascade env part (A # B # ms) lastError =
          (retry_trace env part A 0 MAX_RETRIES @ attempt_events env part B 0, Inr result')
      \<and> attempts (fst (model_cascade env part (A # B # ms) lastError)) =
          map (Pair A) [0..<MAX_RETRIES] @ [(B, 0)])"
proof -
  have fail: "set ms' \<subseteq> fst ` set (attempts evs')
      \<and> (\<forall>(m', i) \<in> set (attempts evs'). \<exists>x. outcome env part m' i = Inl x)
      \<and> error_left env part (fst (last (attempts evs'))) (snd (last (attempts evs'))) = Some e'"
    if "model_cascade env part ms' lastError = (evs', Inl e')" and "ms' \<noteq> []"
    using model_cascade_failure [OF that] by simp
  have scen: "model_cascade env part (A # B # ms) lastError =
          (retry_trace env part A 0 MAX_RETRIES @ attempt_events env part B 0, Inr result')
      \<and> attempts (fst (model_cascade env part (A # B # ms) lastError)) =
          map (Pair A) [0..<MAX_RETRIES] @ [(B, 0)]"
    if "\<forall>i<MAX_RETRIES. retryable_failure env part A i" and "outcome env part B 0 = Inr result'"
    unfolding cascade_fallback_scenario [OF that] by (simp add: attempts_retry_trace_0)
  show ?thesis
    using cascade_head_success [of k env part m result ms lastError]
      cascade_head_fatal [of k env part m e ms lastError]
      cascade_head_exhausted [of env part m ms lastError]
      fail scen
    unfolding attempts_retry_trace_0 delays_retry_trace_0 by blast
qed




lemma retryable_503: "isRetryableError error_503"
  by (simp add: isRetryableError_def error_503_def)

lemma not_retryable_502: "\<not> isRetryableError error_502"
  by code_simp

lemma not_retryable_400: "\<not> isRetryableError error_400"
  by code_simp


lemma eval_cascade_502:
  "model_cascade (env_first_fails error_502) (inlineData file_20mb) TRANSCRIPTION_MODELS None =
     ([model_attempt ''gemini-3-flash-preview'' 0, on_progress stage_transcribing 40,
       model_attempt ''gemini-2.5-flash-lite'' 0, on_progress stage_transcribing 40,
       on_progress stage_processing 80, on_progress stage_processing 100], Inr result_ok)"
proof -
  let ?env = "env_first_fails error_502" and ?part = "inlineData file_20mb"
  have a: "outcome ?env ?part ''gemini-3-flash-preview'' 0 = Inl error_502"
    by (simp add: outcome_def env_first_fails_def)
  have b: "outcome ?env ?part ''gemini-2.5-flash-lite'' 0 = Inr result_ok"
    by (simp add: outcome_def env_first_fails_def)
  have pos: "0 < MAX_RETRIES" by (simp add: MAX_RETRIES_def)
  have ea: "attempt_events ?env ?part ''gemini-3-flash-preview'' 0 =
      [model_attempt ''gemini-3-flash-preview'' 0, on_progress stage_transcribing 40]"
    by (simp add: attempt_events_def env_first_fails_def progress_events_def)
  have eb: "attempt_events ?env ?part ''gemini-2.5-flash-lite'' 0 =
      [model_attempt ''gemini-2.5-flash-lite'' 0, on_progress stage_transcribing 40,
       on_progress stage_processing 80, on_progress stage_processing 100]"
    by (simp add: attempt_events_def env_first_fails_def progress_events_def)
  have 2: "model_cascade ?env ?part [''gemini-2.5-flash-lite'', ''gemini-3-pro-preview'']
       (Some (as_Error error_502)) =
     (retry_trace ?env ?part ''gemini-2.5-flash-lite'' 0 0 @
      attempt_events ?env ?part ''gemini-2.5-flash-lite'' 0, Inr result_ok)"
    by (rule cascade_head_success [OF _ pos b]) simp
  have 1: "model_cascade ?env ?part TRANSCRIPTION_MODELS None =
     (let (evs, r) = model_cascade ?env ?part
                       [''gemini-2.5-flash-lite'', ''gemini-3-pro-preview'']
                       (Some (as_Error error_502))
      in (retry_trace ?env ?part ''gemini-3-flash-preview'' 0 0 @
          attempt_events ?env ?part ''gemini-3-flash-preview'' 0 @ evs, r))"
    unfolding TRANSCRIPTION_MODELS_def
    by (rule cascade_head_fatal [OF _ pos a not_retryable_502]) simp
  show ?thesis
    unfolding 1 2 ea eb by simp
qed

text \<open>
  C6 as stated fails for a 5xx failure that is not 500 or 503: an error with status 502
  and message \<open>Bad Gateway\<close> is not retryable, and the first model is attempted once, not
  \<open>MAX_RETRIES\<close> times, before the second one is tried.
\<close>

theorem bad_gateway_not_retried_counterexample:
  "err_status error_502 = Some 502
   \<and> \<not> isRetryableError error_502
   \<and> attempts (fst (model_cascade (env_first_fails error_502) (inlineData file_20mb)
        TRANSCRIPTION_MODELS None)) =
       [(''gemini-3-flash-preview'', 0), (''gemini-2.5-flash-lite'', 0)]"
  unfolding eval_cascade_502 using not_retryable_502 by (simp add: error_502_def)


lemma eval_cascade_400:
  "model_cascade (env_all_fail error_400) (inlineData file_20mb) TRANSCRIPTION_MODELS None =
     ([model_attempt ''gemini-3-flash-preview'' 0, on_progress stage_transcribing 40,
       model_attempt ''gemini-2.5-flash-lite'' 0, on_progress stage_transcribing 40,
       model_attempt ''gemini-3-pro-preview'' 0, on_progress stage_transcribing 40],
      Inl error_400)"
proof -
  let ?env = "env_all_fail error_400" and ?part = "inlineData file_20mb"
  have o: "outcome ?env ?part m 0 = Inl error_400" for m
    by (simp add: outcome_def env_all_fail_def)
  have pos: "0 < MAX_RETRIES" by (simp add: MAX_RETRIES_def)
  have ev: "attempt_events ?env ?part m 0 = [model_attempt m 0, on_progress stage_transcribing 40]"
    for m
    by (simp add: attempt_events_def env_all_fail_def progress_events_def)
  have e: "as_Error error_400 = error_400"
    by (simp add: as_Error_def error_400_def)
  have step: "model_cascade ?env ?part (m # ms) l =
     (let (evs, r) = model_cascade ?env ?part ms (Some error_400)
      in ([model_attempt m 0, on_progress stage_transcribing 40] @ evs, r))" for m ms l
    using cascade_head_fatal [of 0 ?env ?part m error_400 ms l, OF _ pos o not_retryable_400]
    by (simp add: ev e)
  show ?thesis
    unfolding TRANSCRIPTION_MODELS_def step by simp
qed

theorem cascade_retries_then_falls_back_witness:
  "retryable_failure (env_first_fails error_503) (inlineData file_20mb) ''gemini-3-flash-preview'' 0
   \<and> retryable_failure (env_first_fails error_503) (inlineData file_20mb) ''gemini-3-flash-preview'' 1
   \<and> retryable_failure (env_first_fails error_503) (inlineData file_20mb) ''gemini-3-flash-preview'' 2
   \<and> outcome (env_first_fails error_503) (inlineData file_20mb) ''gemini-2.5-flash-lite'' 0 =
        Inr result_ok
   \<and> snd (model_cascade (env_first_fails error_503) (inlineData file_20mb)
        TRANSCRIPTION_MODELS None) = Inr result_ok
   \<and> attempts (fst (model_cascade (env_first_fails error_503) (inlineData file_20mb)
        TRANSCRIPTION_MODELS None)) =
       [(''gemini-3-flash-preview'', 0), (''gemini-3-flash-preview'', 1),
        (''gemini-3-flash-preview'', 2), (''gemini-2.5-flash-lite'', 0)]
   \<and> delays (retry_trace (env_first_fails error_503) (inlineData file_20mb)
        ''gemini-3-flash-preview'' 0 3) = [1000, 2000, 4000]
   \<and> model_cascade (env_all_fail error_400) (inlineData file_20mb) TRANSCRIPTION_MODELS None =
       ([model_attempt ''gemini-3-flash-preview'' 0, on_progress stage_transcribing 40,
         model_attempt ''gemini-2.5-flash-lite'' 0, on_progress stage_transcribing 40,
         model_attempt ''gemini-3-pro-preview'' 0, on_progress stage_transcribing 40],
        Inl error_400)
   \<and> error_left (env_all_fail error_400) (inlineData file_20mb) ''gemini-3-pro-preview'' 0 =
        Some error_400"
proof -
  let ?env = "env_first_fails error_503" and ?part = "inlineData file_20mb"
  have r: "retryable_failure ?env ?part ''gemini-3-flash-preview'' i" for i
    by (simp add: retryable_failure_def outcome_def env_first_fails_def retryable_503)
  have b: "outcome ?env ?part ''gemini-2.5-flash-lite'' 0 = Inr result_ok"
    by (simp add: outcome_def env_first_fails_def)
  have u: "[0..<3] = [0, Suc 0, 2]"
    by (simp add: upt_rec numeral_3_eq_3)
  note t1 = cascade_retries_then_falls_back [where k = 3 and env = ?env and part = ?part
      and A = "''gemini-3-flash-preview''" and B = "''gemini-2.5-flash-lite''"
      and result' = result_ok and ms = "[''gemini-3-pro-preview'']" and lastError = None
      and m = "''gemini-3-flash-preview''"]
  note t2 = cascade_retries_then_falls_back [where env = "env_all_fail error_400"
      and part = ?part and lastError = None and ms' = TRANSCRIPTION_MODELS
      and evs' = "[model_attempt ''gemini-3-flash-preview'' 0, on_progress stage_transcribing 40,
         model_attempt ''gemini-2.5-flash-lite'' 0, on_progress stage_transcribing 40,
         model_attempt ''gemini-3-pro-preview'' 0, on_progress stage_transcribing 40]"
      and e' = error_400]
  have all: "\<forall>i<MAX_RETRIES. retryable_failure ?env ?part ''gemini-3-flash-preview'' i"
    using r by simp
  from t1 have "(\<forall>i<MAX_RETRIES. retryable_failure ?env ?part ''gemini-3-flash-preview'' i)
      \<and> outcome ?env ?part ''gemini-2.5-flash-lite'' 0 = Inr result_ok \<longrightarrow>
      model_cascade ?env ?part
        (''gemini-3-flash-preview'' # ''gemini-2.5-flash-lite'' # [''gemini-3-pro-preview'']) None =
        (retry_trace ?env ?part ''gemini-3-flash-preview'' 0 MAX_RETRIES @
         attempt_events ?env ?part ''gemini-2.5-flash-lite'' 0, Inr result_ok)
      \<and> attempts (fst (model_cascade ?env ?part
        (''gemini-3-flash-preview'' # ''gemini-2.5-flash-lite'' # [''gemini-3-pro-preview''])
        None)) =
        map (Pair ''gemini-3-flash-preview'') [0..<MAX_RETRIES] @ [(''gemini-2.5-flash-lite'', 0)]"
    by blast
  with all b have c: "model_cascade ?env ?part TRANSCRIPTION_MODELS None =
        (retry_trace ?env ?part ''gemini-3-flash-preview'' 0 MAX_RETRIES @
         attempt_events ?env ?part ''gemini-2.5-flash-lite'' 0, Inr result_ok)"
    and a: "attempts (fst (model_cascade ?env ?part TRANSCRIPTION_MODELS None)) =
        map (Pair ''gemini-3-flash-preview'') [0..<MAX_RETRIES] @ [(''gemini-2.5-flash-lite'', 0)]"
    unfolding TRANSCRIPTION_MODELS_def by blast+
  from t1 have d: "delays (retry_trace ?env ?part ''gemini-3-flash-preview'' 0 3) =
          map (\<lambda>i. 1000 * 2 ^ i) [0..<3]"
    by blast
  from t2 have "model_cascade (env_all_fail error_400) ?part TRANSCRIPTION_MODELS None =
       ([model_attempt ''gemini-3-flash-preview'' 0, on_progress stage_transcribing 40,
         model_attempt ''gemini-2.5-flash-lite'' 0, on_progress stage_transcribing 40,
         model_attempt ''gemini-3-pro-preview'' 0, on_progress stage_transcribing 40],
        Inl error_400) \<and> TRANSCRIPTION_MODELS \<noteq> [] \<longrightarrow>
      error_left (env_all_fail error_400) ?part
        (fst (last (attempts [model_attempt ''gemini-3-flash-preview'' 0, on_progress stage_transcribing 40,
         model_attempt ''gemini-2.5-flash-lite'' 0, on_progress stage_transcribing 40,
         model_attempt ''gemini-3-pro-preview'' 0, on_progress stage_transcribing 40])))
        (snd (last (attempts [model_attempt ''gemini-3-flash-preview'' 0, on_progress stage_transcribing 40,
         model_attempt ''gemini-2.5-flash-lite'' 0, on_progress stage_transcribing 40,
         model_attempt ''gemini-3-pro-preview'' 0, on_progress stage_transcribing 40]))) =
        Some error_400"
    by blast
  then have s2: "error_left (env_all_fail error_400) ?part ''gemini-3-pro-preview'' 0 = Some error_400"
    using eval_cascade_400 by (simp add: TRANSCRIPTION_MODELS_def)
  have s1: "snd (model_cascade ?env ?part TRANSCRIPTION_MODELS None) = Inr result_ok"
    unfolding c by simp
  show ?thesis
    unfolding a d using s1 s2 r b eval_cascade_400 by (simp add: MAX_RETRIES_def u)
qed


lemma transcribeAudio_valid:
  assumes "GEMINI_API_KEY env = Some key" and "key \<noteq> []" and "validateAudioFile f = None"
  shows "transcribeAudio env f preferred =
     (let (evs1, part) =
            (if useFilesApi f
             then (case uploadViaFilesApi env f of
                     (ps, Inl e) \<Rightarrow> (progress_events ps, Inl (upload_failed e))
                   | (ps, Inr uri) \<Rightarrow> (progress_events ps, Inr (fileData uri)))
             else ([on_progress stage_preparing 10], Inr (inlineData f)))
      in case part of
           Inl e \<Rightarrow> ([on_progress stage_preparing 0] @ evs1, Inl e)
         | Inr audioPart \<Rightarrow>
             let (evs3, r) = model_cascade env audioPart (model_list preferred) None
             in ([on_progress stage_preparing 0] @ evs1 @ [on_progress stage_transcribing 30] @ evs3,
                 case r of Inl e \<Rightarrow> Inl (provider_failed e) | Inr result \<Rightarrow> Inr result))"
  using assms by (simp add: transcribeAudio_def Let_def)

text \<open>
  C8 (as amended). For every audio payload that passes validation (with the API key set),
  a payload of at most \<open>MAX_INLINE_SIZE_BYTES\<close> (20 MB, the size equal to it included)
  is sent inline, and a payload strictly above it is uploaded through the Files API and
  referenced by the handle the upload returns (or the upload's error is thrown).
\<close>

theorem transfer_strategy_by_size:
  assumes "GEMINI_API_KEY env = Some key" and "key \<noteq> []" and "validateAudioFile f = None"
  shows "(file_size f \<le> MAX_INLINE_SIZE_BYTES \<longrightarrow>
           \<not> useFilesApi f
         \<and> transcribeAudio env f preferred =
             (let (evs, r) = model_cascade env (inlineData f) (model_list preferred) None
              in ([on_progress stage_preparing 0, on_progress stage_preparing 10,
                   on_progress stage_transcribing 30] @ evs,
                  case r of Inl e \<Rightarrow> Inl (provider_failed e) | Inr result \<Rightarrow> Inr result)))
       \<and> (file_size f > MAX_INLINE_SIZE_BYTES \<longrightarrow>
           useFilesApi f
         \<and> (\<forall>ps uri. uploadViaFilesApi env f = (ps, Inr uri) \<longrightarrow>
               transcribeAudio env f preferred =
                 (let (evs, r) = model_cascade env (fileData uri) (model_list preferred) None
                  in (on_progress stage_preparing 0 # progress_events ps @
                        on_progress stage_transcribing 30 # evs,
                      case r of Inl e \<Rightarrow> Inl (provider_failed e) | Inr result \<Rightarrow> Inr result)))
         \<and> (\<forall>ps e. uploadViaFilesApi env f = (ps, Inl e) \<longrightarrow>
               transcribeAudio env f preferred =
                 (on_progress stage_preparing 0 # progress_events ps, Inl (upload_failed e))))"
  unfolding transcribeAudio_valid [OF assms]
  by (auto simp add: useFilesApi_def Let_def split: prod.splits sum.splits)

lemma supported_mp3: "isSupportedFormat ''audio.mp3''"
  by code_simp

lemma valid_file_20mb: "validateAudioFile file_20mb = None"
  by (simp add: validateAudioFile_def file_20mb_def MAX_FILE_SIZE_def supported_mp3)

lemma valid_file_above_20mb: "validateAudioFile file_above_20mb = None"
  by (simp add: validateAudioFile_def file_above_20mb_def MAX_FILE_SIZE_def supported_mp3)

lemma eval_transcribeAudio_20mb:
  "transcribeAudio (env_first_fails error_502) file_20mb None =
       ([on_progress stage_preparing 0, on_progress stage_preparing 10,
         on_progress stage_transcribing 30,
         model_attempt ''gemini-3-flash-preview'' 0, on_progress stage_transcribing 40,
         model_attempt ''gemini-2.5-flash-lite'' 0, on_progress stage_transcribing 40,
         on_progress stage_processing 80, on_progress stage_processing 100], Inr result_ok)"
proof -
  have k: "GEMINI_API_KEY (env_first_fails error_502) = Some ''key''"
    by (simp add: env_first_fails_def)
  have u: "\<not> useFilesApi file_20mb"
    by (simp add: useFilesApi_def MAX_INLINE_SIZE_BYTES_def file_20mb_def)
  show ?thesis
    unfolding transcribeAudio_valid [OF k _ valid_file_20mb, simplified]
    using u by (simp add: model_list_def eval_cascade_502)
qed

text \<open>
  C8 as stated fails at the threshold: a valid file of exactly 20 MB is sent inline.
\<close>

theorem exactly_20mb_inline_counterexample:
  "file_size file_20mb = 20 * 1024 * 1024
   \<and> file_size file_20mb = MAX_INLINE_SIZE_BYTES
   \<and> validateAudioFile file_20mb = None
   \<and> \<not> useFilesApi file_20mb
   \<and> transcribeAudio (env_first_fails error_502) file_20mb None =
       ([on_progress stage_preparing 0, on_progress stage_preparing 10,
         on_progress stage_transcribing 30,
         model_attempt ''gemini-3-flash-preview'' 0, on_progress stage_transcribing 40,
         model_attempt ''gemini-2.5-flash-lite'' 0, on_progress stage_transcribing 40,
         on_progress stage_processing 80, on_progress stage_processing 100], Inr result_ok)"
  using valid_file_20mb eval_transcribeAudio_20mb
  by (simp add: useFilesApi_def MAX_INLINE_SIZE_BYTES_def) (simp add: file_20mb_def)

theorem transfer_strategy_by_size_witness:
  "GEMINI_API_KEY (env_all_fail error_400) = Some ''key''
   \<and> validateAudioFile file_20mb = None \<and> validateAudioFile file_above_20mb = None
   \<and> file_size file_20mb \<le> MAX_INLINE_SIZE_BYTES
   \<and> \<not> useFilesApi file_20mb
   \<and> transcribeAudio (env_all_fail error_400) file_20mb None =
       ([on_progress stage_preparing 0, on_progress stage_preparing 10,
         on_progress stage_transcribing 30,
         model_attempt ''gemini-3-flash-preview'' 0, on_progress stage_transcribing 40,
         model_attempt ''gemini-2.5-flash-lite'' 0, on_progress stage_transcribing 40,
         model_attempt ''gemini-3-pro-preview'' 0, on_progress stage_transcribing 40],
        Inl (provider_failed error_400))
   \<and> file_size file_above_20mb > MAX_INLINE_SIZE_BYTES
   \<and> useFilesApi file_above_20mb
   \<and> fst (transcribeAudio (env_all_fail error_400) file_above_20mb None) =
       on_progress stage_preparing 0 #
       progress_events [(stage_uploading, 10), (stage_uploading, 20), (stage_uploading, 25)] @
       on_progress stage_transcribing 30 #
       fst (model_cascade (env_all_fail error_400) (fileData ''files/1'') TRANSCRIPTION_MODELS None)"
proof -
  let ?env = "env_all_fail error_400"
  have k: "GEMINI_API_KEY ?env = Some ''key''" and k': "''key'' \<noteq> []"
    by (simp_all add: env_all_fail_def)
  have up: "uploadViaFilesApi ?env file_above_20mb =
      ([(stage_uploading, 10), (stage_uploading, 20), (stage_uploading, 25)], Inr ''files/1'')"
    by (simp add: env_all_fail_def)
  have small: "file_size file_20mb \<le> MAX_INLINE_SIZE_BYTES"
    by (simp add: file_20mb_def MAX_INLINE_SIZE_BYTES_def)
  have big: "file_size file_above_20mb > MAX_INLINE_SIZE_BYTES"
    by (simp add: file_above_20mb_def MAX_INLINE_SIZE_BYTES_def)
  note t1 = transfer_strategy_by_size [OF k k' valid_file_20mb, of None]
  note t2 = transfer_strategy_by_size [OF k k' valid_file_above_20mb, of None]
  from t1 small have a: "\<not> useFilesApi file_20mb"
    and b: "transcribeAudio ?env file_20mb None =
             (let (evs, r) = model_cascade ?env (inlineData file_20mb) (model_list None) None
              in ([on_progress stage_preparing 0, on_progress stage_preparing 10,
                   on_progress stage_transcribing 30] @ evs,
                  case r of Inl e \<Rightarrow> Inl (provider_failed e) | Inr result \<Rightarrow> Inr result))"
    by blast+
  from t2 big up have c: "useFilesApi file_above_20mb"
    and d: "transcribeAudio ?env file_above_20mb None =
                 (let (evs, r) = model_cascade ?env (fileData ''files/1'') (model_list None) None
                  in (on_progress stage_preparing 0 #
                      progress_events [(stage_uploading, 10), (stage_uploading, 20),
                        (stage_uploading, 25)] @
                        on_progress stage_transcribing 30 # evs,
                      case r of Inl e \<Rightarrow> Inl (provider_failed e) | Inr result \<Rightarrow> Inr result))"
    by blast+
  show ?thesis
    unfolding b d using a c k small big valid_file_20mb valid_file_above_20mb
    by (simp add: model_list_def eval_cascade_400 split: prod.splits)
qed

section \<open>Properties of the job orchestrator\<close>

subsection \<open>What an operation changes\<close>

lemma jobs_add_to_topup [simp]:
  "transcription_jobs (add_to_topup u d db) = transcription_jobs db"
  by (simp add: add_to_topup_def split: option.splits)

lemma jobs_record_consumption [simp]:
  "transcription_jobs (snd (record_consumption u j ps pe s t fs ft db)) = transcription_jobs db"
  by (simp add: record_consumption_def insert_usage_def Let_def)

lemma jobs_consume [simp]:
  "transcription_jobs (snd (consume_transcription_minutes_atomically u j m l ps pe db)) =
     transcription_jobs db"
  by (simp add: consume_transcription_minutes_atomically_def Let_def split: option.splits)

lemma jobs_refund_row [simp]:
  "transcription_jobs (refund_row r db) = transcription_jobs db"
  by (simp add: refund_row_def)

lemma jobs_fold_refund_row [simp]:
  "transcription_jobs (fold refund_row rows db) = transcription_jobs db"
  by (induction rows arbitrary: db) simp_all

lemma jobs_refund [simp]:
  "transcription_jobs (refundTranscriptionMinutes j db) = transcription_jobs db"
  by (simp add: refundTranscriptionMinutes_def refund_transcription_minutes_def Let_def)

lemma ledger_update_job [simp]:
  "profiles (updateTranscriptionJobStatus j u db) = profiles db"
  "transcription_usage (updateTranscriptionJobStatus j u db) = transcription_usage db"
  "transcription_topup_purchases (updateTranscriptionJobStatus j u db) =
     transcription_topup_purchases db"
  by (simp_all add: updateTranscriptionJobStatus_def Let_def split: option.splits)

lemma jobs_update_job_other:
  "j' \<noteq> j \<Longrightarrow> transcription_jobs (updateTranscriptionJobStatus j u db) j' = transcription_jobs db j'"
  by (simp add: updateTranscriptionJobStatus_def Let_def split: option.splits)

lemma jobs_update_job_same:
  "transcription_jobs db j = Some job \<Longrightarrow>
   transcription_jobs (updateTranscriptionJobStatus j u db) j =
     Some (if 0 \<le> progress (apply_update u job) \<and> progress (apply_update u job) \<le> 100
           then apply_update u job else job)"
  by (simp add: updateTranscriptionJobStatus_def Let_def)

lemma jobs_apply_op_not_update:
  "\<forall>j u. op \<noteq> update_job j u \<and> op \<noteq> update_job_unawaited j u \<Longrightarrow>
   transcription_jobs (apply_op op db) = transcription_jobs db"
  by (cases op) (simp_all add: consumeTranscriptionMinutes_def)

text \<open>The consume procedure reads the profiles and the usage rows only.\<close>

lemma usage_in_period_cong:
  "transcription_usage db' = transcription_usage db \<Longrightarrow>
   get_transcription_usage_in_period db' u ps pe = get_transcription_usage_in_period db u ps pe"
  by (simp add: get_transcription_usage_in_period_def)

lemma consume_result_cong:
  assumes "profiles db' = profiles db" and "transcription_usage db' = transcription_usage db"
  shows "fst (consume_transcription_minutes_atomically u j m l ps pe db') =
         fst (consume_transcription_minutes_atomically u j m l ps pe db)"
  using assms
  by (simp add: consume_transcription_minutes_atomically_def Let_def record_consumption_def
      usage_in_period_cong [OF assms(2)] split: option.splits)

lemma consume_denied_unchanged:
  "\<not> allowed (fst (consume_transcription_minutes_atomically u j m l ps pe db)) \<Longrightarrow>
   snd (consume_transcription_minutes_atomically u j m l ps pe db) = db"
  by (auto simp add: consume_transcription_minutes_atomically_def Let_def record_consumption_def
      split: option.splits if_splits)

subsection \<open>Unawaited writes\<close>

lemma replay_Nil [simp]: "replay [] db = db"
  by (simp add: replay_def)

lemma replay_Cons [simp]: "replay (op # ops) db = replay ops (apply_op op db)"
  by (simp add: replay_def)

lemma replay_append [simp]: "replay (xs @ ys) db = replay ys (replay xs db)"
  by (simp add: replay_def)

lemma not_awaited_iff: "\<not> awaited op \<longleftrightarrow> (\<exists>j u. op = update_job_unawaited j u)"
  by (cases op) simp_all

lemma arrivals_unawaited: "op \<in> set (arrivals env ops) \<Longrightarrow> op \<in> set ops \<and> \<not> awaited op"
  by (auto simp add: arrivals_def due_def)

lemma arrivals_all_awaited:
  assumes "list_all awaited ops"
  shows "arrivals env ops = []"
proof (cases "arrivals env ops")
  case Nil
  then show ?thesis .
next
  case (Cons op rest)
  then have "op \<in> set (arrivals env ops)"
    by simp
  from arrivals_unawaited [OF this] assms show ?thesis
    by (auto simp add: list_all_iff)
qed

lemma ledger_replay_unawaited:
  "\<forall>op \<in> set ws. \<not> awaited op \<Longrightarrow>
   profiles (replay ws db) = profiles db
   \<and> transcription_usage (replay ws db) = transcription_usage db
   \<and> transcription_topup_purchases (replay ws db) = transcription_topup_purchases db"
proof (induction ws arbitrary: db)
  case Nil
  show ?case by simp
next
  case (Cons w ws)
  from Cons.prems obtain j u where w: "w = update_job_unawaited j u"
    by (auto simp add: not_awaited_iff)
  from Cons.IH [of "apply_op w db"] Cons.prems show ?case
    by (simp add: w)
qed

lemma ledger_arrivals [simp]:
  "profiles (replay (arrivals env ops) db) = profiles db"
  "transcription_usage (replay (arrivals env ops) db) = transcription_usage db"
  "transcription_topup_purchases (replay (arrivals env ops) db) =
     transcription_topup_purchases db"
  using ledger_replay_unawaited [of "arrivals env ops" db] arrivals_unawaited [of _ env ops]
  by auto

lemma in_progress_ops:
  "op \<in> set (progress_ops jobId events) \<longleftrightarrow>
     (\<exists>st p. on_progress st p \<in> set events
            \<and> op = update_job_unawaited jobId (callback_update st p))"
  by (auto simp add: progress_ops_def split: client_event.splits)

lemma in_reported_progress:
  "x \<in> set (reported_progress events) \<longleftrightarrow>
     (\<exists>st p. on_progress st p \<in> set events \<and> x = 30 + (6 * int p) div 10)"
  by (auto simp add: reported_progress_def split: client_event.splits)

lemma arrivals_callbacks:
  assumes "unawaited_are_callbacks jobId events ops"
  shows "set (arrivals env ops) \<subseteq> set (progress_ops jobId events)"
  using assms arrivals_unawaited [of _ env ops]
  by (auto simp add: unawaited_are_callbacks_def list_all_iff)

text \<open>A write of the callback changes the progress and the stage of the job row, nothing
  else.\<close>

lemma row_after_callback_write:
  assumes "transcription_jobs db jobId = Some j"
  shows "\<exists>j'. transcription_jobs (updateTranscriptionJobStatus jobId (callback_update st p) db) jobId
            = Some j'
        \<and> status j' = status j \<and> transcript_data j' = transcript_data j
        \<and> error_message j' = error_message j
        \<and> (progress_in_range j \<longrightarrow> progress_in_range j')
        \<and> (progress j' = progress j \<or> progress j' = 30 + (6 * int p) div 10)"
  using assms
  by (simp add: jobs_update_job_same apply_update_def callback_update_def no_update_def
      progress_in_range_def)

lemma row_after_callback_writes:
  assumes "transcription_jobs db jobId = Some j"
    and "set ws \<subseteq> set (progress_ops jobId events)"
  shows "\<exists>j'. transcription_jobs (replay ws db) jobId = Some j'
        \<and> status j' = status j \<and> transcript_data j' = transcript_data j
        \<and> error_message j' = error_message j
        \<and> (progress_in_range j \<longrightarrow> progress_in_range j')
        \<and> (progress j' = progress j \<or> progress j' \<in> set (reported_progress events))"
  using assms
proof (induction ws arbitrary: db j)
  case Nil
  then show ?case by simp
next
  case (Cons w ws)
  from Cons.prems(2) obtain st p where ev: "on_progress st p \<in> set events"
    and w: "w = update_job_unawaited jobId (callback_update st p)"
    by (auto simp add: in_progress_ops)
  from row_after_callback_write [OF Cons.prems(1), of st p]
  obtain j1 where 1: "transcription_jobs
        (updateTranscriptionJobStatus jobId (callback_update st p) db) jobId = Some j1"
    and 2: "status j1 = status j" "transcript_data j1 = transcript_data j"
      "error_message j1 = error_message j" "progress_in_range j \<longrightarrow> progress_in_range j1"
      "progress j1 = progress j \<or> progress j1 = 30 + (6 * int p) div 10"
    by blast
  have rep: "30 + (6 * int p) div 10 \<in> set (reported_progress events)"
    using ev by (auto simp add: in_reported_progress)
  from Cons.prems(2) have sub: "set ws \<subseteq> set (progress_ops jobId events)"
    by simp
  from Cons.IH [OF 1 sub] obtain j' where 3:
      "transcription_jobs (replay ws
          (updateTranscriptionJobStatus jobId (callback_update st p) db)) jobId = Some j'"
      "status j' = status j1" "transcript_data j' = transcript_data j1"
      "error_message j' = error_message j1" "progress_in_range j1 \<longrightarrow> progress_in_range j'"
      "progress j' = progress j1 \<or> progress j' \<in> set (reported_progress events)"
    by blast
  show ?case
    using 2 3 rep by (auto simp add: w)
qed

lemma row_is_after_callback_writes:
  assumes "row_is jobId db st td em" and "set ws \<subseteq> set (progress_ops jobId events)"
  shows "row_is jobId (replay ws db) st td em"
proof -
  from assms(1) obtain j where j: "transcription_jobs db jobId = Some j"
    and f: "status j = st" "transcript_data j = td" "error_message j = em" "progress_in_range j"
    by (auto simp add: row_is_def split: option.splits)
  from row_after_callback_writes [OF j assms(2)] f show ?thesis
    by (auto simp add: row_is_def)
qed

subsection \<open>Runs\<close>

lemma ops_perform [simp]: "map fst (snd (perform env op r)) = map fst (snd r) @ [op]"
  by (simp add: perform_def Let_def)

lemma length_perform [simp]: "length (snd (perform env op r)) = Suc (length (snd r))"
  by (simp add: perform_def Let_def)

lemma snd_perform: "snd (perform env op r) = snd r @ [(op, fst (perform env op r))]"
  by (simp add: perform_def Let_def)

lemma fst_perform:
  "fst (perform env op r) =
     replay (arrivals env (map fst (snd r) @ [op]))
       (if awaited op then apply_op op (fst r) else fst r)"
  by (simp add: perform_def Let_def)

lemma ledger_perform_update [simp]:
  "profiles (fst (perform env (update_job j u) r)) = profiles (fst r)"
  "transcription_usage (fst (perform env (update_job j u) r)) = transcription_usage (fst r)"
  "profiles (fst (perform env (update_job_unawaited j u) r)) = profiles (fst r)"
  "transcription_usage (fst (perform env (update_job_unawaited j u) r)) =
     transcription_usage (fst r)"
  by (simp_all add: fst_perform)

lemma ledger_perform_external [simp]:
  "profiles (fst (perform env (download_audio y) r)) = profiles (fst r)"
  "transcription_usage (fst (perform env (download_audio y) r)) = transcription_usage (fst r)"
  "profiles (fst (perform env (transcribe_audio f) r)) = profiles (fst r)"
  "transcription_usage (fst (perform env (transcribe_audio f) r)) = transcription_usage (fst r)"
  "profiles (fst (perform env (console_error msg) r)) = profiles (fst r)"
  "transcription_usage (fst (perform env (console_error msg) r)) = transcription_usage (fst r)"
  by (simp_all add: fst_perform)

lemma callbacks_perform:
  assumes "unawaited_are_callbacks jobId events (map fst (snd r))"
    and "awaited op \<or> op \<in> set (progress_ops jobId events)"
  shows "unawaited_are_callbacks jobId events (map fst (snd (perform env op r)))"
  using assms by (simp add: unawaited_are_callbacks_def)

lemma callbacks_start [simp]: "unawaited_are_callbacks jobId events (map fst (snd (db, [])))"
  by (simp add: unawaited_are_callbacks_def)

text \<open>The job row after an awaited write, after an unawaited one, and after an operation
  that leaves the jobs alone, whatever arrives behind them.\<close>

lemma row_is_perform_update:
  assumes "unawaited_are_callbacks jobId events (map fst (snd r))"
    and "row_is jobId (fst r) st td em"
    and "case upd_progress u of None \<Rightarrow> True | Some p \<Rightarrow> 0 \<le> p \<and> p \<le> 100"
  shows "row_is jobId (fst (perform env (update_job jobId u) r))
           (case upd_status u of Some s \<Rightarrow> s | None \<Rightarrow> st)
           (case upd_transcriptData u of Some t \<Rightarrow> Some t | None \<Rightarrow> td)
           (case upd_errorMessage u of Some e \<Rightarrow> Some e | None \<Rightarrow> em)"
proof -
  have cb: "unawaited_are_callbacks jobId events (map fst (snd r) @ [update_job jobId u])"
    using assms(1) by (simp add: unawaited_are_callbacks_def)
  have "row_is jobId (updateTranscriptionJobStatus jobId u (fst r))
           (case upd_status u of Some s \<Rightarrow> s | None \<Rightarrow> st)
           (case upd_transcriptData u of Some t \<Rightarrow> Some t | None \<Rightarrow> td)
           (case upd_errorMessage u of Some e \<Rightarrow> Some e | None \<Rightarrow> em)"
    using assms(2,3)
    by (auto simp add: row_is_def jobs_update_job_same apply_update_def progress_in_range_def
        split: option.splits)
  from row_is_after_callback_writes [OF this arrivals_callbacks [OF cb]]
  show ?thesis by (simp add: fst_perform)
qed

lemma row_is_perform_callback:
  assumes "unawaited_are_callbacks jobId events (map fst (snd r))"
    and "row_is jobId (fst r) st td em"
    and "op \<in> set (progress_ops jobId events)"
  shows "row_is jobId (fst (perform env op r)) st td em"
proof -
  have cb: "unawaited_are_callbacks jobId events (map fst (snd r) @ [op])"
    using assms(1,3) by (simp add: unawaited_are_callbacks_def)
  from assms(3) have "\<not> awaited op"
    by (auto simp add: in_progress_ops)
  with row_is_after_callback_writes [OF assms(2) arrivals_callbacks [OF cb]]
  show ?thesis by (simp add: fst_perform)
qed

lemma row_is_perform_other:
  assumes "unawaited_are_callbacks jobId events (map fst (snd r))"
    and "row_is jobId (fst r) st td em"
    and "awaited op" and "transcription_jobs (apply_op op (fst r)) = transcription_jobs (fst r)"
  shows "row_is jobId (fst (perform env op r)) st td em"
proof -
  have cb: "unawaited_are_callbacks jobId events (map fst (snd r) @ [op])"
    using assms(1,3) by (simp add: unawaited_are_callbacks_def)
  have "row_is jobId (apply_op op (fst r)) st td em"
    using assms(2,4) by (simp add: row_is_def)
  from row_is_after_callback_writes [OF this arrivals_callbacks [OF cb]] assms(3)
  show ?thesis by (simp add: fst_perform)
qed

lemma perform_all_awaited:
  assumes "list_all awaited (map fst (snd r))" and "awaited op"
  shows "perform env op r = (apply_op op (fst r), snd r @ [(op, apply_op op (fst r))])"
proof -
  have "arrivals env (map fst (snd r) @ [op]) = []"
    by (rule arrivals_all_awaited) (use assms in simp)
  then show ?thesis
    using assms(2) by (simp add: perform_def Let_def)
qed

lemma ops_on_client_event:
  "map fst (snd (on_client_event env jobId ev r)) = map fst (snd r) @ progress_ops jobId [ev]"
  by (cases ev) (simp_all add: progress_ops_def)

lemma progress_ops_Cons:
  "progress_ops jobId (ev # events) = progress_ops jobId [ev] @ progress_ops jobId events"
  by (simp add: progress_ops_def)

lemma progress_ops_member:
  "ev \<in> set events \<Longrightarrow> set (progress_ops jobId [ev]) \<subseteq> set (progress_ops jobId events)"
  by (auto simp add: progress_ops_def split: client_event.splits)

lemma ops_fold_on_client_event:
  "map fst (snd (fold (on_client_event env jobId) events r)) =
     map fst (snd r) @ progress_ops jobId events"
proof (induction events arbitrary: r)
  case Nil
  show ?case by (simp add: progress_ops_def)
next
  case (Cons ev events)
  show ?case
    by (simp add: Cons.IH ops_on_client_event progress_ops_Cons [of jobId ev events])
qed

lemma after_client_event:
  assumes "ev \<in> set events"
    and "unawaited_are_callbacks jobId events (map fst (snd r))"
    and "row_is jobId (fst r) st td em"
  shows "unawaited_are_callbacks jobId events (map fst (snd (on_client_event env jobId ev r)))
       \<and> row_is jobId (fst (on_client_event env jobId ev r)) st td em
       \<and> profiles (fst (on_client_event env jobId ev r)) = profiles (fst r)
       \<and> transcription_usage (fst (on_client_event env jobId ev r)) = transcription_usage (fst r)"
proof (cases ev)
  case (on_progress s p)
  with assms(1) have m: "update_job_unawaited jobId (callback_update s p)
      \<in> set (progress_ops jobId events)"
    by (auto simp add: in_progress_ops)
  show ?thesis
    using callbacks_perform [OF assms(2) disjI2 [OF m]]
      row_is_perform_callback [OF assms(2,3) m]
    by (simp add: on_progress)
next
  case (model_attempt m i)
  with assms show ?thesis by simp
next
  case (slept d)
  with assms show ?thesis by simp
qed

lemma after_client_events:
  assumes "set evs \<subseteq> set events"
    and "unawaited_are_callbacks jobId events (map fst (snd r))"
    and "row_is jobId (fst r) st td em"
  shows "unawaited_are_callbacks jobId events
           (map fst (snd (fold (on_client_event env jobId) evs r)))
       \<and> row_is jobId (fst (fold (on_client_event env jobId) evs r)) st td em
       \<and> profiles (fst (fold (on_client_event env jobId) evs r)) = profiles (fst r)
       \<and> transcription_usage (fst (fold (on_client_event env jobId) evs r)) =
           transcription_usage (fst r)"
  using assms
proof (induction evs arbitrary: r)
  case Nil
  then show ?case by simp
next
  case (Cons ev evs)
  from Cons.prems(1) have ev: "ev \<in> set events" and sub: "set evs \<subseteq> set events"
    by simp_all
  note 1 = after_client_event [OF ev Cons.prems(2,3), of env]
  from Cons.IH [OF sub conjunct1 [OF 1] conjunct1 [OF conjunct2 [OF 1]]] 1
  show ?case by simp
qed

lemma ops_handleJobFailure:
  "map fst (snd (handleJobFailure env jobId msg r)) = map fst (snd r) @
     [update_job jobId (mark_failed msg (new_Date env (length (snd r)))), refund_minutes jobId]"
  by (simp add: handleJobFailure_def)

lemma POST_terminal:
  assumes "jobId \<noteq> []" and "transcription_jobs db jobId = Some job" and "is_terminal (status job)"
  shows "POST env (Some jobId) db =
     (\<lparr> http_status = 200, resp_success = True, resp_status = Some (status job),
        resp_error = None, resp_message = Some (''Job already '' @ status_name (status job)),
        resp_segmentCount = None, resp_duration = None, resp_language = None \<rparr>, (db, []))"
  using assms by (simp add: POST_def getTranscriptionJob_def is_terminal_def)

lemma POST_download_fails:
  assumes "jobId \<noteq> []" and "transcription_jobs db jobId = Some job"
    and "\<not> is_terminal (status job)"
    and "extractYouTubeAudio env (youtube_id job) = Inl e"
  shows "POST env (Some jobId) db =
     (error_response 500 ''Failed to download audio'',
      handleJobFailure env jobId ''Failed to download audio from YouTube''
        (run_to_download env jobId job db))"
  using assms
  by (simp add: POST_def getTranscriptionJob_def is_terminal_def Let_def run_to_download_def)

lemma POST_transcription_fails:
  assumes "jobId \<noteq> []" and "transcription_jobs db jobId = Some job"
    and "\<not> is_terminal (status job)"
    and "extractYouTubeAudio env (youtube_id job) = Inr audio"
    and "transcribeAudio (gemini env) (createAudioFile audio) None = (events, Inl e)"
  shows "POST env (Some jobId) db =
     (error_response 500 ''Transcription failed'',
      handleJobFailure env jobId ''AI transcription failed''
        (run_to_transcript env jobId job audio events db))"
  using assms
  by (simp add: POST_def getTranscriptionJob_def is_terminal_def Let_def run_to_download_def
      run_to_transcript_def)

lemma POST_succeeds:
  assumes "jobId \<noteq> []" and "transcription_jobs db jobId = Some job"
    and "\<not> is_terminal (status job)"
    and "extractYouTubeAudio env (youtube_id job) = Inr audio"
    and "transcribeAudio (gemini env) (createAudioFile audio) None = (events, Inr result)"
  shows "POST env (Some jobId) db =
     (let r4 = perform env (update_job jobId mark_finalizing)
                 (run_to_transcript env jobId job audio events db);
          durationMinutes = \<lceil>duration result / 60\<rceil>;
          consumeResult = fst (consumeTranscriptionMinutes (job_user_id job) jobId durationMinutes
                (subscription_limit env) (billing_period_start env) (billing_period_end env)
                (fst r4));
          r5 = perform env (consume_minutes (job_user_id job) jobId durationMinutes
                 (subscription_limit env) (billing_period_start env) (billing_period_end env)) r4;
          r5' = (if \<not> allowed consumeResult
                 then perform env (console_error ''[Transcription] Failed to consume credits:'') r5
                 else r5)
      in (\<lparr> http_status = 200, resp_success = True, resp_status = Some completed,
            resp_error = None, resp_message = None,
            resp_segmentCount = Some (length (segments result)),
            resp_duration = Some (duration result),
            resp_language = Some (language result) \<rparr>,
          perform env (update_job jobId (mark_completed (segments result)
                     (new_Date env (length (snd r5'))))) r5'))"
  using assms
  by (simp add: POST_def getTranscriptionJob_def is_terminal_def Let_def run_to_download_def
      run_to_transcript_def)

lemma ops_run_to_download:
  "map fst (snd (run_to_download env jobId job db)) =
     [update_job jobId (mark_downloading (new_Date env 0)), download_audio (youtube_id job)]"
  by (simp add: run_to_download_def)

lemma run_to_download_explicit:
  "run_to_download env jobId job db =
     (updateTranscriptionJobStatus jobId (mark_downloading (new_Date env 0)) db,
      [(update_job jobId (mark_downloading (new_Date env 0)),
        updateTranscriptionJobStatus jobId (mark_downloading (new_Date env 0)) db),
       (download_audio (youtube_id job),
        updateTranscriptionJobStatus jobId (mark_downloading (new_Date env 0)) db)])"
  by (simp add: run_to_download_def perform_all_awaited)

lemma ops_run_to_transcript:
  "map fst (snd (run_to_transcript env jobId job audio events db)) =
     ops_to_transcript env jobId job audio events"
  by (simp add: run_to_transcript_def ops_to_transcript_def ops_fold_on_client_event
      ops_run_to_download)

lemma length_run_to_transcript:
  "length (snd (run_to_transcript env jobId job audio events db)) =
     length (progress_ops jobId events) + 4"
  using arg_cong [OF ops_run_to_transcript [of env jobId job audio events db], of length]
  by (simp add: ops_to_transcript_def)

subsection \<open>The job row along a run\<close>

lemma after_download:
  assumes "transcription_jobs db jobId = Some job"
  shows "unawaited_are_callbacks jobId events (map fst (snd (run_to_download env jobId job' db)))"
    and "row_is jobId (fst (run_to_download env jobId job' db)) downloading
           (transcript_data job) (error_message job)"
    and "profiles (fst (run_to_download env jobId job' db)) = profiles db"
    and "transcription_usage (fst (run_to_download env jobId job' db)) = transcription_usage db"
  using assms
  by (simp_all add: run_to_download_explicit unawaited_are_callbacks_def row_is_def
      jobs_update_job_same apply_update_def mark_downloading_def no_update_def
      progress_in_range_def)

lemma after_transcript:
  assumes "transcription_jobs db jobId = Some job"
  shows "unawaited_are_callbacks jobId events
           (map fst (snd (run_to_transcript env jobId job' audio events db)))
       \<and> row_is jobId (fst (run_to_transcript env jobId job' audio events db)) transcribing
           (transcript_data job) (error_message job)
       \<and> profiles (fst (run_to_transcript env jobId job' audio events db)) = profiles db
       \<and> transcription_usage (fst (run_to_transcript env jobId job' audio events db)) =
           transcription_usage db"
proof -
  let ?r1 = "run_to_download env jobId job' db"
  let ?r2 = "perform env (update_job jobId mark_transcribing) ?r1"
  let ?r2' = "perform env (transcribe_audio (createAudioFile audio)) ?r2"
  note d = after_download [OF assms]
  have cb2: "unawaited_are_callbacks jobId events (map fst (snd ?r2))"
    by (rule callbacks_perform [OF d(1)]) simp
  have row2: "row_is jobId (fst ?r2) transcribing (transcript_data job) (error_message job)"
    using row_is_perform_update [OF d(1,2), of mark_transcribing env]
    by (simp add: mark_transcribing_def no_update_def)
  have cb2': "unawaited_are_callbacks jobId events (map fst (snd ?r2'))"
    by (rule callbacks_perform [OF cb2]) simp
  have row2': "row_is jobId (fst ?r2') transcribing (transcript_data job) (error_message job)"
    by (rule row_is_perform_other [OF cb2 row2]) simp_all
  from after_client_events [OF subset_refl cb2' row2', of env] d(3,4)
  show ?thesis
    by (simp add: run_to_transcript_def)
qed

lemma ledger_perform_consume:
  "profiles (fst (perform env (consume_minutes u j m l ps pe) r)) =
     profiles (snd (consume_transcription_minutes_atomically u j m l ps pe (fst r)))"
  "transcription_usage (fst (perform env (consume_minutes u j m l ps pe) r)) =
     transcription_usage (snd (consume_transcription_minutes_atomically u j m l ps pe (fst r)))"
  by (simp_all add: fst_perform consumeTranscriptionMinutes_def)

lemma POST_denied_consumption:
  assumes "jobId \<noteq> []" and "transcription_jobs db jobId = Some job"
    and "\<not> is_terminal (status job)"
    and "extractYouTubeAudio env (youtube_id job) = Inr audio"
    and "transcribeAudio (gemini env) (createAudioFile audio) None = (events, Inr result)"
    and "\<not> allowed (fst (consume_transcription_minutes_atomically (job_user_id job) jobId
            \<lceil>duration result / 60\<rceil> (subscription_limit env) (billing_period_start env)
            (billing_period_end env) db))"
  shows "http_status (fst (POST env (Some jobId) db)) = 200
       \<and> resp_success (fst (POST env (Some jobId) db))
       \<and> resp_status (fst (POST env (Some jobId) db)) = Some completed
       \<and> map_option status (transcription_jobs (fst (snd (POST env (Some jobId) db))) jobId) =
           Some completed
       \<and> map_option transcript_data
           (transcription_jobs (fst (snd (POST env (Some jobId) db))) jobId) =
           Some (Some (segments result))
       \<and> map_option error_message
           (transcription_jobs (fst (snd (POST env (Some jobId) db))) jobId) =
           Some (error_message job)
       \<and> (\<exists>p \<in> set (100 # reported_progress events).
             map_option progress
               (transcription_jobs (fst (snd (POST env (Some jobId) db))) jobId) = Some p)
       \<and> (arrivals env (map fst (snd (snd (POST env (Some jobId) db)))) = [] \<longrightarrow>
             map_option progress
               (transcription_jobs (fst (snd (POST env (Some jobId) db))) jobId) = Some 100)
       \<and> transcription_usage (fst (snd (POST env (Some jobId) db))) = transcription_usage db
       \<and> profiles (fst (snd (POST env (Some jobId) db))) = profiles db
       \<and> map fst (snd (snd (POST env (Some jobId) db))) =
           ops_to_transcript env jobId job audio events
           @ [update_job jobId mark_finalizing,
              consume_minutes (job_user_id job) jobId \<lceil>duration result / 60\<rceil>
                (subscription_limit env) (billing_period_start env) (billing_period_end env),
              console_error ''[Transcription] Failed to consume credits:'',
              update_job jobId (mark_completed (segments result)
                (new_Date env (length (progress_ops jobId events) + 7)))]"
proof -
  let ?r3 = "run_to_transcript env jobId job audio events db"
  let ?r4 = "perform env (update_job jobId mark_finalizing) ?r3"
  let ?m = "\<lceil>duration result / 60\<rceil>"
  let ?c = "consume_transcription_minutes_atomically (job_user_id job) jobId ?m
      (subscription_limit env) (billing_period_start env) (billing_period_end env)"
  let ?cop = "consume_minutes (job_user_id job) jobId ?m
      (subscription_limit env) (billing_period_start env) (billing_period_end env)"
  let ?r5 = "perform env ?cop ?r4"
  let ?r5' = "perform env (console_error ''[Transcription] Failed to consume credits:'') ?r5"
  let ?done = "mark_completed (segments result) (new_Date env (length (snd ?r5')))"
  let ?r6 = "perform env (update_job jobId ?done) ?r5'"
  let ?resp = "\<lparr> http_status = 200, resp_success = True, resp_status = Some completed,
      resp_error = None, resp_message = None,
      resp_segmentCount = Some (length (segments result)),
      resp_duration = Some (duration result),
      resp_language = Some (language result) \<rparr>"
  from after_transcript [OF assms(2), of events env job audio]
  have cb3: "unawaited_are_callbacks jobId events (map fst (snd ?r3))"
    and row3: "row_is jobId (fst ?r3) transcribing (transcript_data job) (error_message job)"
    and led3: "profiles (fst ?r3) = profiles db"
      "transcription_usage (fst ?r3) = transcription_usage db"
    by simp_all
  have cb4: "unawaited_are_callbacks jobId events (map fst (snd ?r4))"
    by (rule callbacks_perform [OF cb3]) simp
  have row4: "row_is jobId (fst ?r4) transcribing (transcript_data job) (error_message job)"
    using row_is_perform_update [OF cb3 row3, of mark_finalizing env]
    by (simp add: mark_finalizing_def no_update_def)
  have led4: "profiles (fst ?r4) = profiles db"
    "transcription_usage (fst ?r4) = transcription_usage db"
    using led3 by simp_all
  have res: "fst (?c (fst ?r4)) = fst (?c db)"
    by (rule consume_result_cong [OF led4])
  then have den: "\<not> allowed (fst (?c (fst ?r4)))"
    using assms(6) by simp
  have unch: "snd (?c (fst ?r4)) = fst ?r4"
    by (rule consume_denied_unchanged [OF den])
  have cb5: "unawaited_are_callbacks jobId events (map fst (snd ?r5))"
    by (rule callbacks_perform [OF cb4]) simp
  have row5: "row_is jobId (fst ?r5) transcribing (transcript_data job) (error_message job)"
    by (rule row_is_perform_other [OF cb4 row4]) (simp_all add: consumeTranscriptionMinutes_def)
  have led5: "profiles (fst ?r5) = profiles db"
    "transcription_usage (fst ?r5) = transcription_usage db"
    using led4 unch by (simp_all add: ledger_perform_consume)
  have cb5': "unawaited_are_callbacks jobId events (map fst (snd ?r5'))"
    by (rule callbacks_perform [OF cb5]) simp
  have row5': "row_is jobId (fst ?r5') transcribing (transcript_data job) (error_message job)"
    by (rule row_is_perform_other [OF cb5 row5]) simp_all
  have led5': "profiles (fst ?r5') = profiles db"
    "transcription_usage (fst ?r5') = transcription_usage db"
    using led5 by simp_all
  have post: "POST env (Some jobId) db = (?resp, ?r6)"
    unfolding POST_succeeds [OF assms(1-5)] using den
    by (simp add: Let_def consumeTranscriptionMinutes_def)
  have ops: "map fst (snd ?r6) =
      ops_to_transcript env jobId job audio events
      @ [update_job jobId mark_finalizing, ?cop,
         console_error ''[Transcription] Failed to consume credits:'',
         update_job jobId (mark_completed (segments result)
           (new_Date env (length (progress_ops jobId events) + 7)))]"
    by (simp add: ops_run_to_transcript length_run_to_transcript add.commute)
  have cb6: "unawaited_are_callbacks jobId events (map fst (snd ?r5') @ [update_job jobId ?done])"
    using cb5' by (simp add: unawaited_are_callbacks_def)
  from row5' obtain j5 where j5: "transcription_jobs (fst ?r5') jobId = Some j5"
    and f5: "error_message j5 = error_message job" "progress_in_range j5"
    by (auto simp add: row_is_def split: option.splits)
  let ?db6 = "updateTranscriptionJobStatus jobId ?done (fst ?r5')"
  have j6: "transcription_jobs ?db6 jobId = Some (apply_update ?done j5)"
    using j5 by (simp add: jobs_update_job_same apply_update_def mark_completed_def no_update_def)
  have db6: "fst ?r6 = replay (arrivals env (map fst (snd ?r5') @ [update_job jobId ?done])) ?db6"
    by (simp add: fst_perform)
  from row_after_callback_writes [OF j6 arrivals_callbacks [OF cb6], of env]
  obtain j' where fin: "transcription_jobs (fst ?r6) jobId = Some j'"
    and f': "status j' = completed" "transcript_data j' = Some (segments result)"
      "error_message j' = error_message job"
      "progress j' = 100 \<or> progress j' \<in> set (reported_progress events)"
    unfolding db6 [symmetric] using f5
    by (auto simp add: apply_update_def mark_completed_def no_update_def)
  have quiet: "map_option progress (transcription_jobs (fst ?r6) jobId) = Some 100"
    if "arrivals env (map fst (snd ?r6)) = []"
    using that j6 unfolding db6
    by (simp add: apply_update_def mark_completed_def no_update_def)
  have led6: "profiles (fst ?r6) = profiles db"
    "transcription_usage (fst ?r6) = transcription_usage db"
    using led5' by simp_all
  show ?thesis
    unfolding post fst_conv snd_conv ops [symmetric]
    using fin f' quiet led6 by auto
qed

lemma usage_refundTranscriptionMinutes:
  "rows_of_job jobId (refundTranscriptionMinutes jobId db) = []"
  by (simp add: refundTranscriptionMinutes_def rows_of_job_after_refund)

lemma rows_of_job_cong:
  "transcription_usage db' = transcription_usage db \<Longrightarrow> rows_of_job j db' = rows_of_job j db"
  by (simp add: rows_of_job_def)

lemma handleJobFailure_effect:
  assumes "unawaited_are_callbacks jobId events (map fst (snd r))"
    and "row_is jobId (fst r) st td em"
  shows "\<exists>d1. snd (handleJobFailure env jobId msg r) = snd r @
           [(update_job jobId (mark_failed msg (new_Date env (length (snd r)))), d1),
            (refund_minutes jobId, fst (handleJobFailure env jobId msg r))]
       \<and> map_option status (transcription_jobs d1 jobId) = Some failed
       \<and> transcription_usage d1 = transcription_usage (fst r)
       \<and> profiles d1 = profiles (fst r)
       \<and> rows_of_job jobId (fst (handleJobFailure env jobId msg r)) = []
       \<and> map_option status (transcription_jobs (fst (handleJobFailure env jobId msg r)) jobId) =
           Some failed"
proof -
  let ?u = "mark_failed msg (new_Date env (length (snd r)))"
  let ?r' = "perform env (update_job jobId ?u) r"
  let ?r'' = "perform env (refund_minutes jobId) ?r'"
  have h: "handleJobFailure env jobId msg r = ?r''"
    by (simp add: handleJobFailure_def)
  have cb': "unawaited_are_callbacks jobId events (map fst (snd ?r'))"
    by (rule callbacks_perform [OF assms(1)]) simp
  have row': "row_is jobId (fst ?r') failed td (Some msg)"
    using row_is_perform_update [OF assms, of ?u env]
    by (simp add: mark_failed_def no_update_def)
  have row'': "row_is jobId (fst ?r'') failed td (Some msg)"
    by (rule row_is_perform_other [OF cb' row']) simp_all
  have "transcription_usage (fst ?r'') =
      transcription_usage (refundTranscriptionMinutes jobId (fst ?r'))"
    by (simp add: fst_perform)
  from rows_of_job_cong [OF this, of jobId]
  have gone: "rows_of_job jobId (fst ?r'') = []"
    by (simp add: usage_refundTranscriptionMinutes)
  have tr: "snd ?r'' = snd r @ [(update_job jobId ?u, fst ?r'), (refund_minutes jobId, fst ?r'')]"
    by (simp add: snd_perform [of env "refund_minutes jobId"]
        snd_perform [of env "update_job jobId ?u"])
  show ?thesis
    unfolding h
    apply (rule exI [of _ "fst ?r'"])
    using row' row'' gone tr
    by (auto simp add: row_is_def split: option.splits)
qed

lemma no_ledger_progress_ops:
  "list_all (\<lambda>op. \<not> touches_ledger op) (progress_ops jobId events)"
proof -
  have "\<forall>op \<in> set (progress_ops jobId events). \<not> touches_ledger op"
    by (auto simp add: in_progress_ops touches_ledger_def)
  then show ?thesis by (simp add: list_all_iff)
qed

lemma no_ledger_ops_to_transcript:
  "list_all (\<lambda>op. \<not> touches_ledger op) (ops_to_transcript env jobId job audio events)"
  using no_ledger_progress_ops [of jobId events]
  by (simp add: ops_to_transcript_def touches_ledger_def)

lemma POST_failure:
  assumes "jobId \<noteq> []" and "transcription_jobs db jobId = Some job"
    and "\<not> is_terminal (status job)"
    and "extractYouTubeAudio env (youtube_id job) = Inl e
         \<or> (\<exists>audio events e'. extractYouTubeAudio env (youtube_id job) = Inr audio
               \<and> transcribeAudio (gemini env) (createAudioFile audio) None = (events, Inl e'))"
  shows "\<exists>pre msg date d1.
       snd (snd (POST env (Some jobId) db)) =
         pre @ [(update_job jobId (mark_failed msg date), d1),
                (refund_minutes jobId, fst (snd (POST env (Some jobId) db)))]
     \<and> list_all (\<lambda>op. \<not> touches_ledger op) (map fst pre)
     \<and> map_option status (transcription_jobs d1 jobId) = Some failed
     \<and> transcription_usage d1 = transcription_usage db
     \<and> profiles d1 = profiles db
     \<and> rows_of_job jobId (fst (snd (POST env (Some jobId) db))) = []
     \<and> job_minutes jobId (fst (snd (POST env (Some jobId) db))) = 0
     \<and> map_option status (transcription_jobs (fst (snd (POST env (Some jobId) db))) jobId) =
         Some failed
     \<and> http_status (fst (POST env (Some jobId) db)) = 500"
  using assms(4)
proof (elim disjE exE conjE)
  assume e: "extractYouTubeAudio env (youtube_id job) = Inl e"
  let ?r1 = "run_to_download env jobId job db"
  let ?msg = "''Failed to download audio from YouTube''"
  note d = after_download [OF assms(2), where env = env and job' = job]
  from handleJobFailure_effect [OF d(1,2), where env = env and msg = ?msg]
  obtain d1 where h:
    "snd (handleJobFailure env jobId ?msg ?r1) = snd ?r1 @
       [(update_job jobId (mark_failed ?msg (new_Date env (length (snd ?r1)))), d1),
        (refund_minutes jobId, fst (handleJobFailure env jobId ?msg ?r1))]"
    "map_option status (transcription_jobs d1 jobId) = Some failed"
    "transcription_usage d1 = transcription_usage (fst ?r1)"
    "profiles d1 = profiles (fst ?r1)"
    "rows_of_job jobId (fst (handleJobFailure env jobId ?msg ?r1)) = []"
    "map_option status (transcription_jobs (fst (handleJobFailure env jobId ?msg ?r1)) jobId) =
       Some failed"
    by blast
  show ?thesis
    unfolding POST_download_fails [OF assms(1-3) e]
    apply (rule exI [of _ "snd ?r1"])
    apply (rule exI [of _ ?msg])
    apply (rule exI [of _ "new_Date env (length (snd ?r1))"])
    apply (rule exI [of _ d1])
    using h d(3,4)
    by (simp add: ops_run_to_download touches_ledger_def job_minutes_def error_response_def)
next
  fix audio events e'
  assume a: "extractYouTubeAudio env (youtube_id job) = Inr audio"
    and t: "transcribeAudio (gemini env) (createAudioFile audio) None = (events, Inl e')"
  let ?r3 = "run_to_transcript env jobId job audio events db"
  let ?msg = "''AI transcription failed''"
  from after_transcript [OF assms(2), of events env job audio]
  have cb3: "unawaited_are_callbacks jobId events (map fst (snd ?r3))"
    and row3: "row_is jobId (fst ?r3) transcribing (transcript_data job) (error_message job)"
    and led3: "profiles (fst ?r3) = profiles db"
      "transcription_usage (fst ?r3) = transcription_usage db"
    by simp_all
  from handleJobFailure_effect [OF cb3 row3, where env = env and msg = ?msg]
  obtain d1 where h:
    "snd (handleJobFailure env jobId ?msg ?r3) = snd ?r3 @
       [(update_job jobId (mark_failed ?msg (new_Date env (length (snd ?r3)))), d1),
        (refund_minutes jobId, fst (handleJobFailure env jobId ?msg ?r3))]"
    "map_option status (transcription_jobs d1 jobId) = Some failed"
    "transcription_usage d1 = transcription_usage (fst ?r3)"
    "profiles d1 = profiles (fst ?r3)"
    "rows_of_job jobId (fst (handleJobFailure env jobId ?msg ?r3)) = []"
    "map_option status (transcription_jobs (fst (handleJobFailure env jobId ?msg ?r3)) jobId) =
       Some failed"
    by blast
  show ?thesis
    unfolding POST_transcription_fails [OF assms(1-3) a t]
    apply (rule exI [of _ "snd ?r3"])
    apply (rule exI [of _ ?msg])
    apply (rule exI [of _ "new_Date env (length (snd ?r3))"])
    apply (rule exI [of _ d1])
    using h led3
    by (simp add: ops_run_to_transcript no_ledger_ops_to_transcript job_minutes_def
        error_response_def)
qed

subsection \<open>The examples\<close>

text \<open>When every unawaited write arrives at once, an operation leaves the database that
  it makes itself.\<close>

lemma arrivals_prompt:
  assumes "\<And>k. arrival env k = Some (k, 0)"
  shows "arrivals env (ops @ [op]) = (if awaited op then [] else [op])"
proof -
  have before: "filter (due env (ops @ [op])) [0..<length ops] = []"
    by (simp add: filter_empty_conv due_def assms)
  have "filter (due env (ops @ [op])) [0..<length (ops @ [op])] =
      (if awaited op then [] else [length ops])"
    using before by (simp add: due_def assms)
  then show ?thesis
    by (simp add: arrivals_def)
qed

lemma perform_prompt:
  assumes "\<And>k. arrival env k = Some (k, 0)"
  shows "perform env op r = (apply_op op (fst r), snd r @ [(op, apply_op op (fst r))])"
  by (simp add: perform_def Let_def arrivals_prompt [OF assms])

lemma prompt_demo: "arrival env_demo k = Some (k, 0)"
  by (simp add: env_demo_def)

lemma eval_demo_transcribe:
  "transcribeAudio (gemini env_demo) (createAudioFile audio_20mb) None =
       ([on_progress stage_preparing 0, on_progress stage_preparing 10,
         on_progress stage_transcribing 30,
         model_attempt ''gemini-3-flash-preview'' 0, on_progress stage_transcribing 40,
         model_attempt ''gemini-2.5-flash-lite'' 0, on_progress stage_transcribing 40,
         on_progress stage_processing 80, on_progress stage_processing 100], Inr result_ok)"
proof -
  have "createAudioFile audio_20mb = file_20mb"
    by (simp add: createAudioFile_def audio_20mb_def file_20mb_def)
  moreover have "gemini env_demo = env_first_fails error_502"
    by (simp add: env_demo_def)
  ultimately show ?thesis
    by (simp add: eval_transcribeAudio_20mb)
qed

lemma eval_demo_minutes: "\<lceil>duration result_ok / 60\<rceil> = 15"
  by (simp add: result_ok_def)

lemma eval_demo_consume:
  "consume_transcription_minutes_atomically ''u1'' ''j1'' 15 10 (Some 0) (Some 100) db_pending =
     (\<lparr> allowed = False, reason = ''INSUFFICIENT_CREDITS'', minutes_from_subscription = None,
        minutes_from_topup = None, subscription_remaining = Some 10, topup_remaining = Some 0,
        total_remaining = Some 10, minutes_needed = Some 15 \<rparr>, db_pending)"
  by (simp add: consume_transcription_minutes_atomically_def get_transcription_usage_in_period_def
      db_pending_def denied_def Let_def)

lemma eval_demo_job:
  "transcription_jobs db_pending ''j1'' = Some (created_job ''u1'' ''video'')"
  "\<not> is_terminal (status (created_job ''u1'' ''video''))"
  "job_user_id (created_job ''u1'' ''video'') = ''u1''"
  "extractYouTubeAudio env_demo (youtube_id (created_job ''u1'' ''video'')) = Inr audio_20mb"
  "subscription_limit env_demo = 10"
  "billing_period_start env_demo = Some 0"
  "billing_period_end env_demo = Some 100"
  by (simp_all add: db_pending_def created_job_def is_terminal_def env_demo_def)

lemma eval_demo_denied:
  "\<not> allowed (fst (consume_transcription_minutes_atomically
        (job_user_id (created_job ''u1'' ''video'')) ''j1'' \<lceil>duration result_ok / 60\<rceil>
        (subscription_limit env_demo) (billing_period_start env_demo)
        (billing_period_end env_demo) db_pending))"
  by (simp add: eval_demo_job eval_demo_minutes eval_demo_consume)

lemma eval_demo_operations:
  "demo_operations =
     [update_job ''j1'' (mark_downloading 1000), download_audio ''video'',
      update_job ''j1'' mark_transcribing, transcribe_audio file_20mb,
      update_job_unawaited ''j1'' (callback_update stage_preparing 0),
      update_job_unawaited ''j1'' (callback_update stage_preparing 10),
      update_job_unawaited ''j1'' (callback_update stage_transcribing 30),
      update_job_unawaited ''j1'' (callback_update stage_transcribing 40),
      update_job_unawaited ''j1'' (callback_update stage_transcribing 40),
      update_job_unawaited ''j1'' (callback_update stage_processing 80),
      update_job_unawaited ''j1'' (callback_update stage_processing 100),
      update_job ''j1'' mark_finalizing,
      consume_minutes ''u1'' ''j1'' 15 10 (Some 0) (Some 100),
      console_error ''[Transcription] Failed to consume credits:'',
      update_job ''j1'' (mark_completed (segments result_ok) 1014)]"
proof -
  note t = POST_denied_consumption [OF _ eval_demo_job(1,2,4) eval_demo_transcribe
      eval_demo_denied, simplified]
  from t have "demo_operations =
      ops_to_transcript env_demo ''j1'' (created_job ''u1'' ''video'') audio_20mb
        [on_progress stage_preparing 0, on_progress stage_preparing 10,
         on_progress stage_transcribing 30,
         model_attempt ''gemini-3-flash-preview'' 0, on_progress stage_transcribing 40,
         model_attempt ''gemini-2.5-flash-lite'' 0, on_progress stage_transcribing 40,
         on_progress stage_processing 80, on_progress stage_processing 100]
      @ [update_job ''j1'' mark_finalizing,
         consume_minutes (job_user_id (created_job ''u1'' ''video'')) ''j1''
           \<lceil>duration result_ok / 60\<rceil> (subscription_limit env_demo)
           (billing_period_start env_demo) (billing_period_end env_demo),
         console_error ''[Transcription] Failed to consume credits:'',
         update_job ''j1'' (mark_completed (segments result_ok)
           (new_Date env_demo (length (progress_ops ''j1''
              [on_progress stage_preparing 0, on_progress stage_preparing 10,
               on_progress stage_transcribing 30,
               model_attempt ''gemini-3-flash-preview'' 0, on_progress stage_transcribing 40,
               model_attempt ''gemini-2.5-flash-lite'' 0, on_progress stage_transcribing 40,
               on_progress stage_processing 80, on_progress stage_processing 100]) + 7)))]"
    unfolding demo_operations_def by blast
  then show ?thesis
    by (simp add: ops_to_transcript_def progress_ops_def eval_demo_job eval_demo_minutes
        env_demo_def created_job_def createAudioFile_def audio_20mb_def file_20mb_def)
qed

lemma eval_demo_awaited:
  "transcription_jobs (replay (filter awaited demo_operations) db_pending) ''j1'' =
     Some \<lparr> job_user_id = ''u1'', youtube_id = ''video'', status = completed,
       error_message = None, progress = 100, current_stage = Some ''Complete'',
       transcript_data = Some (segments result_ok), started_at = Some 1000,
       completed_at = Some 1014 \<rparr>"
  by (simp add: eval_demo_operations consumeTranscriptionMinutes_def jobs_update_job_same
      apply_update_def mark_downloading_def mark_transcribing_def mark_finalizing_def
      mark_completed_def no_update_def db_pending_def created_job_def)

lemma eval_late_progress:
  "transcription_jobs db_late_progress ''j1'' =
     Some \<lparr> job_user_id = ''u1'', youtube_id = ''video'', status = completed,
       error_message = None, progress = 90, current_stage = Some ''Processing transcript'',
       transcript_data = Some (segments result_ok), started_at = Some 1000,
       completed_at = Some 1014 \<rparr>"
proof -
  have "filter (\<lambda>op. \<not> awaited op) demo_operations =
     [update_job_unawaited ''j1'' (callback_update stage_preparing 0),
      update_job_unawaited ''j1'' (callback_update stage_preparing 10),
      update_job_unawaited ''j1'' (callback_update stage_transcribing 30),
      update_job_unawaited ''j1'' (callback_update stage_transcribing 40),
      update_job_unawaited ''j1'' (callback_update stage_transcribing 40),
      update_job_unawaited ''j1'' (callback_update stage_processing 80),
      update_job_unawaited ''j1'' (callback_update stage_processing 100)]"
    by (simp add: eval_demo_operations)
  then show ?thesis
    unfolding db_late_progress_def settle_late_def
    by (simp add: jobs_update_job_same eval_demo_awaited apply_update_def callback_update_def
        no_update_def)
qed

lemma eval_second_operations:
  "second_operations =
     [update_job ''j1'' (mark_downloading 1000), download_audio ''video'',
      update_job ''j1'' (mark_failed ''Failed to download audio from YouTube'' 1002),
      refund_minutes ''j1'']"
proof -
  have e: "extractYouTubeAudio env_download_fails (youtube_id (created_job ''u1'' ''video'')) =
      Inl (new_Error ''Failed to download audio: 403'')"
    by (simp add: env_download_fails_def)
  show ?thesis
    unfolding second_operations_def POST_download_fails [OF _ eval_demo_job(1,2) e, simplified]
    by (simp add: ops_handleJobFailure run_to_download_explicit env_download_fails_def
        created_job_def)
qed

lemma eval_failed_after_completion:
  "transcription_jobs db_failed_after_completion ''j1'' =
     Some \<lparr> job_user_id = ''u1'', youtube_id = ''video'', status = failed,
       error_message = Some ''Failed to download audio from YouTube'', progress = 100,
       current_stage = Some ''Complete'',
       transcript_data = Some (segments result_ok), started_at = Some 1000,
       completed_at = Some 1002 \<rparr>"
  unfolding db_failed_after_completion_def
  by (simp add: eval_second_operations eval_demo_operations consumeTranscriptionMinutes_def
      jobs_update_job_same apply_update_def mark_downloading_def mark_transcribing_def
      mark_finalizing_def mark_completed_def mark_failed_def callback_update_def no_update_def
      db_pending_def created_job_def)

text \<open>When every unawaited write arrives after operation number \<open>N\<close> of the run, nothing
  arrives before it, and all of them arrive behind it in the order of issue.\<close>

lemma arrivals_late:
  assumes "\<And>k. arrival env k = Some (N, 0)"
  shows "length ops \<le> N \<Longrightarrow> arrivals env ops = []"
    and "length ops = Suc N \<Longrightarrow> arrivals env ops = filter (\<lambda>op. \<not> awaited op) ops"
proof -
  assume "length ops \<le> N"
  then have "filter (due env ops) [0..<length ops] = []"
    by (auto simp add: filter_empty_conv due_def assms)
  then show "arrivals env ops = []"
    by (simp add: arrivals_def)
next
  assume l: "length ops = Suc N"
  then have "filter (due env ops) [0..<length ops] =
      filter (\<lambda>k. \<not> awaited (ops ! k)) [0..<length ops]"
    by (intro filter_cong) (auto simp add: due_def assms)
  then have "arrivals env ops =
      map (\<lambda>k. ops ! k) (filter (\<lambda>k. \<not> awaited (ops ! k)) [0..<length ops])"
    by (simp add: arrivals_def assms sort_key_const)
  also have "\<dots> = filter (\<lambda>op. \<not> awaited op) (map (\<lambda>k. ops ! k) [0..<length ops])"
    by (simp add: filter_map comp_def)
  also have "\<dots> = filter (\<lambda>op. \<not> awaited op) ops"
    by (simp add: map_nth)
  finally show "arrivals env ops = filter (\<lambda>op. \<not> awaited op) ops" .
qed

lemma perform_late:
  assumes "\<And>k. arrival env k = Some (N, 0)"
  shows "length (snd r) < N \<Longrightarrow> perform env op r =
           (if awaited op then apply_op op (fst r) else fst r,
            snd r @ [(op, if awaited op then apply_op op (fst r) else fst r)])"
    and "length (snd r) = N \<Longrightarrow> fst (perform env op r) =
           replay (filter (\<lambda>op. \<not> awaited op) (map fst (snd r) @ [op]))
             (if awaited op then apply_op op (fst r) else fst r)"
  by (simp_all add: perform_def Let_def arrivals_late [OF assms])

lemma late_demo: "arrival env_late k = Some (14, 0)"
  by (simp add: env_late_def)

lemma consume_result_after_update:
  "fst (consume_transcription_minutes_atomically u j m l ps pe
          (updateTranscriptionJobStatus j' u' db)) =
   fst (consume_transcription_minutes_atomically u j m l ps pe db)"
  by (rule consume_result_cong) simp_all

lemma eval_late_job:
  "extractYouTubeAudio env_late (youtube_id (created_job ''u1'' ''video'')) = Inr audio_20mb"
  "transcribeAudio (gemini env_late) (createAudioFile audio_20mb) None =
     transcribeAudio (gemini env_demo) (createAudioFile audio_20mb) None"
  by (simp_all add: env_late_def env_demo_def)

lemma eval_late_env:
  "new_Date env_late n = 1000 + int n"
  "subscription_limit env_late = 10"
  "billing_period_start env_late = Some 0"
  "billing_period_end env_late = Some 100"
  by (simp_all add: env_late_def env_demo_def)

lemma eval_late_denied:
  "\<not> allowed (fst (consume_transcription_minutes_atomically
        (job_user_id (created_job ''u1'' ''video'')) ''j1'' \<lceil>duration result_ok / 60\<rceil>
        (subscription_limit env_late) (billing_period_start env_late)
        (billing_period_end env_late) db_pending))"
  by (simp add: eval_demo_job eval_demo_minutes eval_demo_consume eval_late_env)

lemma eval_late_run:
  "fst (snd (POST env_late (Some ''j1'') db_pending)) = db_late_progress"
  unfolding POST_succeeds [OF _ eval_demo_job(1,2) eval_late_job(1)
      eval_late_job(2) [unfolded eval_demo_transcribe], simplified]
  by (simp add: Let_def run_to_transcript_def run_to_download_def
      perform_late [OF late_demo] consumeTranscriptionMinutes_def consume_result_after_update
      eval_demo_job eval_demo_minutes eval_demo_consume eval_late_env
      db_late_progress_def settle_late_def eval_demo_operations)

text \<open>
  C1 (as amended). For every job whose transcription succeeds but whose subsequent atomic
  credit consumption is denied, the orchestrator logs the denial and goes on: its last
  operation writes the status \<open>completed\<close>, the progress 100 and the transcript, and it
  answers with success. Whenever the unawaited progress writes of the callback arrive, the
  job ends \<open>completed\<close> with the transcript persisted and without an error message, and
  nothing is charged, the usage rows and the balances being as before the run. The
  progress of the row is 100 when no progress write arrives after the completing write,
  and otherwise 100 or a value that a progress write of the run carries.
\<close>

theorem denied_consumption_still_completes:
  assumes "jobId \<noteq> []" and "transcription_jobs db jobId = Some job"
    and "\<not> is_terminal (status job)"
    and "extractYouTubeAudio env (youtube_id job) = Inr audio"
    and "transcribeAudio (gemini env) (createAudioFile audio) None = (events, Inr result)"
    and "\<not> allowed (fst (consume_transcription_minutes_atomically (job_user_id job) jobId
            \<lceil>duration result / 60\<rceil> (subscription_limit env) (billing_period_start env)
            (billing_period_end env) db))"
  shows "http_status (fst (POST env (Some jobId) db)) = 200
       \<and> resp_success (fst (POST env (Some jobId) db))
       \<and> resp_status (fst (POST env (Some jobId) db)) = Some completed
       \<and> map_option status (transcription_jobs (fst (snd (POST env (Some jobId) db))) jobId) =
           Some completed
       \<and> map_option transcript_data
           (transcription_jobs (fst (snd (POST env (Some jobId) db))) jobId) =
           Some (Some (segments result))
       \<and> map_option error_message
           (transcription_jobs (fst (snd (POST env (Some jobId) db))) jobId) =
           Some (error_message job)
       \<and> (\<exists>p \<in> set (100 # reported_progress events).
             map_option progress
               (transcription_jobs (fst (snd (POST env (Some jobId) db))) jobId) = Some p)
       \<and> (arrivals env (map fst (snd (snd (POST env (Some jobId) db)))) = [] \<longrightarrow>
             map_option progress
               (transcription_jobs (fst (snd (POST env (Some jobId) db))) jobId) = Some 100)
       \<and> transcription_usage (fst (snd (POST env (Some jobId) db))) = transcription_usage db
       \<and> profiles (fst (snd (POST env (Some jobId) db))) = profiles db
       \<and> map fst (snd (snd (POST env (Some jobId) db))) =
           ops_to_transcript env jobId job audio events
           @ [update_job jobId mark_finalizing,
              consume_minutes (job_user_id job) jobId \<lceil>duration result / 60\<rceil>
                (subscription_limit env) (billing_period_start env) (billing_period_end env),
              console_error ''[Transcription] Failed to consume credits:'',
              update_job jobId (mark_completed (segments result)
                (new_Date env (length (progress_ops jobId events) + 7)))]"
  by (rule POST_denied_consumption [OF assms])

theorem denied_consumption_still_completes_witness:
  "transcription_jobs db_pending ''j1'' = Some (created_job ''u1'' ''video'')
   \<and> snd (transcribeAudio (gemini env_demo) (createAudioFile audio_20mb) None) = Inr result_ok
   \<and> \<not> allowed (fst (consume_transcription_minutes_atomically ''u1'' ''j1'' 15 10
          (Some 0) (Some 100) db_pending))
   \<and> http_status (fst (POST env_demo (Some ''j1'') db_pending)) = 200
   \<and> map_option status
        (transcription_jobs (fst (snd (POST env_demo (Some ''j1'') db_pending))) ''j1'') =
        Some completed
   \<and> map_option progress
        (transcription_jobs (fst (snd (POST env_demo (Some ''j1'') db_pending))) ''j1'') =
        Some 100
   \<and> transcription_usage (fst (snd (POST env_demo (Some ''j1'') db_pending))) = []
   \<and> map_option status
        (transcription_jobs (fst (snd (POST env_late (Some ''j1'') db_pending))) ''j1'') =
        Some completed
   \<and> map_option progress
        (transcription_jobs (fst (snd (POST env_late (Some ''j1'') db_pending))) ''j1'') =
        Some 90
   \<and> transcription_usage (fst (snd (POST env_late (Some ''j1'') db_pending))) = []"
proof -
  note t = denied_consumption_still_completes [OF _ eval_demo_job(1,2,4) eval_demo_transcribe
      eval_demo_denied, simplified]
  from t obtain ops where ops: "map fst (snd (snd (POST env_demo (Some ''j1'') db_pending))) =
      ops @ [update_job ''j1'' (mark_completed (segments result_ok)
               (new_Date env_demo (length (progress_ops ''j1''
                  [on_progress stage_preparing 0, on_progress stage_preparing 10,
                   on_progress stage_transcribing 30,
                   model_attempt ''gemini-3-flash-preview'' 0,
                   on_progress stage_transcribing 40,
                   model_attempt ''gemini-2.5-flash-lite'' 0,
                   on_progress stage_transcribing 40,
                   on_progress stage_processing 80, on_progress stage_processing 100]) + 7)))]"
    by (metis append.assoc append_Cons append_Nil)
  have quiet: "arrivals env_demo (map fst (snd (snd (POST env_demo (Some ''j1'') db_pending)))) = []"
    unfolding ops by (simp add: arrivals_prompt [OF prompt_demo])
  from t quiet have prompt:
    "http_status (fst (POST env_demo (Some ''j1'') db_pending)) = 200
     \<and> map_option status
          (transcription_jobs (fst (snd (POST env_demo (Some ''j1'') db_pending))) ''j1'') =
          Some completed
     \<and> map_option progress
          (transcription_jobs (fst (snd (POST env_demo (Some ''j1'') db_pending))) ''j1'') =
          Some 100
     \<and> transcription_usage (fst (snd (POST env_demo (Some ''j1'') db_pending))) =
          transcription_usage db_pending"
    by simp
  note t' = denied_consumption_still_completes [OF _ eval_demo_job(1,2) eval_late_job(1)
      eval_late_job(2) [unfolded eval_demo_transcribe] eval_late_denied, simplified]
  from t' have late:
    "map_option status
        (transcription_jobs (fst (snd (POST env_late (Some ''j1'') db_pending))) ''j1'') =
        Some completed
     \<and> transcription_usage (fst (snd (POST env_late (Some ''j1'') db_pending))) =
          transcription_usage db_pending"
    by simp
  have ninety: "map_option progress
      (transcription_jobs (fst (snd (POST env_late (Some ''j1'') db_pending))) ''j1'') = Some 90"
    by (simp add: eval_late_run eval_late_progress)
  show ?thesis
    using prompt late ninety
    by (simp add: eval_demo_job eval_demo_transcribe eval_demo_consume) (simp add: db_pending_def)
qed

text \<open>
  C1 as stated fails: the user has 10 subscription minutes and no top-up, the transcript
  is 15 minutes long, the consumption is denied with \<open>INSUFFICIENT_CREDITS\<close>, and the run
  ends with the job \<open>completed\<close>, the transcript persisted and no error message.
\<close>

theorem denied_job_completed_counterexample:
  "snd (transcribeAudio (gemini env_demo) (createAudioFile audio_20mb) None) = Inr result_ok
   \<and> reason (fst (consume_transcription_minutes_atomically ''u1'' ''j1'' 15 10
          (Some 0) (Some 100) db_pending)) = ''INSUFFICIENT_CREDITS''
   \<and> map_option status
        (transcription_jobs (fst (snd (POST env_demo (Some ''j1'') db_pending))) ''j1'') =
        Some completed
   \<and> map_option transcript_data
        (transcription_jobs (fst (snd (POST env_demo (Some ''j1'') db_pending))) ''j1'') =
        Some (Some [\<lparr> seg_text = ''hello'', seg_start = 0, seg_duration = 2 \<rparr>])
   \<and> map_option error_message
        (transcription_jobs (fst (snd (POST env_demo (Some ''j1'') db_pending))) ''j1'') =
        Some None"
  using POST_denied_consumption [OF _ eval_demo_job(1,2,4) eval_demo_transcribe eval_demo_denied]
  by (simp add: eval_demo_transcribe eval_demo_consume)
     (simp add: result_ok_def created_job_def)


lemma eval_abandoned_job:
  "transcription_jobs db_abandoned ''j1'' =
     Some ((created_job ''u1'' ''video'')\<lparr> status := transcribing, progress := 90 \<rparr>)"
  "\<not> is_terminal (status ((created_job ''u1'' ''video'')\<lparr> status := transcribing, progress := 90 \<rparr>))"
  "extractYouTubeAudio env_download_fails
     (youtube_id ((created_job ''u1'' ''video'')\<lparr> status := transcribing, progress := 90 \<rparr>)) =
     Inl (new_Error ''Failed to download audio: 403'')"
  by (simp_all add: db_abandoned_def created_job_def is_terminal_def env_download_fails_def)

lemma eval_abandoned_run:
  "snd (snd (POST env_download_fails (Some ''j1'') db_abandoned)) =
     [(update_job ''j1'' (mark_downloading 1000),
       updateTranscriptionJobStatus ''j1'' (mark_downloading 1000) db_abandoned),
      (download_audio ''video'',
       updateTranscriptionJobStatus ''j1'' (mark_downloading 1000) db_abandoned),
      (update_job ''j1'' (mark_failed ''Failed to download audio from YouTube'' 1002),
       updateTranscriptionJobStatus ''j1''
         (mark_failed ''Failed to download audio from YouTube'' 1002)
         (updateTranscriptionJobStatus ''j1'' (mark_downloading 1000) db_abandoned)),
      (refund_minutes ''j1'',
       refundTranscriptionMinutes ''j1''
         (updateTranscriptionJobStatus ''j1''
            (mark_failed ''Failed to download audio from YouTube'' 1002)
            (updateTranscriptionJobStatus ''j1'' (mark_downloading 1000) db_abandoned)))]"
  unfolding POST_download_fails [OF _ eval_abandoned_job, simplified]
  by (simp add: handleJobFailure_def run_to_download_explicit perform_all_awaited
      env_download_fails_def created_job_def)

lemma eval_abandoned_after_status_write:
  "map_option status (transcription_jobs
      (updateTranscriptionJobStatus ''j1''
         (mark_failed ''Failed to download audio from YouTube'' 1002)
         (updateTranscriptionJobStatus ''j1'' (mark_downloading 1000) db_abandoned)) ''j1'') =
     Some failed"
  "job_minutes ''j1''
      (updateTranscriptionJobStatus ''j1''
         (mark_failed ''Failed to download audio from YouTube'' 1002)
         (updateTranscriptionJobStatus ''j1'' (mark_downloading 1000) db_abandoned)) = 15"
  by (simp_all add: updateTranscriptionJobStatus_def apply_update_def mark_failed_def
      mark_downloading_def no_update_def db_abandoned_def created_job_def Let_def
      job_minutes_def rows_of_job_def)

text \<open>
  C2 (as amended). On every failure path of the processing endpoint (the download fails,
  or the transcription fails) the job's status is written as \<open>failed\<close> first and the
  refund operation is invoked right after it, as the last operation of the run; none of
  the operations before the status write is a consumption or a refund.
  After the status write the usage rows and the balances are still those of the start of
  the run; when the run has ended the job is \<open>failed\<close> and has no usage rows, the minutes
  recorded for it summing to 0. All of this holds whenever the unawaited progress writes
  of the run arrive.
\<close>

theorem failure_marks_failed_then_refunds:
  assumes "jobId \<noteq> []" and "transcription_jobs db jobId = Some job"
    and "\<not> is_terminal (status job)"
    and "extractYouTubeAudio env (youtube_id job) = Inl e
         \<or> (\<exists>audio events e'. extractYouTubeAudio env (youtube_id job) = Inr audio
               \<and> transcribeAudio (gemini env) (createAudioFile audio) None = (events, Inl e'))"
  shows "\<exists>pre msg date d1.
       snd (snd (POST env (Some jobId) db)) =
         pre @ [(update_job jobId (mark_failed msg date), d1),
                (refund_minutes jobId, fst (snd (POST env (Some jobId) db)))]
     \<and> list_all (\<lambda>op. \<not> touches_ledger op) (map fst pre)
     \<and> map_option status (transcription_jobs d1 jobId) = Some failed
     \<and> transcription_usage d1 = transcription_usage db
     \<and> profiles d1 = profiles db
     \<and> rows_of_job jobId (fst (snd (POST env (Some jobId) db))) = []
     \<and> job_minutes jobId (fst (snd (POST env (Some jobId) db))) = 0
     \<and> map_option status (transcription_jobs (fst (snd (POST env (Some jobId) db))) jobId) =
         Some failed
     \<and> http_status (fst (POST env (Some jobId) db)) = 500"
  by (rule POST_failure [OF assms])

theorem failure_marks_failed_then_refunds_witness:
  "transcription_jobs db_abandoned ''j1'' =
     Some ((created_job ''u1'' ''video'')\<lparr> status := transcribing, progress := 90 \<rparr>)
   \<and> extractYouTubeAudio env_download_fails ''video'' =
       Inl (new_Error ''Failed to download audio: 403'')
   \<and> job_minutes ''j1'' db_abandoned = 15
   \<and> job_minutes ''j1'' (fst (snd (POST env_download_fails (Some ''j1'') db_abandoned))) = 0
   \<and> map_option status (transcription_jobs
        (fst (snd (POST env_download_fails (Some ''j1'') db_abandoned))) ''j1'') = Some failed
   \<and> http_status (fst (POST env_download_fails (Some ''j1'') db_abandoned)) = 500"
proof -
  have "extractYouTubeAudio env_download_fails
       (youtube_id ((created_job ''u1'' ''video'')\<lparr> status := transcribing, progress := 90 \<rparr>)) =
       Inl (new_Error ''Failed to download audio: 403'')
     \<or> (\<exists>audio events e'. extractYouTubeAudio env_download_fails
          (youtube_id ((created_job ''u1'' ''video'')\<lparr> status := transcribing, progress := 90 \<rparr>)) =
          Inr audio
        \<and> transcribeAudio (gemini env_download_fails) (createAudioFile audio) None =
            (events, Inl e'))"
    using eval_abandoned_job(3) by simp
  from failure_marks_failed_then_refunds [OF _ eval_abandoned_job(1,2) this]
  have "job_minutes ''j1'' (fst (snd (POST env_download_fails (Some ''j1'') db_abandoned))) = 0
     \<and> map_option status (transcription_jobs
          (fst (snd (POST env_download_fails (Some ''j1'') db_abandoned))) ''j1'') = Some failed
     \<and> http_status (fst (POST env_download_fails (Some ''j1'') db_abandoned)) = 500"
    by auto
  then show ?thesis
    using eval_abandoned_job(1)
    by (simp add: env_download_fails_def)
       (simp add: job_minutes_def rows_of_job_def db_abandoned_def)
qed

text \<open>
  C2 as stated fails: an invocation died after it had consumed 15 minutes for the job; the
  next invocation cannot download the audio. Its third operation writes the status
  \<open>failed\<close>, and the database it leaves has the job \<open>failed\<close> with its 15 minutes still
  recorded; the refund is the fourth operation.
\<close>

theorem failed_before_refund_counterexample:
  "map fst (snd (snd (POST env_download_fails (Some ''j1'') db_abandoned))) =
     [update_job ''j1'' (mark_downloading 1000),
      download_audio ''video'',
      update_job ''j1'' (mark_failed ''Failed to download audio from YouTube'' 1002),
      refund_minutes ''j1'']
   \<and> map_option status (transcription_jobs
        (snd (snd (snd (POST env_download_fails (Some ''j1'') db_abandoned)) ! 2)) ''j1'') =
       Some failed
   \<and> job_minutes ''j1''
        (snd (snd (snd (POST env_download_fails (Some ''j1'') db_abandoned)) ! 2)) = 15"
  unfolding eval_abandoned_run using eval_abandoned_after_status_write by simp

text \<open>
  C10. Invoking the processing endpoint for a job whose status is already terminal
  (\<open>completed\<close>, \<open>failed\<close> or \<open>cancelled\<close>) returns a success response that reports the
  existing status, and the run consists of no operation at all: no status update, no
  download, no transcription, no consumption, no refund, whatever the external services
  would have answered; the database, with the job row and the balances, is the one it
  started from.
\<close>

theorem terminal_job_is_left_alone:
  assumes "jobId \<noteq> []" and "transcription_jobs db jobId = Some job"
    and "is_terminal (status job)"
  shows "POST env (Some jobId) db =
     (\<lparr> http_status = 200, resp_success = True, resp_status = Some (status job),
        resp_error = None, resp_message = Some (''Job already '' @ status_name (status job)),
        resp_segmentCount = None, resp_duration = None, resp_language = None \<rparr>, (db, []))"
  by (rule POST_terminal [OF assms])

theorem terminal_job_is_left_alone_witness:
  "map_option status (transcription_jobs db_completed ''j1'') = Some completed
   \<and> is_terminal completed
   \<and> POST env_demo (Some ''j1'') db_completed =
     (\<lparr> http_status = 200, resp_success = True, resp_status = Some completed,
        resp_error = None, resp_message = Some ''Job already completed'',
        resp_segmentCount = None, resp_duration = None, resp_language = None \<rparr>,
      (db_completed, []))"
proof -
  have j: "transcription_jobs db_completed ''j1'' = Some ((created_job ''u1'' ''video'')
       \<lparr> status := completed, progress := 100,
         transcript_data := Some [\<lparr> seg_text = ''hello'', seg_start = 0, seg_duration = 2 \<rparr>] \<rparr>)"
    by (simp add: db_completed_def)
  have t: "is_terminal (status ((created_job ''u1'' ''video'')
       \<lparr> status := completed, progress := 100,
         transcript_data := Some [\<lparr> seg_text = ''hello'', seg_start = 0, seg_duration = 2 \<rparr>] \<rparr>))"
    by (simp add: is_terminal_def)
  show ?thesis
    using terminal_job_is_left_alone [OF _ j t, of env_demo] j
    by (simp add: is_terminal_def)
qed

subsection \<open>The invariant of the job row\<close>

lemma well_behaved_marks:
  "well_behaved (update_job j (mark_downloading d))"
  "well_behaved (update_job j mark_transcribing)"
  "well_behaved (update_job j mark_finalizing)"
  "well_behaved (update_job j (mark_failed msg d))"
  "well_behaved (update_job j (mark_completed segs d))"
  "well_behaved (update_job j (no_update\<lparr> upd_status := Some cancelled \<rparr>))"
  "well_behaved (update_job_unawaited j (callback_update st p))"
  "well_behaved (consume_minutes u j m l ps pe)"
  "well_behaved (refund_minutes j)"
  "well_behaved (console_error msg)"
  "well_behaved (download_audio y)"
  "well_behaved (transcribe_audio f)"
  by (simp_all add: well_behaved_def completes_with_transcript_def mark_downloading_def
      mark_transcribing_def mark_finalizing_def mark_failed_def mark_completed_def
      callback_update_def no_update_def)

lemma well_behaved_progress_ops: "list_all well_behaved (progress_ops jobId events)"
proof -
  have "\<forall>op \<in> set (progress_ops jobId events). well_behaved op"
    by (auto simp add: in_progress_ops well_behaved_marks)
  then show ?thesis by (simp add: list_all_iff)
qed

lemma well_behaved_ops_to_transcript:
  "list_all well_behaved (ops_to_transcript env jobId job audio events)"
  by (simp add: ops_to_transcript_def well_behaved_marks well_behaved_progress_ops)

lemma well_behaved_cancel: "list_all well_behaved (cancel_operations jobId)"
  by (simp add: cancel_operations_def well_behaved_marks)

lemma POST_no_operation:
  "body = None \<or> body = Some [] \<or> (\<exists>jobId. body = Some jobId \<and> transcription_jobs db jobId = None)
     \<or> (\<exists>jobId job. body = Some jobId \<and> transcription_jobs db jobId = Some job
           \<and> is_terminal (status job))
   \<Longrightarrow> snd (POST env body db) = (db, [])"
  by (auto simp add: POST_def getTranscriptionJob_def is_terminal_def)

lemma well_behaved_POST_succeeds:
  assumes "jobId \<noteq> []" and "transcription_jobs db jobId = Some job"
    and "\<not> is_terminal (status job)"
    and "extractYouTubeAudio env (youtube_id job) = Inr audio"
    and "transcribeAudio (gemini env) (createAudioFile audio) None = (events, Inr result)"
  shows "list_all well_behaved (map fst (snd (snd (POST env (Some jobId) db))))"
  unfolding POST_succeeds [OF assms]
  by (simp add: Let_def ops_run_to_transcript well_behaved_ops_to_transcript well_behaved_marks)

lemma well_behaved_POST_fails:
  assumes "jobId \<noteq> []" and "transcription_jobs db jobId = Some job"
    and "\<not> is_terminal (status job)"
    and "extractYouTubeAudio env (youtube_id job) = Inl e
         \<or> (\<exists>audio events e'. extractYouTubeAudio env (youtube_id job) = Inr audio
               \<and> transcribeAudio (gemini env) (createAudioFile audio) None = (events, Inl e'))"
  shows "list_all well_behaved (map fst (snd (snd (POST env (Some jobId) db))))"
  using assms(4)
proof (elim disjE exE conjE)
  assume e: "extractYouTubeAudio env (youtube_id job) = Inl e"
  show ?thesis
    unfolding POST_download_fails [OF assms(1-3) e]
    by (simp add: ops_handleJobFailure ops_run_to_download well_behaved_marks)
next
  fix audio events e'
  assume a: "extractYouTubeAudio env (youtube_id job) = Inr audio"
    and t: "transcribeAudio (gemini env) (createAudioFile audio) None = (events, Inl e')"
  show ?thesis
    unfolding POST_transcription_fails [OF assms(1-3) a t]
    by (simp add: ops_handleJobFailure ops_run_to_transcript well_behaved_ops_to_transcript
        well_behaved_marks)
qed

lemma well_behaved_POST:
  "list_all well_behaved (map fst (snd (snd (POST env (Some jobId) db))))"
proof (cases "jobId = []")
  case True
  then show ?thesis by (simp add: POST_no_operation)
next
  case False
  note nonempty = this
  show ?thesis
  proof (cases "transcription_jobs db jobId")
    case None
    then show ?thesis by (simp add: POST_no_operation)
  next
    case (Some job)
    show ?thesis
    proof (cases "is_terminal (status job)")
      case True
      with Some show ?thesis by (simp add: POST_no_operation)
    next
      case False
      show ?thesis
      proof (cases "extractYouTubeAudio env (youtube_id job)")
        case (Inl e)
        then show ?thesis
          by (intro well_behaved_POST_fails [OF nonempty Some False]) simp
      next
        case (Inr audio)
        obtain events out where t:
          "transcribeAudio (gemini env) (createAudioFile audio) None = (events, out)"
          by (cases "transcribeAudio (gemini env) (createAudioFile audio) None")
        show ?thesis
        proof (cases out)
          case (Inl e')
          with Inr t show ?thesis
            by (intro well_behaved_POST_fails [OF nonempty Some False]) blast
        next
          case (Inr result)
          with \<open>extractYouTubeAudio env (youtube_id job) = Inr audio\<close> t show ?thesis
            by (intro well_behaved_POST_succeeds [OF nonempty Some False]) simp_all
        qed
      qed
    qed
  qed
qed

text \<open>A well-behaved operation keeps a sound row sound.\<close>

lemma update_keeps_row_sound:
  assumes "row_sound j" and "completes_with_transcript u"
  shows "row_sound (if 0 \<le> progress (apply_update u j) \<and> progress (apply_update u j) \<le> 100
                    then apply_update u j else j)"
  using assms
  by (auto simp add: row_sound_def completes_with_transcript_def apply_update_def
      progress_in_range_def split: option.splits)

lemma well_behaved_keeps_row:
  assumes "transcription_jobs db jobId = Some j" and "row_sound j" and "well_behaved op"
  shows "\<exists>j'. transcription_jobs (apply_op op db) jobId = Some j' \<and> row_sound j'"
proof (cases op)
  case (update_job j0 u)
  show ?thesis
  proof (cases "j0 = jobId")
    case True
    with assms update_job show ?thesis
      using update_keeps_row_sound [OF assms(2), of u]
      by (simp add: jobs_update_job_same well_behaved_def)
  next
    case False
    with assms update_job show ?thesis
      by (simp add: jobs_update_job_other)
  qed
next
  case (update_job_unawaited j0 u)
  show ?thesis
  proof (cases "j0 = jobId")
    case True
    with assms update_job_unawaited show ?thesis
      using update_keeps_row_sound [OF assms(2), of u]
      by (simp add: jobs_update_job_same well_behaved_def)
  next
    case False
    with assms update_job_unawaited show ?thesis
      by (simp add: jobs_update_job_other)
  qed
next
  case (consume_minutes u j0 m l ps pe)
  with assms show ?thesis by (simp add: consumeTranscriptionMinutes_def)
next
  case (refund_minutes j0)
  with assms show ?thesis by simp
next
  case (console_error msg)
  with assms show ?thesis by simp
next
  case (download_audio y)
  with assms show ?thesis by simp
next
  case (transcribe_audio f)
  with assms show ?thesis by simp
qed

lemma sound_step:
  assumes "sound jobId (db, runs, flight)" and "well_behaved op"
  shows "sound jobId (apply_op op db, runs, flight)"
proof -
  from assms(1) obtain j where j: "transcription_jobs db jobId = Some j" and s: "row_sound j"
    by (auto simp add: sound_def split: option.splits)
  from well_behaved_keeps_row [OF j s assms(2)] assms(1) show ?thesis
    by (auto simp add: sound_def)
qed

lemma reachable_sound: "reachable jobId c \<Longrightarrow> sound jobId c"
proof (induction rule: reachable.induct)
  case (created db userId youtubeId)
  then show ?case
    by (simp add: sound_def row_sound_def created_job_def progress_in_range_def)
next
  case (invoked db runs flight env resp r)
  from invoked.IH well_behaved_POST [of env jobId db] invoked.hyps(2) show ?case
    by (simp add: sound_def)
next
  case (cancel_requested db runs flight user_id)
  from cancel_requested.IH well_behaved_cancel [of jobId] show ?case
    by (simp add: sound_def)
next
  case (effected db runs op ops runs' flight)
  from effected.IH have wb: "well_behaved op"
    and rest: "sound jobId (db, runs @ ops # runs', flight)"
    by (simp_all add: sound_def)
  from sound_step [OF rest wb] show ?case .
next
  case (issued db runs op ops runs' flight)
  then show ?case by (simp add: sound_def)
next
  case (arrived db runs flight op flight')
  from arrived.IH have wb: "well_behaved op"
    and rest: "sound jobId (db, runs, flight @ flight')"
    by (simp_all add: sound_def)
  from sound_step [OF rest wb] show ?case .
next
  case (lost db runs flight op flight')
  then show ?case by (simp add: sound_def)
next
  case (abandoned db runs ops runs' flight)
  then show ?case by (simp add: sound_def)
next
  case (elsewhere db runs flight db')
  then show ?case by (simp add: sound_def)
qed

subsection \<open>Schedules\<close>

text \<open>The first invocation in flight makes all its operations, its unawaited writes
  staying in flight; the writes in flight arrive in the order of issue; the first
  invocation makes all its operations, each unawaited write arriving at once; two
  invocations start on the same database.\<close>

lemma reachable_run_first:
  "reachable jobId (db, ops # runs, flight) \<Longrightarrow>
   reachable jobId (replay (filter awaited ops) db, [] # runs,
     flight @ filter (\<lambda>op. \<not> awaited op) ops)"
proof (induction ops arbitrary: db flight)
  case Nil
  then show ?case by simp
next
  case (Cons op ops)
  show ?case
  proof (cases "awaited op")
    case True
    from effected [of jobId db "[]" op ops runs flight] Cons.prems True
    have "reachable jobId (apply_op op db, ops # runs, flight)"
      by simp
    from Cons.IH [OF this] True show ?thesis
      by simp
  next
    case False
    from issued [of jobId db "[]" op ops runs flight] Cons.prems False
    have "reachable jobId (db, ops # runs, flight @ [op])"
      by simp
    from Cons.IH [OF this] False show ?thesis
      by simp
  qed
qed

lemma reachable_all_arrive:
  "reachable jobId (db, runs, flight) \<Longrightarrow> reachable jobId (replay flight db, runs, [])"
proof (induction flight arbitrary: db)
  case Nil
  then show ?case by simp
next
  case (Cons w ws)
  from arrived [of jobId db runs "[]" w ws] Cons.prems
  have "reachable jobId (apply_op w db, runs, ws)"
    by simp
  from Cons.IH [OF this] show ?case
    by simp
qed

lemma reachable_run_first_prompt:
  "reachable jobId (db, ops # runs, flight) \<Longrightarrow> reachable jobId (replay ops db, [] # runs, flight)"
proof (induction ops arbitrary: db)
  case Nil
  then show ?case by simp
next
  case (Cons op ops)
  show ?case
  proof (cases "awaited op")
    case True
    from effected [of jobId db "[]" op ops runs flight] Cons.prems True
    have "reachable jobId (apply_op op db, ops # runs, flight)"
      by simp
    from Cons.IH [OF this] show ?thesis
      by simp
  next
    case False
    from issued [of jobId db "[]" op ops runs flight] Cons.prems False
    have "reachable jobId (db, ops # runs, flight @ [op])"
      by simp
    from arrived [OF this] have "reachable jobId (apply_op op db, ops # runs, flight)"
      by simp
    from Cons.IH [OF this] show ?thesis
      by simp
  qed
qed

lemma reachable_invoked_twice:
  assumes "transcription_jobs db jobId = Some (created_job userId youtubeId)"
  shows "reachable jobId (db, [map fst (snd (snd (POST env (Some jobId) db)))], [])"
    and "reachable jobId (db, [map fst (snd (snd (POST env (Some jobId) db))),
                               map fst (snd (snd (POST env' (Some jobId) db)))], [])"
proof -
  have 0: "reachable jobId (db, [], [])"
    by (rule created [OF assms])
  have p: "POST e (Some jobId) db = (fst (POST e (Some jobId) db), snd (POST e (Some jobId) db))"
    for e
    by simp
  from invoked [OF 0 p]
  show 1: "reachable jobId (db, [map fst (snd (snd (POST env (Some jobId) db)))], [])"
    by simp
  from invoked [OF 1 p]
  show "reachable jobId (db, [map fst (snd (snd (POST env (Some jobId) db))),
                              map fst (snd (snd (POST env' (Some jobId) db)))], [])"
    by simp
qed

subsection \<open>A run of the route is a path of the configurations\<close>

text \<open>Whatever the schedule of the environment, the database that a run of the route
  leaves is one that the configurations reach: every operation of the run is a step of
  the invocation, followed by the arrival of the writes that the schedule has arrive
  behind it.\<close>

lemma arrive_chosen:
  assumes "reachable jobId (db, runs, flight @ map f I)" and "distinct I" and "distinct J"
    and "set J \<subseteq> set I"
  shows "reachable jobId (replay (map f J) db, runs,
           flight @ map f (filter (\<lambda>i. i \<notin> set J) I))"
  using assms
proof (induction J arbitrary: db I)
  case Nil
  then show ?case by simp
next
  case (Cons j J)
  from Cons.prems(4) have "j \<in> set I" by simp
  then obtain I1 I2 where I: "I = I1 @ j # I2"
    by (auto simp add: in_set_conv_decomp)
  with Cons.prems(2) have nj: "j \<notin> set I1" "j \<notin> set I2"
    by simp_all
  from Cons.prems(1) have "reachable jobId (db, runs, (flight @ map f I1) @ f j # map f I2)"
    by (simp add: I)
  from arrived [OF this]
  have 1: "reachable jobId (apply_op (f j) db, runs, flight @ map f (I1 @ I2))"
    by simp
  have d: "distinct (I1 @ I2)"
    using Cons.prems(2) by (simp add: I)
  have dJ: "distinct J" and jJ: "j \<notin> set J"
    using Cons.prems(3) by simp_all
  have sub: "set J \<subseteq> set (I1 @ I2)"
    using Cons.prems(4) jJ by (auto simp add: I)
  have "filter (\<lambda>i. i \<notin> set J) xs = filter (\<lambda>i. i \<notin> set (j # J)) xs" if "j \<notin> set xs" for xs
    using that by (intro filter_cong) auto
  with nj have eq: "filter (\<lambda>i. i \<notin> set J) (I1 @ I2) = filter (\<lambda>i. i \<notin> set (j # J)) I"
    by (simp add: I)
  from Cons.IH [OF 1 d dJ sub]
  have "reachable jobId (replay (map f (j # J)) db, runs,
      flight @ map f (filter (\<lambda>i. i \<notin> set J) (I1 @ I2)))"
    by simp
  then show ?case
    by (simp only: eq)
qed

lemma due_iff:
  "due env (ops @ [op]) k \<longleftrightarrow>
     \<not> awaited ((ops @ [op]) ! k)
     \<and> (\<exists>a rank. arrival env k = Some (a, rank) \<and> max a k = length ops)"
  by (auto simp add: due_def split: option.splits)

lemma later_iff:
  "later env n k \<longleftrightarrow>
     arrival env k = None \<or> (\<exists>a rank. arrival env k = Some (a, rank) \<and> n \<le> max a k)"
  by (auto simp add: later_def split: option.splits)

lemma perform_reachable:
  assumes "reachable jobId (fst r, runs @ [op # ops], flight @ in_flight env (map fst (snd r)))"
  shows "reachable jobId (fst (perform env op r), runs @ [ops],
           flight @ in_flight env (map fst (snd (perform env op r))))"
proof -
  let ?old = "map fst (snd r)"
  let ?new = "?old @ [op]"
  let ?n = "length ?old"
  let ?I = "filter (\<lambda>k. \<not> awaited (?new ! k) \<and> later env ?n k) [0..<Suc ?n]"
  let ?J = "sort_key (\<lambda>k. case arrival env k of None \<Rightarrow> 0 | Some (n, rank) \<Rightarrow> rank)
      (filter (due env ?new) [0..<Suc ?n])"
  let ?db1 = "if awaited op then apply_op op (fst r) else fst r"
  have f: "filter (\<lambda>k. \<not> awaited (?old ! k) \<and> later env ?n k) [0..<?n] =
      filter (\<lambda>k. \<not> awaited (?new ! k) \<and> later env ?n k) [0..<?n]"
    by (rule filter_cong) (simp_all add: nth_append)
  have m: "map (\<lambda>k. ?old ! k) xs = map (\<lambda>k. ?new ! k) xs" if "set xs \<subseteq> {0..<?n}" for xs
    using that by (intro map_cong) (auto simp add: nth_append)
  have old: "in_flight env ?old =
      map (\<lambda>k. ?new ! k) (filter (\<lambda>k. \<not> awaited (?new ! k) \<and> later env ?n k) [0..<?n])"
    unfolding in_flight_def f by (simp only: length_map) (rule m, auto)
  have last: "(map fst (snd r) @ [op]) ! length (snd r) = op"
    by (simp add: nth_append)
  have 1: "reachable jobId (?db1, runs @ [ops], flight @ map (\<lambda>k. ?new ! k) ?I)"
  proof (cases "awaited op")
    case True
    from effected [OF assms True]
    have "reachable jobId (apply_op op (fst r), runs @ [ops], flight @ in_flight env ?old)" .
    with True show ?thesis
      by (simp add: old last)
  next
    case False
    from issued [OF assms False]
    have "reachable jobId (fst r, runs @ [ops], (flight @ in_flight env ?old) @ [op])" .
    with False show ?thesis
      by (simp add: old last later_iff) (auto simp add: max_def)
  qed
  have dI: "distinct ?I" and dJ: "distinct ?J"
    by simp_all
  have sub: "set ?J \<subseteq> set ?I"
    by (auto simp add: due_iff later_iff)
  have rest: "filter (\<lambda>i. i \<notin> set ?J) ?I =
      filter (\<lambda>k. \<not> awaited (?new ! k) \<and> later env (Suc ?n) k) [0..<Suc ?n]"
    unfolding filter_filter
    by (rule filter_cong) (auto simp add: due_iff later_iff)
  from arrive_chosen [OF 1 dI dJ sub]
  have "reachable jobId (replay (map (\<lambda>k. ?new ! k) ?J) ?db1, runs @ [ops],
      flight @ map (\<lambda>k. ?new ! k)
        (filter (\<lambda>k. \<not> awaited (?new ! k) \<and> later env (Suc ?n) k) [0..<Suc ?n]))"
    unfolding rest .
  then show ?thesis
    by (simp add: fst_perform arrivals_def in_flight_def)
qed

lemma fold_perform_reachable:
  "reachable jobId (fst r, runs @ [L @ rest], flight @ in_flight env (map fst (snd r))) \<Longrightarrow>
   reachable jobId (fst (fold (perform env) L r), runs @ [rest],
     flight @ in_flight env (map fst (snd (fold (perform env) L r))))"
proof (induction L arbitrary: r)
  case Nil
  then show ?case by simp
next
  case (Cons op L)
  from Cons.prems have "reachable jobId (fst r, runs @ [op # L @ rest],
      flight @ in_flight env (map fst (snd r)))"
    by simp
  from Cons.IH [OF perform_reachable [OF this]] show ?case
    by simp
qed

text \<open>A run is determined by its operations: it is what making them one after the
  other gives.\<close>

lemma folded_perform:
  assumes "r = fold (perform env) (map fst (snd r)) (db, [])"
  shows "perform env op r = fold (perform env) (map fst (snd (perform env op r))) (db, [])"
proof -
  have "fold (perform env) (map fst (snd (perform env op r))) (db, []) =
      perform env op (fold (perform env) (map fst (snd r)) (db, []))"
    by simp
  also have "\<dots> = perform env op r"
    by (rule arg_cong [where f = "perform env op", OF assms [symmetric]])
  finally show ?thesis by (rule sym)
qed

lemma folded_client_events:
  "r = fold (perform env) (map fst (snd r)) (db, []) \<Longrightarrow>
   fold (on_client_event env jobId) events r =
     fold (perform env) (map fst (snd (fold (on_client_event env jobId) events r))) (db, [])"
proof (induction events arbitrary: r)
  case Nil
  then show ?case unfolding fold_simps .
next
  case (Cons ev events)
  have "on_client_event env jobId ev r =
      fold (perform env) (map fst (snd (on_client_event env jobId ev r))) (db, [])"
  proof (cases ev)
    case (on_progress st p)
    show ?thesis
      unfolding on_progress on_client_event.simps by (rule folded_perform [OF Cons.prems])
  next
    case (model_attempt m i)
    show ?thesis
      unfolding model_attempt on_client_event.simps by (rule Cons.prems)
  next
    case (slept d)
    show ?thesis
      unfolding slept on_client_event.simps by (rule Cons.prems)
  qed
  from Cons.IH [OF this] show ?case
    unfolding fold_simps .
qed

lemma folded_failure:
  "r = fold (perform env) (map fst (snd r)) (db, []) \<Longrightarrow>
   handleJobFailure env jobId msg r =
     fold (perform env) (map fst (snd (handleJobFailure env jobId msg r))) (db, [])"
  unfolding handleJobFailure_def by (intro folded_perform)

lemma folded_download:
  "run_to_download env jobId job db =
     fold (perform env) (map fst (snd (run_to_download env jobId job db))) (db, [])"
  unfolding run_to_download_def
  by (intro folded_perform) (simp only: snd_conv list.map fold_simps)

lemma folded_transcript:
  "run_to_transcript env jobId job audio events db =
     fold (perform env) (map fst (snd (run_to_transcript env jobId job audio events db))) (db, [])"
  unfolding run_to_transcript_def
  by (intro folded_client_events folded_perform) (rule folded_download)

lemma POST_folded:
  "snd (POST env (Some jobId) db) =
     fold (perform env) (map fst (snd (snd (POST env (Some jobId) db)))) (db, [])"
proof (cases "jobId = []")
  case True
  then show ?thesis by (simp add: POST_no_operation)
next
  case False
  note nonempty = this
  show ?thesis
  proof (cases "transcription_jobs db jobId")
    case None
    then show ?thesis by (simp add: POST_no_operation)
  next
    case (Some job)
    show ?thesis
    proof (cases "is_terminal (status job)")
      case True
      with Some show ?thesis by (simp add: POST_no_operation)
    next
      case False
      show ?thesis
      proof (cases "extractYouTubeAudio env (youtube_id job)")
        case (Inl e)
        show ?thesis
          unfolding POST_download_fails [OF nonempty Some False Inl] snd_conv
          by (intro folded_failure folded_download)
      next
        case (Inr audio)
        obtain events out where t:
          "transcribeAudio (gemini env) (createAudioFile audio) None = (events, out)"
          by (cases "transcribeAudio (gemini env) (createAudioFile audio) None")
        show ?thesis
        proof (cases out)
          case (Inl e')
          show ?thesis
            unfolding POST_transcription_fails [OF nonempty Some False Inr t [unfolded Inl]]
              snd_conv
            by (intro folded_failure folded_transcript)
        next
          case r: (Inr result)
          let ?r4 = "perform env (update_job jobId mark_finalizing)
              (run_to_transcript env jobId job audio events db)"
          let ?r5 = "perform env (consume_minutes (job_user_id job) jobId
              \<lceil>duration result / 60\<rceil> (subscription_limit env) (billing_period_start env)
              (billing_period_end env)) ?r4"
          have consumed: "?r5 = fold (perform env) (map fst (snd ?r5)) (db, [])"
            by (intro folded_perform folded_transcript)
          let ?denied = "\<not> allowed (fst (consumeTranscriptionMinutes (job_user_id job) jobId
              \<lceil>duration result / 60\<rceil> (subscription_limit env) (billing_period_start env)
              (billing_period_end env) (fst ?r4)))"
          let ?r5' = "if ?denied
              then perform env (console_error ''[Transcription] Failed to consume credits:'') ?r5
              else ?r5"
          have logged: "?r5' = fold (perform env) (map fst (snd ?r5')) (db, [])"
          proof (cases ?denied)
            case True
            then have e: "?r5' =
                perform env (console_error ''[Transcription] Failed to consume credits:'') ?r5"
              by simp
            show ?thesis
              unfolding e by (rule folded_perform [OF consumed])
          next
            case False
            then have e: "?r5' = ?r5"
              by simp
            show ?thesis
              unfolding e by (rule consumed)
          qed
          show ?thesis
            unfolding POST_succeeds [OF nonempty Some False Inr t [unfolded r]] Let_def snd_conv
            by (rule folded_perform [OF logged])
        qed
      qed
    qed
  qed
qed

lemma POST_run_reachable:
  assumes "reachable jobId (db, runs, flight)"
  shows "reachable jobId (fst (snd (POST env (Some jobId) db)), runs @ [[]],
           flight @ in_flight env (map fst (snd (snd (POST env (Some jobId) db)))))"
proof -
  let ?L = "map fst (snd (snd (POST env (Some jobId) db)))"
  have "reachable jobId (db, runs @ [?L], flight)"
    by (rule invoked [OF assms prod.collapse [symmetric]])
  then have "reachable jobId (fst (db, []), runs @ [?L @ []],
      flight @ in_flight env (map fst (snd (db, []))))"
    by (simp add: in_flight_def)
  from fold_perform_reachable [OF this] show ?thesis
    unfolding POST_folded [symmetric] .
qed

lemma reachable_demo_invoked: "reachable ''j1'' (db_pending, [demo_operations], [])"
  unfolding demo_operations_def
  by (rule reachable_invoked_twice(1) [of _ _ "''u1''" "''video''"]) (simp add: db_pending_def)

lemma reachable_late_progress: "reachable ''j1'' (db_late_progress, [[]], [])"
  using reachable_all_arrive [OF reachable_run_first [OF reachable_demo_invoked]]
  by (simp add: db_late_progress_def settle_late_def)

lemma reachable_failed_after_completion:
  "reachable ''j1'' (db_failed_after_completion, [[], [refund_minutes ''j1'']], [])"
proof -
  let ?o1 = "update_job ''j1'' (mark_downloading 1000)"
  let ?o2 = "download_audio ''video''"
  let ?o3 = "update_job ''j1'' (mark_failed ''Failed to download audio from YouTube'' 1002)"
  let ?o4 = "refund_minutes ''j1''"
  have "reachable ''j1'' (db_pending, [demo_operations, second_operations], [])"
    unfolding demo_operations_def second_operations_def
    by (rule reachable_invoked_twice(2) [of _ _ "''u1''" "''video''"]) (simp add: db_pending_def)
  then have 0: "reachable ''j1'' (db_pending, [demo_operations] @ (?o1 # [?o2, ?o3, ?o4]) # [], [])"
    by (simp add: eval_second_operations)
  from effected [OF 0]
  have 1: "reachable ''j1'' (apply_op ?o1 db_pending,
      [demo_operations] @ (?o2 # [?o3, ?o4]) # [], [])"
    by simp
  from effected [OF 1]
  have 2: "reachable ''j1'' (apply_op ?o2 (apply_op ?o1 db_pending),
      demo_operations # [[?o3, ?o4]], [])"
    by simp
  from reachable_run_first_prompt [OF 2]
  have 3: "reachable ''j1'' (replay demo_operations (apply_op ?o2 (apply_op ?o1 db_pending)),
      [[]] @ (?o3 # [?o4]) # [], [])"
    by simp
  from effected [OF 3] show ?thesis
    by (simp add: db_failed_after_completion_def eval_second_operations)
qed

text \<open>
  C5 (as amended). In every state that a job can reach, with any number of invocations
  of the processing route and of cancel requests in flight and the unawaited progress
  writes arriving in any order or never, the job row exists, its status is \<open>completed\<close>
  only if its transcript is non-null, and its progress lies between 0 and 100. Every
  write to come, issued or yet to be issued, that sets the status \<open>completed\<close> sets the
  transcript and the progress 100 with it, and no other write sets the transcript.
\<close>

theorem completed_job_has_transcript:
  assumes "reachable jobId (db, runs, flight)"
  shows "(\<exists>j. transcription_jobs db jobId = Some j
            \<and> (status j = completed \<longrightarrow> transcript_data j \<noteq> None)
            \<and> 0 \<le> progress j \<and> progress j \<le> 100)
       \<and> list_all well_behaved (concat runs @ flight)"
  using reachable_sound [OF assms]
  by (auto simp add: sound_def row_sound_def progress_in_range_def split: option.splits)

theorem completed_job_has_transcript_witness:
  "reachable ''j1'' (db_late_progress, [[]], [])
   \<and> map_option status (transcription_jobs db_late_progress ''j1'') = Some completed
   \<and> map_option transcript_data (transcription_jobs db_late_progress ''j1'') \<noteq> Some None
   \<and> map_option progress (transcription_jobs db_late_progress ''j1'') = Some 90
   \<and> reachable ''j1'' (db_pending, [demo_operations], [])
   \<and> last demo_operations = update_job ''j1'' (mark_completed (segments result_ok) 1014)
   \<and> upd_status (mark_completed (segments result_ok) 1014) = Some completed
   \<and> well_behaved (last demo_operations)"
proof -
  from completed_job_has_transcript [OF reachable_late_progress]
  obtain j where j: "transcription_jobs db_late_progress ''j1'' = Some j"
    and t: "status j = completed \<longrightarrow> transcript_data j \<noteq> None"
    by blast
  have s: "status j = completed" and p: "progress j = 90"
    using j by (auto simp add: eval_late_progress)
  from t s have td: "transcript_data j \<noteq> None"
    by simp
  from completed_job_has_transcript [OF reachable_demo_invoked]
  have "list_all well_behaved demo_operations"
    by simp
  moreover have "last demo_operations \<in> set demo_operations"
    by (simp add: eval_demo_operations)
  ultimately have wb: "well_behaved (last demo_operations)"
    by (simp add: list_all_iff)
  have l: "last demo_operations = update_job ''j1'' (mark_completed (segments result_ok) 1014)"
    by (simp add: eval_demo_operations)
  show ?thesis
    using j s p td wb l reachable_late_progress reachable_demo_invoked
    by (simp add: mark_completed_def no_update_def)
qed

text \<open>
  C5 as stated fails in both directions. When the progress writes of an invocation
  arrive after its completing write, the job is \<open>completed\<close> with its transcript and the
  progress 90 of the last progress write; this is the database that the run of the route
  leaves under that schedule. When a second invocation reads the job at the same time as
  the first, cannot download the audio, and has its write of the status \<open>failed\<close> take
  effect after the first invocation has completed the job, the row has its transcript and
  the progress 100 with the status \<open>failed\<close>.
\<close>

theorem late_write_counterexample:
  "reachable ''j1'' (db_late_progress, [[]], [])
   \<and> fst (snd (POST env_late (Some ''j1'') db_pending)) = db_late_progress
   \<and> map_option status (transcription_jobs db_late_progress ''j1'') = Some completed
   \<and> map_option transcript_data (transcription_jobs db_late_progress ''j1'') =
       Some (Some (segments result_ok))
   \<and> map_option progress (transcription_jobs db_late_progress ''j1'') = Some 90
   \<and> reachable ''j1'' (db_failed_after_completion, [[], [refund_minutes ''j1'']], [])
   \<and> map_option status (transcription_jobs db_failed_after_completion ''j1'') = Some failed
   \<and> map_option transcript_data (transcription_jobs db_failed_after_completion ''j1'') =
       Some (Some (segments result_ok))
   \<and> map_option progress (transcription_jobs db_failed_after_completion ''j1'') = Some 100"
  using reachable_late_progress reachable_failed_after_completion
  by (simp add: eval_late_run eval_late_progress eval_failed_after_completion)

end
